theory Spec2Isabelle
  imports Complex_Main
begin

section \<open>Strings of the viewer\<close>

text \<open>
  The viewer is JavaScript; its strings are sequences of code units. They are modelled as
  \<^typ>\<open>string\<close>, so a code unit is one of the 256 values of \<^typ>\<open>char\<close> (Latin-1).
  The quote, the double quote and the backslash have no literal form and are written by code.
\<close>

abbreviation (input) SQ :: char where "SQ \<equiv> CHR 0x27"
abbreviation (input) DQ :: char where "DQ \<equiv> CHR 0x22"
abbreviation (input) BSL :: char where "BSL \<equiv> CHR 0x5C"

text \<open>\<^verbatim>\<open>str.replace(/c/g, r)\<close>: every occurrence of one character is replaced.\<close>

definition replaceAll :: "char \<Rightarrow> string \<Rightarrow> string \<Rightarrow> string" where
  "replaceAll c r s = concat (map (\<lambda>x. if x = c then r else [x]) s)"

text \<open>\<^verbatim>\<open>Array.prototype.join\<close>.\<close>

fun join :: "string \<Rightarrow> string list \<Rightarrow> string" where
  "join sep [] = []"
| "join sep [x] = x"
| "join sep (x # y # ys) = x @ sep @ join sep (y # ys)"

text \<open>
  White space and line terminators of ECMAScript that fit in one byte: TAB, LF, VT, FF, CR,
  SP and NBSP. \<^verbatim>\<open>String.prototype.trim\<close> strips them at both ends, \<^verbatim>\<open>parseFloat\<close> at the
  start.
\<close>

definition isWhiteSpace :: "char \<Rightarrow> bool" where
  "isWhiteSpace c = (c \<in> set [CHR 0x09, CHR 0x0A, CHR 0x0B, CHR 0x0C, CHR 0x0D, CHR 0x20, CHR 0xA0])"

definition trimStart :: "string \<Rightarrow> string" where
  "trimStart s = dropWhile isWhiteSpace s"

definition trim :: "string \<Rightarrow> string" where
  "trim s = rev (dropWhile isWhiteSpace (rev (dropWhile isWhiteSpace s)))"

definition isDigit :: "char \<Rightarrow> bool" where
  "isDigit c = (c \<in> set ''0123456789'')"

definition digitsValue :: "string \<Rightarrow> nat" where
  "digitsValue ds = foldl (\<lambda>a c. 10 * a + (of_char c - 48)) 0 ds"

text \<open>Decimal numerals, as a template literal renders an integer.\<close>

fun showNat :: "nat \<Rightarrow> string" where
  "showNat n = (if n < 10 then [''0123456789'' ! n] else showNat (n div 10) @ [''0123456789'' ! (n mod 10)])"

declare showNat.simps [simp del]

definition showInt :: "int \<Rightarrow> string" where
  "showInt i = (if i < 0 then CHR ''-'' # showNat (nat (- i)) else showNat (nat i))"

text \<open>Upper case of the letters a to z; the other characters are kept.\<close>

definition upperAscii :: "char \<Rightarrow> char" where
  "upperAscii c =
     (case map_of (zip ''abcdefghijklmnopqrstuvwxyz'' ''ABCDEFGHIJKLMNOPQRSTUVWXYZ'') c of
        None \<Rightarrow> c
      | Some u \<Rightarrow> u)"

section \<open>Escaping primitives\<close>

text \<open>\<^verbatim>\<open>escapeSource\<close>: every quote is doubled.\<close>

definition escapeSource :: "string \<Rightarrow> string" where
  "escapeSource source = replaceAll SQ [SQ, SQ] source"

text \<open>\<^verbatim>\<open>escapeLikePattern\<close>: the backslash first, then the percent sign, then the underscore.\<close>

definition escapeLikePattern :: "string \<Rightarrow> string" where
  "escapeLikePattern str =
     replaceAll (CHR ''_'') [BSL, CHR ''_'']
       (replaceAll (CHR ''%'') [BSL, CHR ''%'']
         (replaceAll BSL [BSL, BSL] str))"

text \<open>\<^verbatim>\<open>escapeColumnName\<close>: a delimited identifier, embedded double quotes doubled.\<close>

definition escapeColumnName :: "string \<Rightarrow> string" where
  "escapeColumnName name = [DQ] @ replaceAll DQ [DQ, DQ] name @ [DQ]"

section \<open>Numbers read from filter fields\<close>

text \<open>
  \<^verbatim>\<open>parseFloat\<close> skips leading white space and reads the longest prefix that is a
  \<^verbatim>\<open>StrDecimalLiteral\<close>: an optional sign, then \<^verbatim>\<open>Infinity\<close>, or digits with an optional
  fraction, or a fraction alone, each with an optional exponent. With no such prefix the
  result is \<^verbatim>\<open>NaN\<close>. \<open>Num q\<close> carries the mathematical value \<open>q\<close> of the literal read; the
  engine rounds it to the nearest double, which the value \<open>q\<close> determines.
\<close>

datatype number = NaN | Infinity | NegInfinity | Num rat

fun negate :: "number \<Rightarrow> number" where
  "negate NaN = NaN"
| "negate Infinity = NegInfinity"
| "negate NegInfinity = Infinity"
| "negate (Num q) = Num (- q)"

text \<open>The exponent of an \<^verbatim>\<open>ExponentPart\<close> at the head of the text, \<open>0\<close> when there is none.\<close>

definition signedInteger :: "string \<Rightarrow> int option" where
  "signedInteger r =
     (case r of
        [] \<Rightarrow> None
      | s # d \<Rightarrow>
          if s = CHR ''+'' then
            (if takeWhile isDigit d = [] then None else Some (int (digitsValue (takeWhile isDigit d))))
          else if s = CHR ''-'' then
            (if takeWhile isDigit d = [] then None else Some (- int (digitsValue (takeWhile isDigit d))))
          else
            (if takeWhile isDigit r = [] then None else Some (int (digitsValue (takeWhile isDigit r)))))"

definition exponentPart :: "string \<Rightarrow> int" where
  "exponentPart r =
     (case r of
        [] \<Rightarrow> 0
      | c # r' \<Rightarrow>
          if c = CHR ''e'' \<or> c = CHR ''E'' then
            (case signedInteger r' of None \<Rightarrow> 0 | Some e \<Rightarrow> e)
          else 0)"

definition decimalValue :: "string \<Rightarrow> string \<Rightarrow> int \<Rightarrow> number" where
  "decimalValue ip fp e = Num (of_nat (digitsValue (ip @ fp)) * 10 powi (e - int (length fp)))"

definition strUnsignedDecimalLiteral :: "string \<Rightarrow> number" where
  "strUnsignedDecimalLiteral r =
     (if take 8 r = ''Infinity'' then Infinity
      else
        let ip = takeWhile isDigit r; r1 = dropWhile isDigit r in
        (case r1 of
           [] \<Rightarrow> if ip = [] then NaN else decimalValue ip [] 0
         | c # r2 \<Rightarrow>
             if c = CHR ''.'' then
               (let fp = takeWhile isDigit r2; r3 = dropWhile isDigit r2 in
                if ip = [] \<and> fp = [] then NaN else decimalValue ip fp (exponentPart r3))
             else if ip = [] then NaN
             else decimalValue ip [] (exponentPart r1)))"

definition parseFloat :: "string \<Rightarrow> number" where
  "parseFloat s =
     (case trimStart s of
        [] \<Rightarrow> NaN
      | c # r \<Rightarrow>
          if c = CHR ''+'' then strUnsignedDecimalLiteral r
          else if c = CHR ''-'' then negate (strUnsignedDecimalLiteral r)
          else strUnsignedDecimalLiteral (c # r))"

definition isNaN :: "number \<Rightarrow> bool" where
  "isNaN x = (x = NaN)"

text \<open>
  How a template literal renders a number. A literal whose value is an integer of magnitude
  below \<open>2^53\<close> is a double exactly, and is rendered as its decimal numeral (zero without a
  sign). The rendering of every other finite value (rounding to the nearest double, then
  the shortest digits that read back as it) is the parameter \<open>fmt\<close>, a function of the
  literal's value.
\<close>

definition numberToString :: "(rat \<Rightarrow> string) \<Rightarrow> number \<Rightarrow> string" where
  "numberToString fmt x =
     (case x of
        NaN \<Rightarrow> ''NaN''
      | Infinity \<Rightarrow> ''Infinity''
      | NegInfinity \<Rightarrow> ''-Infinity''
      | Num q \<Rightarrow>
          if of_int \<lfloor>q\<rfloor> = q \<and> \<bar>q\<bar> < 2 ^ 53 then showInt \<lfloor>q\<rfloor> else fmt q)"

section \<open>The filter-clause builder\<close>

text \<open>
  A filter value is a string (text and select filters) or an object with the string fields
  \<^verbatim>\<open>min\<close> and \<^verbatim>\<open>max\<close> (range and date filters). The filter map is given by its entries, in
  the order \<^verbatim>\<open>Object.entries\<close> lists them. The metadata of a column holds the
  classification \<^verbatim>\<open>filterType\<close> and the declared \<^verbatim>\<open>type\<close>; either may be missing.
\<close>

datatype filter_value = Scalar string | MinMax string string

record col_meta =
  filterType :: "string option"
  type :: "string option"

type_synonym filter_map = "(string \<times> filter_value) list"
type_synonym col_meta_map = "string \<rightharpoonup> col_meta"

datatype error = TypeError string | Error string

fun message :: "error \<Rightarrow> string" where
  "message (TypeError m) = m"
| "message (Error m) = m"

text \<open>\<^verbatim>\<open>val.min\<close> and \<^verbatim>\<open>val.max\<close>: a string has no such property (\<^verbatim>\<open>undefined\<close>).\<close>

fun propMin :: "filter_value \<Rightarrow> string option" where
  "propMin (Scalar s) = None"
| "propMin (MinMax mn mx) = Some mn"

fun propMax :: "filter_value \<Rightarrow> string option" where
  "propMax (Scalar s) = None"
| "propMax (MinMax mn mx) = Some mx"

text \<open>\<^verbatim>\<open>ToString\<close> of a property that may be \<^verbatim>\<open>undefined\<close>, as \<^verbatim>\<open>parseFloat\<close> applies it.\<close>

fun toString :: "string option \<Rightarrow> string" where
  "toString None = ''undefined''"
| "toString (Some s) = s"

text \<open>The first \<^verbatim>\<open>filter\<close> of \<^verbatim>\<open>buildFilterClauses\<close>: which entries are looked at.\<close>

fun keepEntry :: "string \<times> filter_value \<Rightarrow> bool" where
  "keepEntry (col, MinMax mn mx) = (mn \<noteq> [] \<or> mx \<noteq> [])"
| "keepEntry (col, Scalar s) = (s \<noteq> [] \<and> trim s \<noteq> [])"

text \<open>The pattern \<^verbatim>\<open>/^\d{4}-\d{2}-\d{2}$/\<close>.\<close>

fun matchesDate :: "string \<Rightarrow> bool" where
  "matchesDate [y1, y2, y3, y4, h1, m1, m2, h2, d1, d2] =
     (isDigit y1 \<and> isDigit y2 \<and> isDigit y3 \<and> isDigit y4 \<and> h1 = CHR ''-'' \<and>
      isDigit m1 \<and> isDigit m2 \<and> h2 = CHR ''-'' \<and> isDigit d1 \<and> isDigit d2)"
| "matchesDate _ = False"

text \<open>The pattern \<^verbatim>\<open>/^TIMESTAMP/i\<close>, tested on \<^verbatim>\<open>meta.type || ''\<close>.\<close>

definition isTimestamp :: "string option \<Rightarrow> bool" where
  "isTimestamp t =
     (map upperAscii (take 9 (case t of None \<Rightarrow> [] | Some s \<Rightarrow> s)) = ''TIMESTAMP'')"

definition atLeastPart :: "(rat \<Rightarrow> string) \<Rightarrow> string \<Rightarrow> number \<Rightarrow> string" where
  "atLeastPart fmt col minNum = escapeColumnName col @ '' >= '' @ numberToString fmt minNum"

definition atMostPart :: "(rat \<Rightarrow> string) \<Rightarrow> string \<Rightarrow> number \<Rightarrow> string" where
  "atMostPart fmt col maxNum = escapeColumnName col @ '' <= '' @ numberToString fmt maxNum"

definition rangeParts :: "(rat \<Rightarrow> string) \<Rightarrow> string \<Rightarrow> filter_value \<Rightarrow> string list" where
  "rangeParts fmt col val =
     (let minNum = parseFloat (toString (propMin val));
          maxNum = parseFloat (toString (propMax val))
      in (if \<not> isNaN minNum then [atLeastPart fmt col minNum] else []) @
         (if \<not> isNaN maxNum then [atMostPart fmt col maxNum] else []))"

definition lowerBound :: "string \<Rightarrow> string \<Rightarrow> string" where
  "lowerBound col mn = escapeColumnName col @ '' >= '' @ [SQ] @ mn @ [SQ]"

definition exclusiveUpper :: "string \<Rightarrow> string \<Rightarrow> string" where
  "exclusiveUpper col mx =
     escapeColumnName col @ '' < '' @ [SQ] @ mx @ [SQ] @ ''::DATE + INTERVAL '' @ [SQ] @ ''1 day'' @ [SQ]"

definition inclusiveUpper :: "string \<Rightarrow> string \<Rightarrow> string" where
  "inclusiveUpper col mx = escapeColumnName col @ '' <= '' @ [SQ] @ mx @ [SQ]"

definition dateParts :: "string \<Rightarrow> filter_value \<Rightarrow> col_meta \<Rightarrow> string list" where
  "dateParts col val meta =
     (case propMin val of
        None \<Rightarrow> []
      | Some mn \<Rightarrow> if mn \<noteq> [] \<and> matchesDate mn then [lowerBound col mn] else []) @
     (case propMax val of
        None \<Rightarrow> []
      | Some mx \<Rightarrow>
          if mx \<noteq> [] \<and> matchesDate mx then
            (if isTimestamp (type meta) then [exclusiveUpper col mx] else [inclusiveUpper col mx])
          else [])"

text \<open>\<^verbatim>\<open>parts.length > 0 ? `(${parts.join(' AND ')})` : null\<close>.\<close>

definition wrapParts :: "string list \<Rightarrow> string option" where
  "wrapParts parts = (if parts = [] then None else Some (''('' @ join '' AND '' parts @ '')''))"

definition selectClause :: "string \<Rightarrow> string \<Rightarrow> string" where
  "selectClause col v = escapeColumnName col @ '' = '' @ [SQ] @ replaceAll SQ [SQ, SQ] v @ [SQ]"

definition textClause :: "string \<Rightarrow> string \<Rightarrow> string" where
  "textClause col v =
     ''CAST('' @ escapeColumnName col @ '' AS VARCHAR) ILIKE '' @ [SQ] @ ''%'' @
     escapeLikePattern (replaceAll SQ [SQ, SQ] v) @ ''%'' @ [SQ] @ '' ESCAPE '' @ [SQ, BSL, SQ]"

text \<open>
  The body of the \<^verbatim>\<open>map\<close>: one entry to its clause, \<^verbatim>\<open>null\<close> (here \<open>None\<close>), or the
  \<^verbatim>\<open>TypeError\<close> of calling \<^verbatim>\<open>replace\<close> on an object. \<^verbatim>\<open>colMeta[col] || {}\<close> is the metadata
  with both fields missing when the column has none.
\<close>

definition metaOf :: "col_meta_map \<Rightarrow> string \<Rightarrow> col_meta" where
  "metaOf colMeta col =
     (case colMeta col of None \<Rightarrow> \<lparr>filterType = None, type = None\<rparr> | Some m \<Rightarrow> m)"

definition clauseOf :: "(rat \<Rightarrow> string) \<Rightarrow> col_meta_map \<Rightarrow> string \<times> filter_value \<Rightarrow> error + string option" where
  "clauseOf fmt colMeta e =
     (let col = fst e; val = snd e; meta = metaOf colMeta col
      in if filterType meta = Some ''range'' then Inr (wrapParts (rangeParts fmt col val))
         else if filterType meta = Some ''date'' then Inr (wrapParts (dateParts col val meta))
         else if filterType meta = Some ''select'' then
           (case val of
              Scalar s \<Rightarrow> if s = [] then Inr None else Inr (Some (selectClause col s))
            | MinMax mn mx \<Rightarrow> Inl (TypeError ''val.replace is not a function''))
         else
           (case val of
              Scalar s \<Rightarrow> Inr (Some (textClause col s))
            | MinMax mn mx \<Rightarrow> Inl (TypeError ''val.replace is not a function'')))"

text \<open>\<^verbatim>\<open>Array.prototype.map\<close> with a callback that may throw: the first error ends it.\<close>

fun mapE :: "('a \<Rightarrow> error + 'b) \<Rightarrow> 'a list \<Rightarrow> error + 'b list" where
  "mapE f [] = Inr []"
| "mapE f (x # xs) =
     (case f x of
        Inl err \<Rightarrow> Inl err
      | Inr y \<Rightarrow> (case mapE f xs of Inl err \<Rightarrow> Inl err | Inr ys \<Rightarrow> Inr (y # ys)))"

text \<open>\<^verbatim>\<open>.filter(Boolean)\<close>: \<^verbatim>\<open>null\<close> and the empty string are dropped.\<close>

fun filterBoolean :: "string option list \<Rightarrow> string list" where
  "filterBoolean [] = []"
| "filterBoolean (None # cs) = filterBoolean cs"
| "filterBoolean (Some c # cs) = (if c = [] then filterBoolean cs else c # filterBoolean cs)"

definition buildFilterClauses :: "(rat \<Rightarrow> string) \<Rightarrow> filter_map \<Rightarrow> col_meta_map \<Rightarrow> error + string list" where
  "buildFilterClauses fmt filterMap colMeta =
     (case mapE (clauseOf fmt colMeta) (filter keepEntry filterMap) of
        Inl err \<Rightarrow> Inl err
      | Inr cs \<Rightarrow> Inr (filterBoolean cs))"

text \<open>
  The clauses of consecutive entries follow each other in the result, and the first error
  ends the whole call: \<open>appendClauses\<close> puts the results of two runs of entries together.
\<close>

definition appendClauses :: "error + string list \<Rightarrow> error + string list \<Rightarrow> error + string list" where
  "appendClauses r1 r2 =
     (case r1 of
        Inl err \<Rightarrow> Inl err
      | Inr a \<Rightarrow> (case r2 of Inl err \<Rightarrow> Inl err | Inr b \<Rightarrow> Inr (a @ b)))"

section \<open>Error classification\<close>

text \<open>
  \<^verbatim>\<open>String.prototype.toLowerCase\<close> on one-byte code units: the letters A to Z, and the
  Latin-1 capitals \<open>0xC0\<close> to \<open>0xDE\<close> other than the multiplication sign.
\<close>

definition lowerCase :: "char \<Rightarrow> char" where
  "lowerCase c =
     (case map_of
        (zip (''ABCDEFGHIJKLMNOPQRSTUVWXYZ'' @
              [CHR 0xC0, CHR 0xC1, CHR 0xC2, CHR 0xC3, CHR 0xC4, CHR 0xC5, CHR 0xC6, CHR 0xC7,
               CHR 0xC8, CHR 0xC9, CHR 0xCA, CHR 0xCB, CHR 0xCC, CHR 0xCD, CHR 0xCE, CHR 0xCF,
               CHR 0xD0, CHR 0xD1, CHR 0xD2, CHR 0xD3, CHR 0xD4, CHR 0xD5, CHR 0xD6, CHR 0xD8,
               CHR 0xD9, CHR 0xDA, CHR 0xDB, CHR 0xDC, CHR 0xDD, CHR 0xDE])
             (''abcdefghijklmnopqrstuvwxyz'' @
              [CHR 0xE0, CHR 0xE1, CHR 0xE2, CHR 0xE3, CHR 0xE4, CHR 0xE5, CHR 0xE6, CHR 0xE7,
               CHR 0xE8, CHR 0xE9, CHR 0xEA, CHR 0xEB, CHR 0xEC, CHR 0xED, CHR 0xEE, CHR 0xEF,
               CHR 0xF0, CHR 0xF1, CHR 0xF2, CHR 0xF3, CHR 0xF4, CHR 0xF5, CHR 0xF6, CHR 0xF8,
               CHR 0xF9, CHR 0xFA, CHR 0xFB, CHR 0xFC, CHR 0xFD, CHR 0xFE])) c of
        None \<Rightarrow> c
      | Some l \<Rightarrow> l)"

definition toLowerCase :: "string \<Rightarrow> string" where
  "toLowerCase s = map lowerCase s"

text \<open>\<^verbatim>\<open>String.prototype.includes\<close> and \<^verbatim>\<open>startsWith\<close>.\<close>

fun strIncludes :: "string \<Rightarrow> string \<Rightarrow> bool" where
  "strIncludes [] n = (n = [])"
| "strIncludes (c # cs) n = (take (length n) (c # cs) = n \<or> strIncludes cs n)"

definition startsWith :: "string \<Rightarrow> string \<Rightarrow> bool" where
  "startsWith s p = (take (length p) s = p)"

text \<open>
  The three tests of \<^verbatim>\<open>handleError\<close>, on the lower-cased message. \<open>fileUrl\<close> is the
  \<^verbatim>\<open>url\<close> parameter of the page, \<open>None\<close> when the page has none.
\<close>

definition isCorsError :: "string option \<Rightarrow> error \<Rightarrow> bool" where
  "isCorsError fileUrl err =
     (let msg = toLowerCase (message err)
      in strIncludes msg ''cors'' \<or>
         strIncludes msg ''cross-origin'' \<or>
         strIncludes msg ''network error'' \<or>
         (strIncludes msg ''failed to fetch'' \<and>
          (case fileUrl of None \<Rightarrow> False | Some u \<Rightarrow> startsWith u ''http'')))"

definition isNetworkError :: "error \<Rightarrow> bool" where
  "isNetworkError err =
     (let msg = toLowerCase (message err)
      in strIncludes msg ''failed to fetch'' \<or>
         strIncludes msg ''networkerror'' \<or>
         strIncludes msg ''network request failed'' \<or>
         strIncludes msg ''net::'')"

definition isInvalidParquet :: "error \<Rightarrow> bool" where
  "isInvalidParquet err =
     (let msg = toLowerCase (message err)
      in strIncludes msg ''parquet'' \<or>
         strIncludes msg ''invalid'' \<or>
         strIncludes msg ''not a valid'' \<or>
         strIncludes msg ''magic number'' \<or>
         strIncludes msg ''corrupted'')"

text \<open>
  What \<^verbatim>\<open>showError\<close> puts in the status area: a title, the message of the error, and one of
  four fixed suggestions, named here by the kind of error it belongs to.
\<close>

datatype error_kind = CorsError | NetworkError | InvalidParquet | Unexpected

datatype status_text =
    Idle
  | LoadingText
  | Summary string nat nat "nat option"
  | ReadingSchema
  | NoColumns
  | CountingRows
  | EmptyFile string nat
  | AnalyzingColumns
  | LoadingFirstRows string nat nat "string option"
  | Loaded string nat nat "string option"

datatype status_view = StatusText status_text | ErrorBox string string error_kind

text \<open>The label of the load-more button, and of the load-all button.\<close>

datatype more_label = MoreInitial | LoadNext nat int | MoreLoading | AllRowsLoaded

datatype all_label = LoadAllInitial | LoadingAll | Progress nat nat | AllLoaded

section \<open>The session\<close>

text \<open>
  The engine is the asynchronous \<^verbatim>\<open>conn.query\<close>: a function of the SQL text, answering a row
  query with rows (\<^verbatim>\<open>result.toArray()\<close>), a count query with a number
  (\<^verbatim>\<open>Number(result.toArray()[0].cnt)\<close>) and a \<^verbatim>\<open>DESCRIBE\<close> with the names and types of the
  columns, or failing with an error. The environment of the page holds it, with the number
  rendering, the \<^verbatim>\<open>url\<close> parameter, and \<^verbatim>\<open>getFileSize\<close>, which asks the server for the size of
  the file and answers with a formatted size or with nothing.
\<close>

record 'r env =
  numberFormat :: "rat \<Rightarrow> string"
  fileUrl :: "string option"
  rowsQuery :: "string \<Rightarrow> error + 'r list"
  countQuery :: "string \<Rightarrow> error + nat"
  schemaQuery :: "string \<Rightarrow> error + (string \<times> string) list"
  fetchSize :: "string \<Rightarrow> string option"

datatype direction = ASC | DESC

text \<open>A column descriptor \<^verbatim>\<open>{name, type}\<close>.\<close>

type_synonym column = "string \<times> string"

text \<open>
  The module-level variables of the viewer, and what the page shows: the status area, the
  rows of the table body (\<open>None\<close> when the page has no table body), and the two buttons.
\<close>

record 'r session =
  currentSource :: "string option"
  columns :: "column list"
  offset :: nat
  totalRows :: nat
  rowOffset :: nat
  sortColumn :: "string option"
  sortDirection :: "direction option"
  filters :: filter_map
  columnMeta :: col_meta_map
  status :: status_view
  loading :: bool
  table :: "'r list option"
  buttonsHidden :: bool
  moreBtnText :: more_label
  moreBtnDisabled :: bool
  loadAllText :: all_label
  loadAllDisabled :: bool

definition CHUNK :: nat where "CHUNK = 100"
definition BATCH :: nat where "BATCH = 1000"
definition WARN_THRESHOLD :: nat where "WARN_THRESHOLD = 10000"

definition errorTitle :: "error_kind \<Rightarrow> string" where
  "errorTitle k =
     (case k of
        CorsError \<Rightarrow> ''CORS Error - Cannot access this file''
      | NetworkError \<Rightarrow> ''Network Error''
      | InvalidParquet \<Rightarrow> ''Invalid Parquet File''
      | Unexpected \<Rightarrow> ''Error'')"

definition classify :: "string option \<Rightarrow> error \<Rightarrow> error_kind" where
  "classify url err =
     (if isCorsError url err then CorsError
      else if isNetworkError err then NetworkError
      else if isInvalidParquet err then InvalidParquet
      else Unexpected)"

definition handleError :: "'r env \<Rightarrow> error \<Rightarrow> 'r session \<Rightarrow> 'r session" where
  "handleError env err st =
     st\<lparr>status := ErrorBox (errorTitle (classify (fileUrl env) err)) (message err)
                   (classify (fileUrl env) err),
        loading := False\<rparr>"

subsection \<open>Queries\<close>

definition showDirection :: "direction option \<Rightarrow> string" where
  "showDirection d = (case d of None \<Rightarrow> ''null'' | Some ASC \<Rightarrow> ''ASC'' | Some DESC \<Rightarrow> ''DESC'')"

definition whereClause :: "string list \<Rightarrow> string" where
  "whereClause clauses = (if clauses \<noteq> [] then '' WHERE '' @ join '' AND '' clauses else [])"

definition orderByClause :: "string option \<Rightarrow> direction option \<Rightarrow> string" where
  "orderByClause sortCol sortDir =
     (case sortCol of
        None \<Rightarrow> []
      | Some c \<Rightarrow> if c = [] then [] else '' ORDER BY '' @ escapeColumnName c @ '' '' @ showDirection sortDir)"

definition readParquet :: "string \<Rightarrow> string" where
  "readParquet source = ''read_parquet('' @ [SQ] @ escapeSource source @ [SQ] @ '')''"

text \<open>
  \<^verbatim>\<open>getRows\<close>. A source that is still \<^verbatim>\<open>null\<close> fails in \<^verbatim>\<open>escapeSource\<close>, before the filter
  clauses are built.
\<close>

definition getRows ::
  "'r env \<Rightarrow> string option \<Rightarrow> column list \<Rightarrow> nat \<Rightarrow> nat \<Rightarrow> string option \<Rightarrow> direction option \<Rightarrow>
   filter_map \<Rightarrow> col_meta_map \<Rightarrow> error + 'r list" where
  "getRows env source cols limit off sortCol sortDir filterMap colMeta =
     (case source of
        None \<Rightarrow> Inl (TypeError ''Cannot read properties of null (reading 'replace')'')
      | Some src \<Rightarrow>
          (case buildFilterClauses (numberFormat env) filterMap colMeta of
             Inl err \<Rightarrow> Inl err
           | Inr clauses \<Rightarrow>
               rowsQuery env
                 (''SELECT '' @ join '', '' (map (\<lambda>c. escapeColumnName (fst c)) cols) @ '' FROM '' @
                  readParquet src @ whereClause clauses @ orderByClause sortCol sortDir @
                  '' LIMIT '' @ showNat limit @ '' OFFSET '' @ showNat off)))"

definition getFilteredRowCount ::
  "'r env \<Rightarrow> string option \<Rightarrow> filter_map \<Rightarrow> col_meta_map \<Rightarrow> error + nat" where
  "getFilteredRowCount env source filterMap colMeta =
     (case source of
        None \<Rightarrow> Inl (TypeError ''Cannot read properties of null (reading 'replace')'')
      | Some src \<Rightarrow>
          (case buildFilterClauses (numberFormat env) filterMap colMeta of
             Inl err \<Rightarrow> Inl err
           | Inr clauses \<Rightarrow>
               countQuery env (''SELECT COUNT(*) as cnt FROM '' @ readParquet src @ whereClause clauses)))"

text \<open>
  \<^verbatim>\<open>hasFilters\<close>, computed the same way in \<^verbatim>\<open>reloadData\<close>, \<^verbatim>\<open>loadMore\<close> and \<^verbatim>\<open>loadAll\<close>, and
  the filtered count they derive from it: a fresh count query when a filter is active, the
  cached total otherwise.
\<close>

fun activeValue :: "filter_value \<Rightarrow> bool" where
  "activeValue (MinMax mn mx) = (mn \<noteq> [] \<or> mx \<noteq> [])"
| "activeValue (Scalar s) = (s \<noteq> [] \<and> trim s \<noteq> [])"

definition hasFilters :: "filter_map \<Rightarrow> bool" where
  "hasFilters fm = list_ex activeValue (map snd fm)"

definition currentFilteredCount :: "'r env \<Rightarrow> 'r session \<Rightarrow> error + nat" where
  "currentFilteredCount env st =
     (if hasFilters (filters st)
      then getFilteredRowCount env (currentSource st) (filters st) (columnMeta st)
      else Inr (totalRows st))"

subsection \<open>Rendering\<close>

text \<open>
  \<^verbatim>\<open>renderRows\<close>, as far as the table body goes. With no columns the table is replaced by a
  note. A fresh render starts an empty body; appending with no body on the page fails after
  the row counter has moved.
\<close>

definition renderRows :: "'r list \<Rightarrow> column list \<Rightarrow> bool \<Rightarrow> 'r session \<Rightarrow> error option \<times> 'r session" where
  "renderRows rows cols appendMode st =
     (if cols = [] then (None, st\<lparr>table := None\<rparr>)
      else
        let st1 = (if appendMode then st else st\<lparr>rowOffset := 0, table := Some []\<rparr>)
        in (case table st1 of
              None \<Rightarrow>
                (Some (TypeError ''Cannot read properties of null (reading 'insertAdjacentHTML')''),
                 st1\<lparr>rowOffset := rowOffset st1 + length rows\<rparr>)
            | Some shown \<Rightarrow>
                (None, st1\<lparr>rowOffset := rowOffset st1 + length rows, table := Some (shown @ rows)\<rparr>)))"

text \<open>\<^verbatim>\<open>currentSource.split('/').pop().split('?')[0]\<close>.\<close>

definition fileName :: "string \<Rightarrow> string" where
  "fileName s = takeWhile (\<lambda>c. c \<noteq> CHR ''?'') (rev (takeWhile (\<lambda>c. c \<noteq> CHR ''/'') (rev s)))"

definition showRemaining :: "nat \<Rightarrow> nat \<Rightarrow> 'r session \<Rightarrow> 'r session" where
  "showRemaining chunk filteredCount st =
     st\<lparr>moreBtnText := LoadNext chunk (int filteredCount - int (offset st)),
        moreBtnDisabled := (int filteredCount - int (offset st) \<le> 0)\<rparr>"

definition updateButtons :: "'r session \<Rightarrow> 'r session" where
  "updateButtons st = showRemaining CHUNK (totalRows st) (st\<lparr>buttonsHidden := False\<rparr>)"

subsection \<open>Transitions\<close>

text \<open>
  \<^verbatim>\<open>reloadData\<close> and \<^verbatim>\<open>loadMore\<close> are given in parts, one for each stretch of code that
  runs without interruption: what runs up to the first \<^verbatim>\<open>await\<close> (\<open>begin\<close>), the page query
  issued there (\<open>query\<close>, built from the session as it is then), what runs when its rows
  arrive (\<open>arrive\<close>), and, when a filter is active at that moment and the count query is
  awaited, what runs when the count arrives (\<open>onCount\<close>). Each part is applied to the
  session as it is at its moment: other handlers can run between two parts. A part that ends
  at an \<^verbatim>\<open>await\<close> hands on the local variables still needed and the pending answer of the
  query it has issued. \<open>onRows\<close> is the rest of a transition that nothing interrupts, from
  the arrival of the rows on, and the transition run alone is \<open>onRows\<close> after \<open>begin\<close> and
  \<open>query\<close>. The page size is a parameter \<open>chunk\<close>; the viewer uses \<^const>\<open>CHUNK\<close>.
\<close>

datatype 'r reload_pc = ReloadEnded | ReloadAwaitsCount "'r list" "error + nat"

text \<open>
  The end of \<^verbatim>\<open>reloadData\<close>, from \<^verbatim>\<open>renderRows\<close> on, with the local variables \<^verbatim>\<open>rows\<close>,
  \<^verbatim>\<open>hasFilters\<close> and \<^verbatim>\<open>filteredCount\<close>.
\<close>

definition reloadData_show :: "nat \<Rightarrow> 'r env \<Rightarrow> 'r list \<Rightarrow> bool \<Rightarrow> nat \<Rightarrow> 'r session \<Rightarrow> 'r session" where
  "reloadData_show chunk env rows filtered filteredCount st =
     (case renderRows rows (columns st) False st of
        (Some err, st2) \<Rightarrow> handleError env err st2
      | (None, st2) \<Rightarrow>
          (case currentSource st2 of
             None \<Rightarrow> handleError env (TypeError ''Cannot read properties of null (reading 'split')'') st2
           | Some src \<Rightarrow>
               showRemaining chunk filteredCount
                 (st2\<lparr>status := StatusText (Summary (fileName src) (totalRows st2) (length (columns st2))
                                   (if filtered then Some filteredCount else None)),
                     loading := False\<rparr>)))"

definition reloadData_arrive :: "nat \<Rightarrow> 'r env \<Rightarrow> error + 'r list \<Rightarrow> 'r session \<Rightarrow> 'r reload_pc \<times> 'r session" where
  "reloadData_arrive chunk env res st =
     (case res of
        Inl err \<Rightarrow> (ReloadEnded, handleError env err st)
      | Inr rows \<Rightarrow>
          let st1 = st\<lparr>offset := length rows\<rparr> in
          if hasFilters (filters st1)
          then (ReloadAwaitsCount rows
                  (getFilteredRowCount env (currentSource st1) (filters st1) (columnMeta st1)), st1)
          else (ReloadEnded, reloadData_show chunk env rows False (totalRows st1) st1))"

definition reloadData_onCount :: "nat \<Rightarrow> 'r env \<Rightarrow> 'r list \<Rightarrow> error + nat \<Rightarrow> 'r session \<Rightarrow> 'r session" where
  "reloadData_onCount chunk env rows res st =
     (case res of
        Inl err \<Rightarrow> handleError env err st
      | Inr filteredCount \<Rightarrow> reloadData_show chunk env rows True filteredCount st)"

definition reloadData_onRows :: "nat \<Rightarrow> 'r env \<Rightarrow> error + 'r list \<Rightarrow> 'r session \<Rightarrow> 'r session" where
  "reloadData_onRows chunk env res st =
     (case reloadData_arrive chunk env res st of
        (ReloadEnded, st1) \<Rightarrow> st1
      | (ReloadAwaitsCount rows cnt, st1) \<Rightarrow> reloadData_onCount chunk env rows cnt st1)"

definition reloadData_begin :: "'r session \<Rightarrow> 'r session" where
  "reloadData_begin st = st\<lparr>status := StatusText LoadingText, loading := True\<rparr>"

definition reloadData_query :: "nat \<Rightarrow> 'r env \<Rightarrow> 'r session \<Rightarrow> error + 'r list" where
  "reloadData_query chunk env st =
     getRows env (currentSource st) (columns st) chunk 0 (sortColumn st) (sortDirection st)
       (filters st) (columnMeta st)"

definition reloadDataBy :: "nat \<Rightarrow> 'r env \<Rightarrow> 'r session \<Rightarrow> 'r session" where
  "reloadDataBy chunk env st =
     reloadData_onRows chunk env (reloadData_query chunk env st) (reloadData_begin st)"

definition reloadData :: "'r env \<Rightarrow> 'r session \<Rightarrow> 'r session" where
  "reloadData env st = reloadDataBy CHUNK env st"

datatype more_pc = MoreEnded | MoreAwaitsCount "error + nat"

definition loadMore_arrive :: "nat \<Rightarrow> 'r env \<Rightarrow> error + 'r list \<Rightarrow> 'r session \<Rightarrow> more_pc \<times> 'r session" where
  "loadMore_arrive chunk env res st =
     (case res of
        Inl err \<Rightarrow> (MoreEnded, handleError env err st)
      | Inr rows \<Rightarrow>
          (case renderRows rows (columns st) True (st\<lparr>offset := offset st + length rows\<rparr>) of
             (Some err, st2) \<Rightarrow> (MoreEnded, handleError env err st2)
           | (None, st2) \<Rightarrow>
               if hasFilters (filters st2)
               then (MoreAwaitsCount
                       (getFilteredRowCount env (currentSource st2) (filters st2) (columnMeta st2)), st2)
               else (MoreEnded, showRemaining chunk (totalRows st2) st2)))"

definition loadMore_onCount :: "nat \<Rightarrow> 'r env \<Rightarrow> error + nat \<Rightarrow> 'r session \<Rightarrow> 'r session" where
  "loadMore_onCount chunk env res st =
     (case res of
        Inl err \<Rightarrow> handleError env err st
      | Inr filteredCount \<Rightarrow> showRemaining chunk filteredCount st)"

definition loadMore_onRows :: "nat \<Rightarrow> 'r env \<Rightarrow> error + 'r list \<Rightarrow> 'r session \<Rightarrow> 'r session" where
  "loadMore_onRows chunk env res st =
     (case loadMore_arrive chunk env res st of
        (MoreEnded, st1) \<Rightarrow> st1
      | (MoreAwaitsCount cnt, st1) \<Rightarrow> loadMore_onCount chunk env cnt st1)"

definition loadMore_begin :: "'r session \<Rightarrow> 'r session" where
  "loadMore_begin st = st\<lparr>moreBtnText := MoreLoading, moreBtnDisabled := True\<rparr>"

definition loadMore_query :: "nat \<Rightarrow> 'r env \<Rightarrow> 'r session \<Rightarrow> error + 'r list" where
  "loadMore_query chunk env st =
     getRows env (currentSource st) (columns st) chunk (offset st) (sortColumn st) (sortDirection st)
       (filters st) (columnMeta st)"

definition loadMoreBy :: "nat \<Rightarrow> 'r env \<Rightarrow> 'r session \<Rightarrow> 'r session" where
  "loadMoreBy chunk env st =
     loadMore_onRows chunk env (loadMore_query chunk env st) (loadMore_begin st)"

definition loadMore :: "'r env \<Rightarrow> 'r session \<Rightarrow> 'r session" where
  "loadMore env st = loadMoreBy CHUNK env st"

text \<open>
  \<^verbatim>\<open>handleSort\<close>: the sort state and the offset are set, then the data is reloaded. The
  handlers are given run alone: \<open>setSort\<close> is what a click does at once, the reload after
  it is \<^verbatim>\<open>reloadData\<close> with nothing in between.
\<close>

definition setSort :: "string \<Rightarrow> 'r session \<Rightarrow> 'r session" where
  "setSort colName st =
     (if sortColumn st = Some colName
      then st\<lparr>sortDirection := (if sortDirection st = Some ASC then Some DESC else Some ASC), offset := 0\<rparr>
      else st\<lparr>sortColumn := Some colName, sortDirection := Some ASC, offset := 0\<rparr>)"

definition handleSort :: "'r env \<Rightarrow> string \<Rightarrow> 'r session \<Rightarrow> 'r session" where
  "handleSort env colName st = reloadData env (setSort colName st)"

text \<open>
  Assignment to a property of the \<^verbatim>\<open>filters\<close> object: a key that is there keeps its place;
  a new key that is an array index goes among the index keys, in ascending order, which
  \<^verbatim>\<open>Object.entries\<close> lists first; any other new key goes last. (The key \<^verbatim>\<open>__proto__\<close>, which
  is no ordinary property, is outside the model.)
\<close>

definition isArrayIndex :: "string \<Rightarrow> bool" where
  "isArrayIndex k =
     (k \<noteq> [] \<and> list_all isDigit k \<and> (k = ''0'' \<or> hd k \<noteq> CHR ''0'') \<and> digitsValue k < 2 ^ 32 - 1)"

fun insertIndexKey :: "string \<Rightarrow> filter_value \<Rightarrow> filter_map \<Rightarrow> filter_map" where
  "insertIndexKey k v [] = [(k, v)]"
| "insertIndexKey k v (e # es) =
     (if isArrayIndex (fst e) \<and> digitsValue (fst e) < digitsValue k
      then e # insertIndexKey k v es
      else (k, v) # e # es)"

definition setKey :: "filter_map \<Rightarrow> string \<Rightarrow> filter_value \<Rightarrow> filter_map" where
  "setKey fm k v =
     (if k \<in> set (map fst fm) then map (\<lambda>e. if fst e = k then (k, v) else e) fm
      else if isArrayIndex k then insertIndexKey k v fm
      else fm @ [(k, v)])"

text \<open>\<^verbatim>\<open>handleFilter\<close> and \<^verbatim>\<open>handleRangeFilter\<close>; \<open>rangeType\<close> is the \<^verbatim>\<open>data-range\<close> of the input.\<close>

definition handleFilter :: "'r env \<Rightarrow> string \<Rightarrow> string \<Rightarrow> 'r session \<Rightarrow> 'r session" where
  "handleFilter env colName v st =
     reloadData env (st\<lparr>filters := setKey (filters st) colName (Scalar v), offset := 0\<rparr>)"

datatype range_type = RangeMin | RangeMax

definition setRange :: "filter_map \<Rightarrow> string \<Rightarrow> range_type \<Rightarrow> string \<Rightarrow> filter_map" where
  "setRange fm colName rangeType v =
     (let cur = (case map_of fm colName of Some (MinMax mn mx) \<Rightarrow> (mn, mx) | _ \<Rightarrow> ([], []))
      in setKey fm colName
           (case rangeType of RangeMin \<Rightarrow> MinMax v (snd cur) | RangeMax \<Rightarrow> MinMax (fst cur) v))"

definition handleRangeFilter :: "'r env \<Rightarrow> string \<Rightarrow> range_type \<Rightarrow> string \<Rightarrow> 'r session \<Rightarrow> 'r session" where
  "handleRangeFilter env colName rangeType v st =
     reloadData env (st\<lparr>filters := setRange (filters st) colName rangeType v, offset := 0\<rparr>)"

text \<open>
  The batches of \<^verbatim>\<open>loadAll\<close>, run alone. The loop ends when the offset has reached the
  filtered count, when a batch comes back empty, or with the first error.
\<close>

lemma renderRows_offset: "renderRows rows cols appendMode st = (r, st') \<Longrightarrow> offset st' = offset st"
  by (auto simp: renderRows_def Let_def split: if_splits option.splits)

function loadAllLoop :: "'r env \<Rightarrow> nat \<Rightarrow> 'r session \<Rightarrow> error option \<times> 'r session" where
  "loadAllLoop env filteredCount st =
     (if offset st < filteredCount then
        (case getRows env (currentSource st) (columns st) BATCH (offset st) (sortColumn st)
                (sortDirection st) (filters st) (columnMeta st) of
           Inl err \<Rightarrow> (Some err, st)
         | Inr rows \<Rightarrow>
             if rows = [] then (None, st)
             else
               (case renderRows rows (columns st) True (st\<lparr>offset := offset st + length rows\<rparr>) of
                  (Some err, st2) \<Rightarrow> (Some err, st2)
                | (None, st2) \<Rightarrow>
                    loadAllLoop env filteredCount (st2\<lparr>loadAllText := Progress (offset st2) filteredCount\<rparr>)))
      else (None, st))"
  by pat_completeness auto
termination
proof (relation "measure (\<lambda>(env, filteredCount, st). filteredCount - offset st)")
  show "wf (measure (\<lambda>(env :: 'r env, filteredCount, st :: 'r session). filteredCount - offset st))"
    by simp
next
  fix env :: "'r env" and filteredCount :: nat and st :: "'r session" and rows x y st2
  assume lt: "offset st < filteredCount" and ne: "rows \<noteq> []"
    and r: "(x, y) = renderRows rows (columns st) True (st\<lparr>offset := offset st + length rows\<rparr>)"
    and x: "x = None"
  from r have "offset y = offset st + length rows"
    using renderRows_offset [of rows "columns st" True "st\<lparr>offset := offset st + length rows\<rparr>" x y]
    by simp
  with lt ne show "((env, filteredCount, y\<lparr>loadAllText := Progress (offset y) filteredCount\<rparr>), env, filteredCount, st)
        \<in> measure (\<lambda>(env, filteredCount, st). filteredCount - offset st)"
    by (cases rows) auto
qed

declare loadAllLoop.simps [simp del]

text \<open>
  \<^verbatim>\<open>loadAll\<close>; \<open>confirmed\<close> is the answer to the confirmation dialog, asked only above the
  warning threshold. The count query runs outside the \<^verbatim>\<open>try\<close>: when it fails the page is
  left as it is.
\<close>

definition loadAll :: "'r env \<Rightarrow> bool \<Rightarrow> 'r session \<Rightarrow> 'r session" where
  "loadAll env confirmed st =
     (case currentFilteredCount env st of
        Inl err \<Rightarrow> st
      | Inr filteredCount \<Rightarrow>
          if int filteredCount - int (offset st) \<le> 0 then st
          else if int filteredCount - int (offset st) > int WARN_THRESHOLD \<and> \<not> confirmed then st
          else
            (case loadAllLoop env filteredCount
                    (st\<lparr>loadAllDisabled := True, moreBtnDisabled := True, loadAllText := LoadingAll\<rparr>) of
               (Some err, st2) \<Rightarrow> handleError env err st2
             | (None, st2) \<Rightarrow>
                 st2\<lparr>loadAllText := AllLoaded, moreBtnText := AllRowsLoaded, moreBtnDisabled := True,
                     loadAllDisabled := True\<rparr>))"

subsection \<open>Loading a file\<close>

definition MAX_COLS :: nat where "MAX_COLS = 100"
definition CATEGORICAL_THRESHOLD :: nat where "CATEGORICAL_THRESHOLD = 20"

text \<open>The type tests of \<^verbatim>\<open>getColumnMeta\<close>: a prefix of the declared type, in any case.\<close>

definition typeStartsWith :: "string \<Rightarrow> string \<Rightarrow> bool" where
  "typeStartsWith t p = (map upperAscii (take (length p) t) = p)"

definition isNumericType :: "string \<Rightarrow> bool" where
  "isNumericType t =
     list_ex (typeStartsWith t)
       [''INTEGER'', ''BIGINT'', ''DOUBLE'', ''FLOAT'', ''DECIMAL'', ''NUMERIC'', ''REAL'',
        ''SMALLINT'', ''TINYINT'']"

definition isDateType :: "string \<Rightarrow> bool" where
  "isDateType t = list_ex (typeStartsWith t) [''DATE'', ''TIMESTAMP'', ''TIME'']"

text \<open>
  \<^verbatim>\<open>getColumnMeta\<close> for one column. A column that is neither numeric nor a date is probed for
  its distinct values; any failure of the probe makes it a text column. The list of values of
  a select column serves the rendering only and is not kept here.
\<close>

definition columnMetaOf :: "'r env \<Rightarrow> string \<Rightarrow> column \<Rightarrow> col_meta" where
  "columnMetaOf env source col =
     (if isNumericType (snd col) then \<lparr>filterType = Some ''range'', type = Some (snd col)\<rparr>
      else if \<not> isDateType (snd col) then
        (case countQuery env
                (''SELECT COUNT(DISTINCT '' @ escapeColumnName (fst col) @ '') as cnt FROM '' @
                 readParquet source) of
           Inl err \<Rightarrow> \<lparr>filterType = Some ''text'', type = Some (snd col)\<rparr>
         | Inr distinctCount \<Rightarrow>
             if distinctCount \<le> CATEGORICAL_THRESHOLD \<and> distinctCount > 0 then
               (case rowsQuery env
                       (''SELECT DISTINCT '' @ escapeColumnName (fst col) @ '' as val FROM '' @
                        readParquet source @ '' ORDER BY val LIMIT '' @ showNat CATEGORICAL_THRESHOLD) of
                  Inl err \<Rightarrow> \<lparr>filterType = Some ''text'', type = Some (snd col)\<rparr>
                | Inr vals \<Rightarrow> \<lparr>filterType = Some ''select'', type = Some (snd col)\<rparr>)
             else \<lparr>filterType = Some ''text'', type = Some (snd col)\<rparr>)
      else \<lparr>filterType = Some ''date'', type = Some (snd col)\<rparr>)"

definition getColumnMeta :: "'r env \<Rightarrow> string \<Rightarrow> column list \<Rightarrow> col_meta_map" where
  "getColumnMeta env source cols =
     foldl (\<lambda>meta col. meta(fst col \<mapsto> columnMetaOf env source col)) Map.empty cols"

text \<open>
  \<^verbatim>\<open>loadParquet\<close>, in parts as well. It sets the source, clears the sort and the filters,
  reads the schema and the row count, classifies the columns, asks for the size of a remote
  file and fetches the first page, waiting at each of these calls. \<open>load_pc\<close> names the call
  a load is waiting at, with the local variables that are still needed and the pending answer
  of the call, or says that the load has settled, fulfilled (\<open>None\<close>) or rejected with an
  error. \<open>loadParquet_begin\<close> is what runs up to the first \<^verbatim>\<open>await\<close>, and
  \<open>loadParquet_resume\<close> what runs from the arrival of the awaited answer up to the next
  \<^verbatim>\<open>await\<close> or to the end. The URL bar, the schema panel, the tooltip and the download
  button are not part of the model.
\<close>

datatype 'r load_pc =
    AwaitsSchema "error + column list"
  | AwaitsRowCount "column list" "error + nat"
  | AwaitsMeta "column list" col_meta_map
  | AwaitsSize string nat nat "string option"
  | AwaitsRows string nat nat "string option" "error + 'r list"
  | Settled "error option"

fun isSettled :: "'r load_pc \<Rightarrow> bool" where
  "isSettled (Settled r) = True"
| "isSettled _ = False"

fun outcome :: "'r load_pc \<Rightarrow> error option" where
  "outcome (Settled r) = r"
| "outcome _ = None"

definition loadParquet_begin :: "'r env \<Rightarrow> string \<Rightarrow> 'r session \<Rightarrow> 'r load_pc \<times> 'r session" where
  "loadParquet_begin env source st =
     (AwaitsSchema (schemaQuery env (''DESCRIBE SELECT * FROM '' @ readParquet source)),
      st\<lparr>currentSource := Some source, sortColumn := None, sortDirection := None,
         filters := [], status := StatusText ReadingSchema, loading := True\<rparr>)"

text \<open>
  The status line is composed before the size of the file is asked for; \<open>shownName\<close>,
  \<open>n\<close> and \<open>ncols\<close> are its parts. With them and the size the first page is asked for.
\<close>

definition loadParquet_firstRows ::
  "'r env \<Rightarrow> string \<Rightarrow> string \<Rightarrow> nat \<Rightarrow> nat \<Rightarrow> string option \<Rightarrow> 'r session \<Rightarrow> 'r load_pc \<times> 'r session" where
  "loadParquet_firstRows env source shownName n ncols fileSizeStr st =
     (AwaitsRows shownName n ncols fileSizeStr
        (getRows env (Some source) (columns st) CHUNK 0 (sortColumn st) (sortDirection st)
           (filters st) (columnMeta st)),
      st\<lparr>status := StatusText (LoadingFirstRows shownName n ncols fileSizeStr)\<rparr>)"

definition loadParquet_resume ::
  "'r env \<Rightarrow> string \<Rightarrow> bool \<Rightarrow> 'r load_pc \<Rightarrow> 'r session \<Rightarrow> 'r load_pc \<times> 'r session" where
  "loadParquet_resume env source isUrl pc st =
     (case pc of
        AwaitsSchema res \<Rightarrow>
          (case res of
             Inl err \<Rightarrow> (Settled (Some err), st)
           | Inr allCols \<Rightarrow>
               let st2 = st\<lparr>columns := take MAX_COLS allCols\<rparr> in
               if allCols = [] then
                 (Settled None, st2\<lparr>status := StatusText NoColumns, loading := False\<rparr>)
               else
                 (AwaitsRowCount allCols
                    (countQuery env (''SELECT COUNT(*) as cnt FROM '' @ readParquet source)),
                  st2\<lparr>status := StatusText CountingRows\<rparr>))
      | AwaitsRowCount allCols res \<Rightarrow>
          (case res of
             Inl err \<Rightarrow> (Settled (Some err), st)
           | Inr n \<Rightarrow>
               let st3 = st\<lparr>totalRows := n\<rparr> in
               if n = 0 then
                 (case renderRows [] (columns st3) False
                         (st3\<lparr>status := StatusText
                                 (EmptyFile (if isUrl then fileName source else source) (length allCols)),
                              loading := False\<rparr>) of
                    (r, st4) \<Rightarrow> (Settled r, st4))
               else
                 (AwaitsMeta allCols (getColumnMeta env source (columns st3)),
                  st3\<lparr>status := StatusText AnalyzingColumns\<rparr>))
      | AwaitsMeta allCols meta \<Rightarrow>
          let st4 = st\<lparr>columnMeta := meta\<rparr>;
              shownName = (if isUrl then fileName source else source)
          in if isUrl then
               (AwaitsSize shownName (totalRows st4) (length allCols) (fetchSize env source), st4)
             else loadParquet_firstRows env source shownName (totalRows st4) (length allCols) None st4
      | AwaitsSize shownName n ncols fileSizeStr \<Rightarrow>
          loadParquet_firstRows env source shownName n ncols fileSizeStr st
      | AwaitsRows shownName n ncols fileSizeStr res \<Rightarrow>
          (case res of
             Inl err \<Rightarrow> (Settled (Some err), st)
           | Inr rows \<Rightarrow>
               (case renderRows rows (columns st) False (st\<lparr>offset := length rows\<rparr>) of
                  (Some err, st6) \<Rightarrow> (Settled (Some err), st6)
                | (None, st6) \<Rightarrow>
                    (Settled None,
                     updateButtons
                       (st6\<lparr>status := StatusText (Loaded shownName n ncols fileSizeStr),
                            loading := False\<rparr>))))
      | Settled r \<Rightarrow> (Settled r, st))"

text \<open>
  The load that nothing interrupts: it is resumed at each call until it has settled. A load
  passes at most five calls; \<open>awaitsLeft\<close> bounds the calls still to come.
\<close>

fun awaitsLeft :: "'r load_pc \<Rightarrow> nat" where
  "awaitsLeft (AwaitsSchema res) = 5"
| "awaitsLeft (AwaitsRowCount allCols res) = 4"
| "awaitsLeft (AwaitsMeta allCols meta) = 3"
| "awaitsLeft (AwaitsSize shownName n ncols fileSizeStr) = 2"
| "awaitsLeft (AwaitsRows shownName n ncols fileSizeStr res) = 1"
| "awaitsLeft (Settled r) = 0"

lemma loadParquet_resume_awaitsLeft:
  "\<not> isSettled pc \<Longrightarrow> loadParquet_resume env source isUrl pc st = (pc', st') \<Longrightarrow>
     awaitsLeft pc' < awaitsLeft pc"
  by (cases pc)
    (auto simp: loadParquet_resume_def loadParquet_firstRows_def Let_def
      split: sum.splits if_splits prod.splits option.splits)

function loadParquet_run ::
  "'r env \<Rightarrow> string \<Rightarrow> bool \<Rightarrow> 'r load_pc \<Rightarrow> 'r session \<Rightarrow> error option \<times> 'r session" where
  "loadParquet_run env source isUrl pc st =
     (if isSettled pc then (outcome pc, st)
      else (case loadParquet_resume env source isUrl pc st of
              (pc', st') \<Rightarrow> loadParquet_run env source isUrl pc' st'))"
  by pat_completeness auto
termination
proof (relation "measure (\<lambda>(env, source, isUrl, pc, st). awaitsLeft pc)")
  show "wf (measure (\<lambda>(env :: 'r env, source :: string, isUrl :: bool, pc :: 'r load_pc,
                        st :: 'r session). awaitsLeft pc))"
    by simp
next
  fix env :: "'r env" and source :: string and isUrl :: bool and pc :: "'r load_pc"
    and st :: "'r session" and x y
  assume "\<not> isSettled pc" and "(x, y) = loadParquet_resume env source isUrl pc st"
  then have "awaitsLeft x < awaitsLeft pc"
    using loadParquet_resume_awaitsLeft [of pc env source isUrl st x y] by simp
  then show "((env, source, isUrl, x, y), env, source, isUrl, pc, st)
        \<in> measure (\<lambda>(env, source, isUrl, pc, st). awaitsLeft pc)"
    by simp
qed

declare loadParquet_run.simps [simp del]

definition loadParquet :: "'r env \<Rightarrow> string \<Rightarrow> bool \<Rightarrow> 'r session \<Rightarrow> error option \<times> 'r session" where
  "loadParquet env source isUrl st =
     (case loadParquet_begin env source st of
        (pc, st1) \<Rightarrow> loadParquet_run env source isUrl pc st1)"

text \<open>The state of a load after \<open>k\<close> of its calls have been answered.\<close>

fun loadParquet_steps ::
  "'r env \<Rightarrow> string \<Rightarrow> bool \<Rightarrow> nat \<Rightarrow> 'r load_pc \<times> 'r session \<Rightarrow> 'r load_pc \<times> 'r session" where
  "loadParquet_steps env source isUrl 0 ls = ls"
| "loadParquet_steps env source isUrl (Suc k) ls =
     loadParquet_steps env source isUrl k (loadParquet_resume env source isUrl (fst ls) (snd ls))"

subsection \<open>Opening a URL\<close>

text \<open>
  The page opened with a \<^verbatim>\<open>url\<close> parameter starts a timer of \<open>TIMEOUT_MS\<close> milliseconds
  and then the load of the URL, and waits for the first of the two to settle
  (\<^verbatim>\<open>Promise.race\<close>); a rejection that ends the wait is handed to \<^verbatim>\<open>handleError\<close>. The
  timer is never cleared and the load is never cancelled: each goes on after the wait has
  ended, and what it settles with then is ignored. \<open>race_state\<close> is the state of such a page:
  where the load is, whether the wait has ended, and the session. Two events move it: an
  awaited call of the load is answered and the load resumes, or the timer fires. (The status
  written just before the load starts is overwritten by the load at once.)
\<close>

definition TIMEOUT_MS :: nat where "TIMEOUT_MS = 30000"

definition timeoutError :: error where
  "timeoutError = Error ''Request timed out - the server took too long to respond''"

datatype event = LoadResumes | TimerFires

record 'r race_state =
  load :: "'r load_pc"
  raceSettled :: bool
  page :: "'r session"

definition startRace :: "'r env \<Rightarrow> string \<Rightarrow> 'r session \<Rightarrow> 'r race_state" where
  "startRace env url st =
     (case loadParquet_begin env url st of
        (pc, st1) \<Rightarrow> \<lparr>load = pc, raceSettled = False, page = st1\<rparr>)"

definition raceStep :: "'r env \<Rightarrow> string \<Rightarrow> event \<Rightarrow> 'r race_state \<Rightarrow> 'r race_state" where
  "raceStep env url ev op =
     (case ev of
        TimerFires \<Rightarrow>
          if raceSettled op then op
          else op\<lparr>raceSettled := True, page := handleError env timeoutError (page op)\<rparr>
      | LoadResumes \<Rightarrow>
          if isSettled (load op) then op
          else
            (case loadParquet_resume env url True (load op) (page op) of
               (pc', st') \<Rightarrow>
                 \<lparr>load = pc',
                  raceSettled = (raceSettled op \<or> isSettled pc'),
                  page = (case outcome pc' of
                            Some err \<Rightarrow> if raceSettled op then st' else handleError env err st'
                          | None \<Rightarrow> st')\<rparr>))"

fun raceRun :: "'r env \<Rightarrow> string \<Rightarrow> event list \<Rightarrow> 'r race_state \<Rightarrow> 'r race_state" where
  "raceRun env url [] op = op"
| "raceRun env url (ev # evs) op = raceRun env url evs (raceStep env url ev op)"

text \<open>
  The order of the events follows from the time each successive call of the load takes
  (\<open>None\<close>: it is never answered; so are the calls beyond the list). \<open>settledInTime\<close>
  counts the calls answered before the timer fires, \<open>elapsed\<close> being the time gone by;
  a call answered at the very moment the timer fires counts as answered after it.
  \<open>settledLate\<close> counts the calls answered after the timer has fired.
\<close>

fun settledInTime :: "nat \<Rightarrow> nat option list \<Rightarrow> nat" where
  "settledInTime elapsed [] = 0"
| "settledInTime elapsed (None # ds) = 0"
| "settledInTime elapsed (Some d # ds) =
     (if elapsed + d < TIMEOUT_MS then Suc (settledInTime (elapsed + d) ds) else 0)"

definition settledLate :: "nat option list \<Rightarrow> nat" where
  "settledLate ds = length (takeWhile (\<lambda>d. d \<noteq> None) (drop (settledInTime 0 ds) ds))"

definition scheduleOf :: "nat option list \<Rightarrow> event list" where
  "scheduleOf ds =
     replicate (settledInTime 0 ds) LoadResumes @ TimerFires # replicate (settledLate ds) LoadResumes"

definition openUrl :: "'r env \<Rightarrow> string \<Rightarrow> nat option list \<Rightarrow> 'r session \<Rightarrow> 'r race_state" where
  "openUrl env url ds st = raceRun env url (scheduleOf ds) (startRace env url st)"

text \<open>The module-level variables as the script initialises them, on a page that shows nothing yet.\<close>

definition initialSession :: "'r session" where
  "initialSession =
     \<lparr>currentSource = None, columns = [], offset = 0, totalRows = 0, rowOffset = 0,
      sortColumn = None, sortDirection = None, filters = [], columnMeta = Map.empty,
      status = StatusText Idle, loading = False, table = None, buttonsHidden = True,
      moreBtnText = MoreInitial, moreBtnDisabled = False,
      loadAllText = LoadAllInitial, loadAllDisabled = False\<rparr>"

section \<open>Paging over a fixed result\<close>

text \<open>
  What the paging claims ask of the engine: for the query parameters of the session (source,
  columns, sort and filters) the rows selected form one list \<open>rowsAll\<close>, every page query
  is answered by the rows of that list from the offset on, at most \<open>limit\<close> of them, and
  the filtered count is the length of the list.
\<close>

definition servesFrom :: "'r env \<Rightarrow> 'r session \<Rightarrow> 'r list \<Rightarrow> bool" where
  "servesFrom env st rowsAll =
     ((\<forall>limit off.
         getRows env (currentSource st) (columns st) limit off (sortColumn st) (sortDirection st)
           (filters st) (columnMeta st) = Inr (take limit (drop off rowsAll))) \<and>
      currentFilteredCount env st = Inr (length rowsAll))"

text \<open>
  An engine of that kind, for concrete runs: it reads the two numbers that end the text of a
  page query and answers from a fixed list.
\<close>

definition pagingEngine :: "'r list \<Rightarrow> string \<Rightarrow> error + 'r list" where
  "pagingEngine rowsAll sql =
     (let r = rev sql;
          off = digitsValue (rev (takeWhile isDigit r));
          limit = digitsValue (rev (takeWhile isDigit (drop 8 (dropWhile isDigit r))))
      in Inr (take limit (drop off rowsAll)))"

text \<open>
  Concrete pages for the runs below: an environment whose engine answers every query with
  nothing, one that pages over a fixed list, and a session with a source and columns as a
  load leaves them.
\<close>

definition quietEnv :: "'r env" where
  "quietEnv =
     \<lparr>numberFormat = \<lambda>q. [], fileUrl = None, rowsQuery = \<lambda>sql. Inr [],
      countQuery = \<lambda>sql. Inr 0, schemaQuery = \<lambda>sql. Inr [], fetchSize = \<lambda>url. None\<rparr>"

definition pagedEnv :: "'r list \<Rightarrow> 'r env" where
  "pagedEnv rowsAll =
     quietEnv\<lparr>rowsQuery := pagingEngine rowsAll, countQuery := \<lambda>sql. Inr (length rowsAll)\<rparr>"

definition openedSession :: "string \<Rightarrow> column list \<Rightarrow> nat \<Rightarrow> 'r session" where
  "openedSession src cols n =
     initialSession\<lparr>currentSource := Some src, columns := cols, totalRows := n, table := Some []\<rparr>"

text \<open>
  A remote file for the runs of a page opened with a URL: one column and three rows; and the
  same file behind an engine that fails the count query.
\<close>

definition remoteUrl :: string where
  "remoteUrl = ''https://example.com/data.parquet''"

definition remoteEnv :: "nat env" where
  "remoteEnv =
     (pagedEnv [1, 2, 3])\<lparr>fileUrl := Some remoteUrl, schemaQuery := \<lambda>sql. Inr [(''id'', ''INTEGER'')]\<rparr>"

definition failingEnv :: "nat env" where
  "failingEnv = remoteEnv\<lparr>countQuery := \<lambda>sql. Inl (Error ''IO Error: connection reset'')\<rparr>"

section \<open>Two sort clicks in a row\<close>

text \<open>
  A concrete page for the runs with overlapping transitions: a file with the columns \<open>A\<close>
  and \<open>B\<close> and three rows, and an engine whose answer depends on the sort column asked for.
  \<open>overlapSecondClick\<close> is the session after a click on \<open>A\<close> and then one on \<open>B\<close>, each
  having issued its page query, before any rows have arrived.
\<close>

definition overlapEngine :: "nat env" where
  "overlapEngine =
     quietEnv\<lparr>rowsQuery := (\<lambda>sql. if strIncludes sql (''ORDER BY '' @ [DQ] @ ''A'' @ [DQ])
                                  then Inr [1, 2, 3] else Inr [3, 2, 1]),
              countQuery := \<lambda>sql. Inr 3\<rparr>"

definition overlapStart :: "nat session" where
  "overlapStart = openedSession ''data.parquet'' [(''A'', ''INTEGER''), (''B'', ''INTEGER'')] 3"

definition overlapSecondClick :: "nat session" where
  "overlapSecondClick =
     reloadData_begin (setSort ''B'' (reloadData_begin (setSort ''A'' overlapStart)))"

section \<open>How the engine reads the text clause\<close>




section \<open>Properties of the filter-clause builder\<close>

lemma showNat_small: "n < 10 \<Longrightarrow> showNat n = [''0123456789'' ! n]"
  by (simp add: showNat.simps)

lemma showNat_big: "10 \<le> n \<Longrightarrow> showNat n = showNat (n div 10) @ [''0123456789'' ! (n mod 10)]"
  by (subst showNat.simps) simp

lemmas eval_strings = replaceAll_def escapeSource_def escapeLikePattern_def escapeColumnName_def
  isWhiteSpace_def trimStart_def trim_def isDigit_def

lemmas eval_numbers = parseFloat_def strUnsignedDecimalLiteral_def decimalValue_def exponentPart_def
  signedInteger_def digitsValue_def isNaN_def numberToString_def showInt_def showNat_small showNat_big

lemmas eval_clauses = buildFilterClauses_def clauseOf_def metaOf_def rangeParts_def atLeastPart_def
  atMostPart_def dateParts_def lowerBound_def exclusiveUpper_def inclusiveUpper_def wrapParts_def
  selectClause_def textClause_def isTimestamp_def upperAscii_def appendClauses_def

lemma mapE_append:
  "mapE f (xs @ ys) =
     (case mapE f xs of
        Inl err \<Rightarrow> Inl err
      | Inr a \<Rightarrow> (case mapE f ys of Inl err \<Rightarrow> Inl err | Inr b \<Rightarrow> Inr (a @ b)))"
  by (induction xs) (auto split: sum.splits)

lemma filterBoolean_append: "filterBoolean (a @ b) = filterBoolean a @ filterBoolean b"
  by (induction a rule: filterBoolean.induct) auto

lemma buildFilterClauses_append:
  "buildFilterClauses fmt (xs @ ys) colMeta =
     appendClauses (buildFilterClauses fmt xs colMeta) (buildFilterClauses fmt ys colMeta)"
  by (simp add: buildFilterClauses_def appendClauses_def mapE_append filterBoolean_append
      split: sum.splits)

lemma buildFilterClauses_single:
  "buildFilterClauses fmt [e] colMeta =
     (if keepEntry e then
        (case clauseOf fmt colMeta e of Inl err \<Rightarrow> Inl err | Inr c \<Rightarrow> Inr (filterBoolean [c]))
      else Inr [])"
  by (simp add: buildFilterClauses_def split: sum.splits)

lemma buildFilterClauses_entry:
  "buildFilterClauses fmt (xs @ e # ys) colMeta =
     appendClauses (buildFilterClauses fmt xs colMeta)
       (appendClauses (buildFilterClauses fmt [e] colMeta) (buildFilterClauses fmt ys colMeta))"
proof -
  have "xs @ e # ys = xs @ ([e] @ ys)" by simp
  then show ?thesis by (simp only: buildFilterClauses_append)
qed

lemma buildFilterClauses_Nil: "buildFilterClauses fmt [] colMeta = Inr []"
  by (simp add: buildFilterClauses_def)

section \<open>The pattern of the text clause\<close>




















lemma appendClauses_Nil: "appendClauses (Inr []) r = r"
  by (simp add: appendClauses_def split: sum.splits)

lemma parseFloat_empty: "parseFloat [] = NaN"
  by (simp add: parseFloat_def trimStart_def)

lemma inclusive_not_exclusive: "exclusiveUpper col mx \<noteq> inclusiveUpper col mx"
  by (simp add: exclusiveUpper_def inclusiveUpper_def)

lemma inclusive_not_lower: "lowerBound col mn \<noteq> inclusiveUpper col mx"
  by (simp add: lowerBound_def inclusiveUpper_def)

lemma matchesDate_nonempty: "matchesDate s \<Longrightarrow> s \<noteq> []"
  by auto

text \<open>
  C2. A \<^verbatim>\<open>date\<close> filter whose \<^verbatim>\<open>max\<close> matches the strict pattern contributes one
  parenthesised clause whose last comparison is the exclusive bound one day past \<^verbatim>\<open>max\<close> when
  the declared type starts with \<^verbatim>\<open>TIMESTAMP\<close> (in any case), and the inclusive bound on
  \<^verbatim>\<open>max\<close> otherwise; for a timestamp column the inclusive comparison is not among the parts.
\<close>

theorem date_upper_bound:
  assumes "filterType (metaOf colMeta col) = Some ''date''" and "matchesDate mx"
  shows "buildFilterClauses fmt (xs @ (col, MinMax mn mx) # ys) colMeta =
           appendClauses (buildFilterClauses fmt xs colMeta)
             (appendClauses
               (Inr [''('' @
                     join '' AND ''
                       ((if matchesDate mn then [escapeColumnName col @ '' >= '' @ [SQ] @ mn @ [SQ]] else []) @
                        [if isTimestamp (type (metaOf colMeta col))
                         then escapeColumnName col @ '' < '' @ [SQ] @ mx @ [SQ] @ ''::DATE + INTERVAL '' @ [SQ] @ ''1 day'' @ [SQ]
                         else escapeColumnName col @ '' <= '' @ [SQ] @ mx @ [SQ]]) @
                     '')''])
               (buildFilterClauses fmt ys colMeta)) \<and>
         (isTimestamp (type (metaOf colMeta col)) \<longrightarrow>
            escapeColumnName col @ '' <= '' @ [SQ] @ mx @ [SQ]
              \<notin> set (dateParts col (MinMax mn mx) (metaOf colMeta col)))"
proof -
  let ?meta = "metaOf colMeta col"
  let ?parts = "dateParts col (MinMax mn mx) ?meta"
  from assms(2) have mx: "mx \<noteq> []" by (rule matchesDate_nonempty)
  then have keep: "keepEntry (col, MinMax mn mx)" by simp
  have parts: "?parts =
      (if matchesDate mn then [lowerBound col mn] else []) @
      [if isTimestamp (type ?meta) then exclusiveUpper col mx else inclusiveUpper col mx]"
    using assms(2) mx by (auto simp: dateParts_def dest: matchesDate_nonempty)
  then have ne: "?parts \<noteq> []" by simp
  from assms(1) have "clauseOf fmt colMeta (col, MinMax mn mx) = Inr (wrapParts ?parts)"
    by (simp add: clauseOf_def)
  with keep ne have "buildFilterClauses fmt [(col, MinMax mn mx)] colMeta =
      Inr [''('' @ join '' AND '' ?parts @ '')'']"
    by (simp add: buildFilterClauses_single wrapParts_def)
  then have first: "buildFilterClauses fmt (xs @ (col, MinMax mn mx) # ys) colMeta =
      appendClauses (buildFilterClauses fmt xs colMeta)
        (appendClauses (Inr [''('' @ join '' AND '' ?parts @ '')'']) (buildFilterClauses fmt ys colMeta))"
    by (simp only: buildFilterClauses_entry)
  have second: "isTimestamp (type ?meta) \<Longrightarrow> inclusiveUpper col mx \<notin> set ?parts"
    using inclusive_not_exclusive [of col mx] inclusive_not_lower [of col mn mx]
    by (auto simp: parts)
  show ?thesis
    using first second
    by (simp add: parts lowerBound_def exclusiveUpper_def inclusiveUpper_def)
qed

theorem date_upper_bound_witness:
  "matchesDate ''2024-01-31'' \<and>
   isTimestamp (Some ''TIMESTAMP'') \<and>
   buildFilterClauses (\<lambda>q. []) [(''created'', MinMax ''2024-01-01'' ''2024-01-31'')]
       [''created'' \<mapsto> \<lparr>filterType = Some ''date'', type = Some ''TIMESTAMP''\<rparr>] =
     Inr [''('' @ [DQ] @ ''created'' @ [DQ] @ '' >= '2024-01-01' AND '' @ [DQ] @ ''created'' @ [DQ] @
          '' < '2024-01-31'::DATE + INTERVAL '1 day'' @ [SQ] @ '')''] \<and>
   [DQ] @ ''created'' @ [DQ] @ '' <= '2024-01-31'' @ [SQ]
     \<notin> set (dateParts ''created'' (MinMax ''2024-01-01'' ''2024-01-31'')
              \<lparr>filterType = Some ''date'', type = Some ''TIMESTAMP''\<rparr>) \<and>
   \<not> isTimestamp (Some ''DATE'') \<and>
   buildFilterClauses (\<lambda>q. []) [(''created'', MinMax ''2024-01-01'' ''2024-01-31'')]
       [''created'' \<mapsto> \<lparr>filterType = Some ''date'', type = Some ''DATE''\<rparr>] =
     Inr [''('' @ [DQ] @ ''created'' @ [DQ] @ '' >= '2024-01-01' AND '' @ [DQ] @ ''created'' @ [DQ] @
          '' <= '2024-01-31'' @ [SQ] @ '')'']"
  using date_upper_bound [where colMeta = "[''created'' \<mapsto> \<lparr>filterType = Some ''date'', type = Some ''TIMESTAMP''\<rparr>]"
      and col = "''created''" and mn = "''2024-01-01''" and mx = "''2024-01-31''" and fmt = "\<lambda>q. []"
      and xs = "[]" and ys = "[]"]
    date_upper_bound [where colMeta = "[''created'' \<mapsto> \<lparr>filterType = Some ''date'', type = Some ''DATE''\<rparr>]"
      and col = "''created''" and mn = "''2024-01-01''" and mx = "''2024-01-31''" and fmt = "\<lambda>q. []"
      and xs = "[]" and ys = "[]"]
  by (simp add: eval_strings eval_clauses)

text \<open>
  C3. An entry whose value is the empty string, or a pair with both fields empty, contributes
  nothing under any classification: the result is that of the map without the entry.
\<close>

theorem empty_entry_excluded:
  assumes "v = Scalar [] \<or> v = MinMax [] []"
  shows "buildFilterClauses fmt (xs @ (col, v) # ys) colMeta = buildFilterClauses fmt (xs @ ys) colMeta"
proof -
  from assms have "\<not> keepEntry (col, v)" by auto
  then have "buildFilterClauses fmt [(col, v)] colMeta = Inr []"
    by (simp add: buildFilterClauses_single)
  then have "buildFilterClauses fmt (xs @ (col, v) # ys) colMeta =
      appendClauses (buildFilterClauses fmt xs colMeta)
        (appendClauses (Inr []) (buildFilterClauses fmt ys colMeta))"
    by (simp only: buildFilterClauses_entry)
  then show ?thesis
    by (simp add: buildFilterClauses_append appendClauses_Nil)
qed

theorem empty_entry_excluded_witness:
  "buildFilterClauses (\<lambda>q. []) [(''name'', Scalar []), (''age'', MinMax [] [])]
       [''name'' \<mapsto> \<lparr>filterType = Some ''text'', type = None\<rparr>,
        ''age'' \<mapsto> \<lparr>filterType = Some ''range'', type = None\<rparr>] = Inr []"
  using empty_entry_excluded [where v = "Scalar []" and col = "''name''" and xs = "[]"
      and ys = "[(''age'', MinMax [] [])]" and fmt = "\<lambda>q. []"
      and colMeta = "[''name'' \<mapsto> \<lparr>filterType = Some ''text'', type = None\<rparr>,
        ''age'' \<mapsto> \<lparr>filterType = Some ''range'', type = None\<rparr>]"]
    empty_entry_excluded [where v = "MinMax [] []" and col = "''age''" and xs = "[]"
      and ys = "[]" and fmt = "\<lambda>q. []"
      and colMeta = "[''name'' \<mapsto> \<lparr>filterType = Some ''text'', type = None\<rparr>,
        ''age'' \<mapsto> \<lparr>filterType = Some ''range'', type = None\<rparr>]"]
  by (simp add: buildFilterClauses_Nil)

lemma range_single:
  assumes "filterType (metaOf colMeta col) = Some ''range''"
  shows "buildFilterClauses fmt [(col, MinMax mn mx)] colMeta =
           Inr (filterBoolean [wrapParts (rangeParts fmt col (MinMax mn mx))])"
proof (cases "keepEntry (col, MinMax mn mx)")
  case True
  with assms show ?thesis by (simp add: buildFilterClauses_single clauseOf_def)
next
  case False
  then have "mn = []" "mx = []" by simp_all
  then have "rangeParts fmt col (MinMax mn mx) = []"
    by (simp add: rangeParts_def parseFloat_empty isNaN_def)
  with False show ?thesis by (simp add: buildFilterClauses_single wrapParts_def)
qed

text \<open>
  C4. A \<^verbatim>\<open>range\<close> filter never fails; it contributes the lower comparison when
  \<^verbatim>\<open>min\<close> parses, the upper comparison when \<^verbatim>\<open>max\<close> parses, both joined with
  \<^verbatim>\<open>AND\<close> when both parse, and no clause when neither parses. With only \<^verbatim>\<open>min\<close>
  set there is exactly one comparison.
\<close>

theorem range_filter_clause:
  assumes "filterType (metaOf colMeta col) = Some ''range''"
  shows "buildFilterClauses fmt (xs @ (col, MinMax mn mx) # ys) colMeta =
           appendClauses (buildFilterClauses fmt xs colMeta)
             (appendClauses
               (Inr (if \<not> isNaN (parseFloat mn) \<and> \<not> isNaN (parseFloat mx) then
                       [''('' @ escapeColumnName col @ '' >= '' @ numberToString fmt (parseFloat mn) @
                        '' AND '' @ escapeColumnName col @ '' <= '' @ numberToString fmt (parseFloat mx) @ '')'']
                     else if \<not> isNaN (parseFloat mn) then
                       [''('' @ escapeColumnName col @ '' >= '' @ numberToString fmt (parseFloat mn) @ '')'']
                     else if \<not> isNaN (parseFloat mx) then
                       [''('' @ escapeColumnName col @ '' <= '' @ numberToString fmt (parseFloat mx) @ '')'']
                     else []))
               (buildFilterClauses fmt ys colMeta)) \<and>
         length (rangeParts fmt col (MinMax mn [])) = (if isNaN (parseFloat mn) then 0 else 1)"
proof -
  have "buildFilterClauses fmt (xs @ (col, MinMax mn mx) # ys) colMeta =
      appendClauses (buildFilterClauses fmt xs colMeta)
        (appendClauses (Inr (filterBoolean [wrapParts (rangeParts fmt col (MinMax mn mx))]))
          (buildFilterClauses fmt ys colMeta))"
    by (simp only: buildFilterClauses_entry range_single [OF assms])
  moreover have "filterBoolean [wrapParts (rangeParts fmt col (MinMax mn mx))] =
      (if \<not> isNaN (parseFloat mn) \<and> \<not> isNaN (parseFloat mx) then
         [''('' @ escapeColumnName col @ '' >= '' @ numberToString fmt (parseFloat mn) @
          '' AND '' @ escapeColumnName col @ '' <= '' @ numberToString fmt (parseFloat mx) @ '')'']
       else if \<not> isNaN (parseFloat mn) then
         [''('' @ escapeColumnName col @ '' >= '' @ numberToString fmt (parseFloat mn) @ '')'']
       else if \<not> isNaN (parseFloat mx) then
         [''('' @ escapeColumnName col @ '' <= '' @ numberToString fmt (parseFloat mx) @ '')'']
       else [])"
    by (simp add: rangeParts_def wrapParts_def atLeastPart_def atMostPart_def)
  moreover have "length (rangeParts fmt col (MinMax mn [])) = (if isNaN (parseFloat mn) then 0 else 1)"
    by (simp add: rangeParts_def parseFloat_empty isNaN_def)
  ultimately show ?thesis by simp
qed

theorem range_filter_clause_witness:
  "buildFilterClauses (\<lambda>q. []) [(''age'', MinMax ''18'' ''65'')]
       [''age'' \<mapsto> \<lparr>filterType = Some ''range'', type = None\<rparr>] =
     Inr [''('' @ [DQ] @ ''age'' @ [DQ] @ '' >= 18 AND '' @ [DQ] @ ''age'' @ [DQ] @ '' <= 65)''] \<and>
   buildFilterClauses (\<lambda>q. []) [(''age'', MinMax ''18'' [])]
       [''age'' \<mapsto> \<lparr>filterType = Some ''range'', type = None\<rparr>] =
     Inr [''('' @ [DQ] @ ''age'' @ [DQ] @ '' >= 18)''] \<and>
   buildFilterClauses (\<lambda>q. []) [(''age'', MinMax ''abc'' ''x1'')]
       [''age'' \<mapsto> \<lparr>filterType = Some ''range'', type = None\<rparr>] = Inr [] \<and>
   length (rangeParts (\<lambda>q. []) ''age'' (MinMax ''18'' [])) = 1"
  using range_filter_clause [where colMeta = "[''age'' \<mapsto> \<lparr>filterType = Some ''range'', type = None\<rparr>]"
      and col = "''age''" and mn = "''18''" and mx = "''65''" and fmt = "\<lambda>q. []" and xs = "[]" and ys = "[]"]
    range_filter_clause [where colMeta = "[''age'' \<mapsto> \<lparr>filterType = Some ''range'', type = None\<rparr>]"
      and col = "''age''" and mn = "''18''" and mx = "[]" and fmt = "\<lambda>q. []" and xs = "[]" and ys = "[]"]
    range_filter_clause [where colMeta = "[''age'' \<mapsto> \<lparr>filterType = Some ''range'', type = None\<rparr>]"
      and col = "''age''" and mn = "''abc''" and mx = "''x1''" and fmt = "\<lambda>q. []" and xs = "[]" and ys = "[]"]
  by (simp add: eval_strings eval_numbers eval_clauses)

text \<open>
  C10. The comparisons of a \<^verbatim>\<open>range\<close> filter are made of the escaped column name and the
  rendering of the parsed numbers: two inputs that parse to the same numbers give the same
  clauses, whatever text follows the number in the field.
\<close>

theorem range_clause_from_numbers_only:
  assumes "filterType (metaOf colMeta col) = Some ''range''"
    and "parseFloat mn = parseFloat mn'" and "parseFloat mx = parseFloat mx'"
  shows "buildFilterClauses fmt (xs @ (col, MinMax mn mx) # ys) colMeta =
           buildFilterClauses fmt (xs @ (col, MinMax mn' mx') # ys) colMeta \<and>
         set (rangeParts fmt col (MinMax mn mx)) \<subseteq>
           {escapeColumnName col @ '' >= '' @ numberToString fmt (parseFloat mn),
            escapeColumnName col @ '' <= '' @ numberToString fmt (parseFloat mx)}"
proof -
  have "rangeParts fmt col (MinMax mn mx) = rangeParts fmt col (MinMax mn' mx')"
    using assms(2,3) by (simp add: rangeParts_def)
  then have "buildFilterClauses fmt [(col, MinMax mn mx)] colMeta =
      buildFilterClauses fmt [(col, MinMax mn' mx')] colMeta"
    by (simp add: range_single [OF assms(1)])
  then have "buildFilterClauses fmt (xs @ (col, MinMax mn mx) # ys) colMeta =
      buildFilterClauses fmt (xs @ (col, MinMax mn' mx') # ys) colMeta"
    by (simp only: buildFilterClauses_entry)
  moreover have "set (rangeParts fmt col (MinMax mn mx)) \<subseteq>
      {escapeColumnName col @ '' >= '' @ numberToString fmt (parseFloat mn),
       escapeColumnName col @ '' <= '' @ numberToString fmt (parseFloat mx)}"
    by (auto simp: rangeParts_def Let_def atLeastPart_def atMostPart_def split: if_splits)
  ultimately show ?thesis by simp
qed

theorem range_clause_from_numbers_only_witness:
  "parseFloat ''1 OR 1=1'' = parseFloat ''1'' \<and>
   buildFilterClauses (\<lambda>q. []) [(''age'', MinMax ''1 OR 1=1'' ''65); DROP TABLE t; --'')]
       [''age'' \<mapsto> \<lparr>filterType = Some ''range'', type = None\<rparr>] =
   buildFilterClauses (\<lambda>q. []) [(''age'', MinMax ''1'' ''65'')]
       [''age'' \<mapsto> \<lparr>filterType = Some ''range'', type = None\<rparr>]"
proof -
  have a: "parseFloat ''1 OR 1=1'' = parseFloat ''1''"
    by (simp add: eval_strings eval_numbers)
  have b: "parseFloat ''65); DROP TABLE t; --'' = parseFloat ''65''"
    by (simp add: eval_strings eval_numbers)
  have c: "filterType (metaOf [''age'' \<mapsto> \<lparr>filterType = Some ''range'', type = None\<rparr>] ''age'') = Some ''range''"
    by (simp add: metaOf_def)
  show ?thesis
    using a range_clause_from_numbers_only [OF c a b, where fmt = "\<lambda>q. []" and xs = "[]" and ys = "[]"]
    by simp
qed

section \<open>Properties of the session\<close>

lemma handleError_keeps [simp]:
  "currentSource (handleError env err st) = currentSource st"
  "columns (handleError env err st) = columns st"
  "offset (handleError env err st) = offset st"
  "totalRows (handleError env err st) = totalRows st"
  "sortColumn (handleError env err st) = sortColumn st"
  "sortDirection (handleError env err st) = sortDirection st"
  "filters (handleError env err st) = filters st"
  "columnMeta (handleError env err st) = columnMeta st"
  "table (handleError env err st) = table st"
  by (simp_all add: handleError_def)

lemma showRemaining_keeps [simp]:
  "currentSource (showRemaining chunk n st) = currentSource st"
  "columns (showRemaining chunk n st) = columns st"
  "offset (showRemaining chunk n st) = offset st"
  "totalRows (showRemaining chunk n st) = totalRows st"
  "sortColumn (showRemaining chunk n st) = sortColumn st"
  "sortDirection (showRemaining chunk n st) = sortDirection st"
  "filters (showRemaining chunk n st) = filters st"
  "columnMeta (showRemaining chunk n st) = columnMeta st"
  "table (showRemaining chunk n st) = table st"
  by (simp_all add: showRemaining_def)

lemma renderRows_keeps:
  assumes "renderRows rows cols appendMode st = (r, st')"
  shows "currentSource st' = currentSource st" "columns st' = columns st" "offset st' = offset st"
    "totalRows st' = totalRows st" "sortColumn st' = sortColumn st"
    "sortDirection st' = sortDirection st" "filters st' = filters st" "columnMeta st' = columnMeta st"
  using assms by (auto simp: renderRows_def Let_def split: if_splits option.splits)

text \<open>
  Run alone, the parts of a transition come to one function of the session it starts from.
\<close>

lemma reloadData_onRows_alone:
  "reloadData_onRows chunk env res st =
     (case res of
        Inl err \<Rightarrow> handleError env err st
      | Inr rows \<Rightarrow>
          let st1 = st\<lparr>offset := length rows\<rparr> in
          (case currentFilteredCount env st1 of
             Inl err \<Rightarrow> handleError env err st1
           | Inr filteredCount \<Rightarrow>
               (case renderRows rows (columns st1) False st1 of
                  (Some err, st2) \<Rightarrow> handleError env err st2
                | (None, st2) \<Rightarrow>
                    (case currentSource st2 of
                       None \<Rightarrow> handleError env (TypeError ''Cannot read properties of null (reading 'split')'') st2
                     | Some src \<Rightarrow>
                         showRemaining chunk filteredCount
                           (st2\<lparr>status := StatusText (Summary (fileName src) (totalRows st2) (length (columns st2))
                                             (if hasFilters (filters st2) then Some filteredCount else None)),
                               loading := False\<rparr>)))))"
  by (auto simp: reloadData_onRows_def reloadData_arrive_def reloadData_onCount_def reloadData_show_def
      currentFilteredCount_def Let_def
      split: sum.splits prod.splits option.splits dest: renderRows_keeps(7))

lemma loadMore_onRows_alone:
  "loadMore_onRows chunk env res st =
     (case res of
        Inl err \<Rightarrow> handleError env err st
      | Inr rows \<Rightarrow>
          (case renderRows rows (columns st) True (st\<lparr>offset := offset st + length rows\<rparr>) of
             (Some err, st2) \<Rightarrow> handleError env err st2
           | (None, st2) \<Rightarrow>
               (case currentFilteredCount env st2 of
                  Inl err \<Rightarrow> handleError env err st2
                | Inr filteredCount \<Rightarrow> showRemaining chunk filteredCount st2)))"
  by (auto simp: loadMore_onRows_def loadMore_arrive_def loadMore_onCount_def
      currentFilteredCount_def Let_def
      split: sum.splits prod.splits option.splits)

lemma loadParquet_run_Settled: "loadParquet_run env source isUrl (Settled r) st = (r, st)"
  by (simp add: loadParquet_run.simps)

lemma loadParquet_run_step:
  "\<not> isSettled pc \<Longrightarrow>
     loadParquet_run env source isUrl pc st =
       loadParquet_run env source isUrl (fst (loadParquet_resume env source isUrl pc st))
         (snd (loadParquet_resume env source isUrl pc st))"
  by (subst loadParquet_run.simps) (simp add: case_prod_beta)

lemma renderRows_fresh:
  "renderRows rows cols False st =
     (None, if cols = [] then st\<lparr>table := None\<rparr>
            else st\<lparr>rowOffset := length rows, table := Some rows\<rparr>)"
  by (simp add: renderRows_def)

lemma loadParquet_alone:
  "loadParquet env source isUrl st =
     (let st1 = st\<lparr>currentSource := Some source, sortColumn := None, sortDirection := None,
                   filters := [], status := StatusText ReadingSchema, loading := True\<rparr>
      in case schemaQuery env (''DESCRIBE SELECT * FROM '' @ readParquet source) of
           Inl err \<Rightarrow> (Some err, st1)
         | Inr allCols \<Rightarrow>
             let st2 = st1\<lparr>columns := take MAX_COLS allCols\<rparr> in
             if allCols = [] then (None, st2\<lparr>status := StatusText NoColumns, loading := False\<rparr>)
             else
               (case countQuery env (''SELECT COUNT(*) as cnt FROM '' @ readParquet source) of
                  Inl err \<Rightarrow> (Some err, st2\<lparr>status := StatusText CountingRows\<rparr>)
                | Inr n \<Rightarrow>
                    let st3 = st2\<lparr>totalRows := n\<rparr>;
                        shownName = (if isUrl then fileName source else source)
                    in if n = 0 then
                         renderRows [] (columns st3) False
                           (st3\<lparr>status := StatusText (EmptyFile shownName (length allCols)),
                                loading := False\<rparr>)
                       else
                         let st4 = st3\<lparr>columnMeta := getColumnMeta env source (columns st3)\<rparr>;
                             fileSizeStr = (if isUrl then fetchSize env source else None);
                             st5 = st4\<lparr>status := StatusText
                                      (LoadingFirstRows shownName n (length allCols) fileSizeStr)\<rparr>
                         in (case getRows env (Some source) (columns st5) CHUNK 0 (sortColumn st5)
                                    (sortDirection st5) (filters st5) (columnMeta st5) of
                               Inl err \<Rightarrow> (Some err, st5)
                             | Inr rows \<Rightarrow>
                                 (case renderRows rows (columns st5) False (st5\<lparr>offset := length rows\<rparr>) of
                                    (r, st6) \<Rightarrow>
                                      (r, updateButtons
                                            (st6\<lparr>status := StatusText
                                                    (Loaded shownName n (length allCols) fileSizeStr),
                                                 loading := False\<rparr>))))))"
  by (simp add: loadParquet_def loadParquet_begin_def loadParquet_run_step loadParquet_run_Settled
      loadParquet_resume_def loadParquet_firstRows_def Let_def renderRows_fresh
      split: sum.splits)

lemma reloadData_onRows_sort:
  "sortColumn (reloadData_onRows chunk env res st) = sortColumn st \<and>
   sortDirection (reloadData_onRows chunk env res st) = sortDirection st"
  by (auto simp: reloadData_onRows_alone Let_def split: sum.splits prod.splits option.splits
      dest: renderRows_keeps(5,6))

lemma reloadData_sort:
  "sortColumn (reloadData env st) = sortColumn st \<and> sortDirection (reloadData env st) = sortDirection st"
  by (simp add: reloadData_def reloadDataBy_def reloadData_begin_def reloadData_query_def reloadData_onRows_sort)

text \<open>
  C7. \<^verbatim>\<open>handleSort\<close> on the current sort column turns ascending into descending and
  descending into ascending; on any other column it makes that column the sort column,
  ascending. In both cases the offset is set to 0 before the data is reloaded, and the reload
  leaves the sort state as set.
\<close>

theorem sort_toggle:
  "(sortColumn st = Some colName \<and> sortDirection st = Some ASC \<longrightarrow>
      sortDirection (setSort colName st) = Some DESC) \<and>
   (sortColumn st = Some colName \<and> sortDirection st = Some DESC \<longrightarrow>
      sortDirection (setSort colName st) = Some ASC) \<and>
   (sortColumn st \<noteq> Some colName \<longrightarrow> sortDirection (setSort colName st) = Some ASC) \<and>
   sortColumn (setSort colName st) = Some colName \<and>
   offset (setSort colName st) = 0 \<and>
   handleSort env colName st = reloadData env (setSort colName st) \<and>
   sortColumn (handleSort env colName st) = Some colName \<and>
   sortDirection (handleSort env colName st) = sortDirection (setSort colName st)"
  by (simp add: handleSort_def reloadData_sort) (simp add: setSort_def)

theorem sort_toggle_witness:
  "sortDirection (setSort ''A'' ((initialSession :: unit session)\<lparr>sortColumn := Some ''A'', sortDirection := Some ASC, offset := 100\<rparr>))
     = Some DESC \<and>
   sortDirection (setSort ''A'' ((initialSession :: unit session)\<lparr>sortColumn := Some ''A'', sortDirection := Some DESC, offset := 100\<rparr>))
     = Some ASC \<and>
   sortDirection (setSort ''B'' ((initialSession :: unit session)\<lparr>sortColumn := Some ''A'', sortDirection := Some DESC, offset := 100\<rparr>))
     = Some ASC \<and>
   sortColumn (setSort ''B'' ((initialSession :: unit session)\<lparr>sortColumn := Some ''A'', sortDirection := Some DESC, offset := 100\<rparr>))
     = Some ''B'' \<and>
   offset (setSort ''B'' ((initialSession :: unit session)\<lparr>sortColumn := Some ''A'', sortDirection := Some DESC, offset := 100\<rparr>))
     = 0"
  using sort_toggle [where colName = "''A''" and st = "(initialSession :: unit session)\<lparr>sortColumn := Some ''A'', sortDirection := Some ASC, offset := 100\<rparr>"]
    sort_toggle [where colName = "''A''" and st = "(initialSession :: unit session)\<lparr>sortColumn := Some ''A'', sortDirection := Some DESC, offset := 100\<rparr>"]
    sort_toggle [where colName = "''B''" and st = "(initialSession :: unit session)\<lparr>sortColumn := Some ''A'', sortDirection := Some DESC, offset := 100\<rparr>"]
  by simp

lemma timeout_lower:
  "toLowerCase (message timeoutError) = ''request timed out - the server took too long to respond''"
  by (simp add: timeoutError_def toLowerCase_def lowerCase_def)

lemma timeout_tests: "\<not> isCorsError url timeoutError \<and> \<not> isNetworkError timeoutError \<and> \<not> isInvalidParquet timeoutError"
  by (simp add: isCorsError_def isNetworkError_def isInvalidParquet_def timeout_lower)

lemma timeout_classified: "classify url timeoutError = Unexpected"
  by (simp add: classify_def timeout_tests)

section \<open>Paging\<close>

lemma currentFilteredCount_cong:
  assumes "currentSource st' = currentSource st" "filters st' = filters st"
    "columnMeta st' = columnMeta st" "totalRows st' = totalRows st"
  shows "currentFilteredCount env st' = currentFilteredCount env st"
  using assms by (simp add: currentFilteredCount_def)

lemma servesFrom_cong:
  assumes "currentSource st' = currentSource st" "columns st' = columns st"
    "sortColumn st' = sortColumn st" "sortDirection st' = sortDirection st"
    "filters st' = filters st" "columnMeta st' = columnMeta st" "totalRows st' = totalRows st"
  shows "servesFrom env st' rowsAll = servesFrom env st rowsAll"
  using assms by (simp add: servesFrom_def currentFilteredCount_def)

lemma loadMore_offset:
  assumes "getRows env (currentSource st) (columns st) chunk (offset st) (sortColumn st)
             (sortDirection st) (filters st) (columnMeta st) = Inr rows"
  shows "offset (loadMoreBy chunk env st) = offset st + length rows"
proof -
  obtain r st2 where r: "renderRows rows (columns st) True
      (st\<lparr>moreBtnText := MoreLoading, moreBtnDisabled := True, offset := offset st + length rows\<rparr>) = (r, st2)"
    by (cases "renderRows rows (columns st) True
      (st\<lparr>moreBtnText := MoreLoading, moreBtnDisabled := True, offset := offset st + length rows\<rparr>)")
  from renderRows_keeps(3) [OF r] have "offset st2 = offset st + length rows" by simp
  with assms r show ?thesis
    by (simp add: loadMoreBy_def loadMore_begin_def loadMore_query_def loadMore_onRows_alone split: option.splits sum.splits)
qed

lemma loadAllLoop_batch:
  assumes "offset st < filteredCount"
    and "getRows env (currentSource st) (columns st) BATCH (offset st) (sortColumn st)
           (sortDirection st) (filters st) (columnMeta st) = Inr rows"
    and "rows \<noteq> []" and "columns st \<noteq> []" and "table st = Some shown"
  shows "loadAllLoop env filteredCount st =
           loadAllLoop env filteredCount
             (st\<lparr>offset := offset st + length rows, rowOffset := rowOffset st + length rows,
                 table := Some (shown @ rows),
                 loadAllText := Progress (offset st + length rows) filteredCount\<rparr>)"
  using assms by (subst loadAllLoop.simps) (simp add: renderRows_def)

lemma servesFrom_source: "servesFrom env st rowsAll \<Longrightarrow> \<exists>src. currentSource st = Some src"
  by (cases "currentSource st") (auto simp: servesFrom_def getRows_def)

lemma reloadData_onRows_ok:
  assumes "currentFilteredCount env st = Inr filteredCount" and "columns st \<noteq> []"
    and "currentSource st = Some src"
  shows "reloadData_onRows chunk env (Inr rows) st =
           showRemaining chunk filteredCount
             (st\<lparr>offset := length rows, rowOffset := length rows, table := Some rows,
                 status := StatusText (Summary (fileName src) (totalRows st) (length (columns st))
                             (if hasFilters (filters st) then Some filteredCount else None)),
                 loading := False\<rparr>)"
proof -
  have "currentFilteredCount env (st\<lparr>offset := length rows\<rparr>) = Inr filteredCount"
    using assms(1) currentFilteredCount_cong [of "st\<lparr>offset := length rows\<rparr>" st env] by simp
  then show ?thesis
    using assms(2,3) by (simp add: reloadData_onRows_alone renderRows_def)
qed

lemma loadMore_onRows_ok:
  assumes "currentFilteredCount env st = Inr filteredCount" and "columns st \<noteq> []"
    and "table st = Some shown"
  shows "loadMore_onRows chunk env (Inr rows) st =
           showRemaining chunk filteredCount
             (st\<lparr>offset := offset st + length rows, rowOffset := rowOffset st + length rows,
                 table := Some (shown @ rows)\<rparr>)"
proof -
  have "currentFilteredCount env
          (st\<lparr>offset := offset st + length rows, rowOffset := rowOffset st + length rows,
              table := Some (shown @ rows)\<rparr>) = Inr filteredCount"
    using assms(1)
      currentFilteredCount_cong [of "st\<lparr>offset := offset st + length rows,
        rowOffset := rowOffset st + length rows, table := Some (shown @ rows)\<rparr>" st env]
    by simp
  then show ?thesis
    using assms(2,3) by (simp add: loadMore_onRows_alone renderRows_def)
qed

lemma loadMore_step:
  assumes S: "servesFrom env st rowsAll"
    and T: "table st = Some (take (offset st) rowsAll)"
    and O: "offset st \<le> length rowsAll"
    and C: "columns st \<noteq> []"
  shows "servesFrom env (loadMoreBy chunk env st) rowsAll \<and>
         table (loadMoreBy chunk env st) = Some (take (offset (loadMoreBy chunk env st)) rowsAll) \<and>
         offset (loadMoreBy chunk env st) = min (length rowsAll) (offset st + chunk) \<and>
         columns (loadMoreBy chunk env st) = columns st \<and>
         moreBtnText (loadMoreBy chunk env st) =
           LoadNext chunk (int (length rowsAll) - int (offset (loadMoreBy chunk env st))) \<and>
         moreBtnDisabled (loadMoreBy chunk env st) = (length rowsAll \<le> offset (loadMoreBy chunk env st))"
proof -
  define rows where "rows = take chunk (drop (offset st) rowsAll)"
  define st0 where "st0 = st\<lparr>moreBtnText := MoreLoading, moreBtnDisabled := True\<rparr>"
  from S have rows: "getRows env (currentSource st) (columns st) chunk (offset st) (sortColumn st)
      (sortDirection st) (filters st) (columnMeta st) = Inr rows"
    by (simp add: servesFrom_def rows_def)
  from S have "currentFilteredCount env st = Inr (length rowsAll)"
    by (simp add: servesFrom_def)
  then have cnt: "currentFilteredCount env st0 = Inr (length rowsAll)"
    using currentFilteredCount_cong [of st0 st env] by (simp add: st0_def)
  have C0: "columns st0 \<noteq> []" and T0: "table st0 = Some (take (offset st) rowsAll)"
    using C T by (simp_all add: st0_def)
  have "loadMoreBy chunk env st = loadMore_onRows chunk env (Inr rows) st0"
    by (simp add: loadMoreBy_def loadMore_begin_def loadMore_query_def rows st0_def)
  then have run: "loadMoreBy chunk env st =
      showRemaining chunk (length rowsAll)
        (st0\<lparr>offset := offset st0 + length rows, rowOffset := rowOffset st0 + length rows,
             table := Some (take (offset st) rowsAll @ rows)\<rparr>)"
    by (simp only: loadMore_onRows_ok [OF cnt C0 T0])
  have off: "offset st + length rows = min (length rowsAll) (offset st + chunk)"
    using O by (auto simp: rows_def min_def)
  have tab: "take (offset st) rowsAll @ rows = take (min (length rowsAll) (offset st + chunk)) rowsAll"
    by (simp add: rows_def take_add min_def)
  have off0: "offset st0 = offset st" by (simp add: st0_def)
  have "servesFrom env (loadMoreBy chunk env st) rowsAll = servesFrom env st rowsAll"
    unfolding run by (rule servesFrom_cong) (simp_all add: st0_def)
  with S have serve: "servesFrom env (loadMoreBy chunk env st) rowsAll" by simp
  have o: "offset (loadMoreBy chunk env st) = min (length rowsAll) (offset st + chunk)"
    unfolding run using off by (simp add: off0)
  have t: "table (loadMoreBy chunk env st) = Some (take (min (length rowsAll) (offset st + chunk)) rowsAll)"
    unfolding run using tab by simp
  have c: "columns (loadMoreBy chunk env st) = columns st"
    unfolding run by (simp add: st0_def)
  have b: "moreBtnText (loadMoreBy chunk env st) =
        LoadNext chunk (int (length rowsAll) - int (min (length rowsAll) (offset st + chunk)))"
      "moreBtnDisabled (loadMoreBy chunk env st) = (length rowsAll \<le> min (length rowsAll) (offset st + chunk))"
    unfolding run using off by (simp_all add: showRemaining_def off0)
  show ?thesis
    using serve o t c b by simp
qed

lemma loadMore_iterate:
  assumes S: "servesFrom env st rowsAll"
    and T: "table st = Some (take (offset st) rowsAll)"
    and O: "offset st \<le> length rowsAll"
    and C: "columns st \<noteq> []"
  shows "servesFrom env ((loadMoreBy chunk env ^^ n) st) rowsAll \<and>
         table ((loadMoreBy chunk env ^^ n) st) =
           Some (take (offset ((loadMoreBy chunk env ^^ n) st)) rowsAll) \<and>
         offset ((loadMoreBy chunk env ^^ n) st) = min (length rowsAll) (offset st + n * chunk) \<and>
         columns ((loadMoreBy chunk env ^^ n) st) = columns st \<and>
         (0 < n \<longrightarrow>
            moreBtnText ((loadMoreBy chunk env ^^ n) st) =
              LoadNext chunk (int (length rowsAll) - int (offset ((loadMoreBy chunk env ^^ n) st))) \<and>
            moreBtnDisabled ((loadMoreBy chunk env ^^ n) st) =
              (length rowsAll \<le> offset ((loadMoreBy chunk env ^^ n) st)))"
proof (induction n)
  case 0
  with assms show ?case by simp
next
  case (Suc n)
  let ?s = "(loadMoreBy chunk env ^^ n) st"
  from Suc have S': "servesFrom env ?s rowsAll"
    and T': "table ?s = Some (take (offset ?s) rowsAll)"
    and O': "offset ?s = min (length rowsAll) (offset st + n * chunk)"
    and C': "columns ?s = columns st"
    by simp_all
  from O' have le: "offset ?s \<le> length rowsAll" by simp
  from C C' have ne: "columns ?s \<noteq> []" by simp
  have step: "(loadMoreBy chunk env ^^ Suc n) st = loadMoreBy chunk env ?s" by simp
  from loadMore_step [OF S' T' le ne, of chunk] O' C' show ?case
    unfolding step by (auto simp: min_def)
qed

lemma reloadData_first_page:
  assumes S: "servesFrom env st rowsAll" and C: "columns st \<noteq> []"
  shows "servesFrom env (reloadDataBy chunk env st) rowsAll \<and>
         table (reloadDataBy chunk env st) = Some (take (offset (reloadDataBy chunk env st)) rowsAll) \<and>
         offset (reloadDataBy chunk env st) = min (length rowsAll) chunk \<and>
         columns (reloadDataBy chunk env st) = columns st \<and>
         moreBtnText (reloadDataBy chunk env st) =
           LoadNext chunk (int (length rowsAll) - int (offset (reloadDataBy chunk env st))) \<and>
         moreBtnDisabled (reloadDataBy chunk env st) = (length rowsAll \<le> offset (reloadDataBy chunk env st))"
proof -
  define rows where "rows = take chunk rowsAll"
  define st0 where "st0 = st\<lparr>status := StatusText LoadingText, loading := True\<rparr>"
  obtain src where "currentSource st = Some src"
    using servesFrom_source [OF S] by blast
  then have src: "currentSource st0 = Some src" by (simp add: st0_def)
  from S have rows: "getRows env (currentSource st) (columns st) chunk 0 (sortColumn st)
      (sortDirection st) (filters st) (columnMeta st) = Inr rows"
    by (simp add: servesFrom_def rows_def)
  from S have "currentFilteredCount env st = Inr (length rowsAll)"
    by (simp add: servesFrom_def)
  then have cnt: "currentFilteredCount env st0 = Inr (length rowsAll)"
    using currentFilteredCount_cong [of st0 st env] by (simp add: st0_def)
  have C0: "columns st0 \<noteq> []" using C by (simp add: st0_def)
  have run: "reloadDataBy chunk env st =
      showRemaining chunk (length rowsAll)
        (st0\<lparr>offset := length rows, rowOffset := length rows, table := Some rows,
             status := StatusText (Summary (fileName src) (totalRows st0) (length (columns st0))
                         (if hasFilters (filters st0) then Some (length rowsAll) else None)),
             loading := False\<rparr>)"
    using reloadData_onRows_ok [OF cnt C0 src, of chunk rows]
    by (simp add: reloadDataBy_def reloadData_begin_def reloadData_query_def rows flip: st0_def)
  have "servesFrom env (reloadDataBy chunk env st) rowsAll = servesFrom env st rowsAll"
    unfolding run by (rule servesFrom_cong) (simp_all add: st0_def)
  with S have serve: "servesFrom env (reloadDataBy chunk env st) rowsAll" by simp
  have len: "length rows = min (length rowsAll) chunk" "take (min (length rowsAll) chunk) rowsAll = rows"
    by (simp_all add: rows_def min_def)
  have rest: "table (reloadDataBy chunk env st) = Some (take (offset (reloadDataBy chunk env st)) rowsAll) \<and>
         offset (reloadDataBy chunk env st) = min (length rowsAll) chunk \<and>
         columns (reloadDataBy chunk env st) = columns st \<and>
         moreBtnText (reloadDataBy chunk env st) =
           LoadNext chunk (int (length rowsAll) - int (offset (reloadDataBy chunk env st))) \<and>
         moreBtnDisabled (reloadDataBy chunk env st) = (length rowsAll \<le> offset (reloadDataBy chunk env st))"
    unfolding run by (simp add: showRemaining_def len st0_def)
  show ?thesis
    using serve rest by simp
qed

lemma pages_cover:
  assumes "0 < chunk"
  shows "length rowsAll \<le> chunk + ((length rowsAll - 1) div chunk) * chunk"
proof -
  have "length rowsAll - 1 < ((length rowsAll - 1) div chunk) * chunk + chunk"
    using assms dividend_less_div_times [of chunk "length rowsAll - 1"] by (simp add: add.commute mult.commute)
  then show ?thesis by simp
qed

lemma pages_before:
  assumes "k < (length rowsAll - 1) div chunk"
  shows "chunk + k * chunk < length rowsAll"
proof -
  from assms have "Suc k \<le> (length rowsAll - 1) div chunk" by simp
  then have "Suc k * chunk \<le> ((length rowsAll - 1) div chunk) * chunk"
    by (rule mult_le_mono1)
  also have "\<dots> \<le> length rowsAll - 1" by simp
  finally have "chunk + k * chunk \<le> length rowsAll - 1" by simp
  moreover from assms have "0 < length rowsAll - 1"
    by (cases "length rowsAll - 1") auto
  ultimately show ?thesis by simp
qed

lemma digit_value: "k < 10 \<Longrightarrow> (of_char (''0123456789'' ! k) :: nat) - 48 = k"
proof -
  assume "k < 10"
  then have "k = 0 \<or> k = 1 \<or> k = 2 \<or> k = 3 \<or> k = 4 \<or> k = 5 \<or> k = 6 \<or> k = 7 \<or> k = 8 \<or> k = 9"
    by arith
  then show ?thesis by (elim disjE) simp_all
qed

lemma digit_isDigit: "k < 10 \<Longrightarrow> isDigit (''0123456789'' ! k)"
  unfolding isDigit_def by (rule nth_mem) simp

lemma showNat_digits: "c \<in> set (showNat n) \<Longrightarrow> isDigit c"
proof (induction n arbitrary: c rule: showNat.induct)
  case (1 n)
  show ?case
  proof (cases "n < 10")
    case True
    with "1.prems" show ?thesis by (simp add: showNat_small digit_isDigit)
  next
    case False
    with "1.prems" have "c \<in> set (showNat (n div 10)) \<or> c = ''0123456789'' ! (n mod 10)"
      by (auto simp: showNat_big)
    then show ?thesis
    proof
      assume "c \<in> set (showNat (n div 10))"
      with False "1.IH" show ?thesis by simp
    next
      assume "c = ''0123456789'' ! (n mod 10)"
      then show ?thesis by (simp add: digit_isDigit)
    qed
  qed
qed

lemma digitsValue_snoc: "digitsValue (ds @ [d]) = 10 * digitsValue ds + (of_char d - 48)"
  by (simp add: digitsValue_def)

lemma digitsValue_showNat: "digitsValue (showNat n) = n"
proof (induction n rule: showNat.induct)
  case (1 n)
  show ?case
  proof (cases "n < 10")
    case True
    then have "digitsValue (showNat n) = of_char (''0123456789'' ! n) - 48"
      by (simp add: showNat_small digitsValue_def)
    with True show ?thesis by (simp add: digit_value)
  next
    case False
    then have "digitsValue (showNat n) = 10 * digitsValue (showNat (n div 10)) + (of_char (''0123456789'' ! (n mod 10)) - 48)"
      by (simp add: showNat_big digitsValue_snoc)
    also have "\<dots> = 10 * (n div 10) + n mod 10"
      using False "1.IH" by (simp add: digit_value)
    finally show ?thesis by simp
  qed
qed

lemma takeWhile_digits_rev:
  assumes "\<not> isDigit c"
  shows "takeWhile isDigit (rev (showNat n) @ c # rest) = rev (showNat n)"
proof -
  have "takeWhile isDigit (rev (showNat n) @ c # rest) = rev (showNat n) @ takeWhile isDigit (c # rest)"
    by (rule takeWhile_append2) (auto dest: showNat_digits)
  with assms show ?thesis by simp
qed

lemma dropWhile_digits_rev:
  assumes "\<not> isDigit c"
  shows "dropWhile isDigit (rev (showNat n) @ c # rest) = c # rest"
proof -
  have "dropWhile isDigit (rev (showNat n) @ c # rest) = dropWhile isDigit (c # rest)"
    by (rule dropWhile_append2) (auto dest: showNat_digits)
  with assms show ?thesis by simp
qed

lemma pagingEngine_page:
  "pagingEngine rowsAll (pre @ '' LIMIT '' @ showNat limit @ '' OFFSET '' @ showNat off) =
     Inr (take limit (drop off rowsAll))"
proof -
  have sp: "\<not> isDigit CHR '' ''" by (simp add: isDigit_def)
  have r: "rev (pre @ '' LIMIT '' @ showNat limit @ '' OFFSET '' @ showNat off) =
      rev (showNat off) @ CHR '' '' # (''TESFFO '' @ rev (showNat limit) @ CHR '' '' # (''TIMIL '' @ rev pre))"
    by simp
  have a: "takeWhile isDigit (rev (pre @ '' LIMIT '' @ showNat limit @ '' OFFSET '' @ showNat off)) =
      rev (showNat off)"
    unfolding r by (rule takeWhile_digits_rev [OF sp])
  have b: "drop 8 (dropWhile isDigit (rev (pre @ '' LIMIT '' @ showNat limit @ '' OFFSET '' @ showNat off))) =
      rev (showNat limit) @ CHR '' '' # (''TIMIL '' @ rev pre)"
    unfolding r by (simp only: dropWhile_digits_rev [OF sp]) simp
  have c: "takeWhile isDigit (rev (showNat limit) @ CHR '' '' # (''TIMIL '' @ rev pre)) = rev (showNat limit)"
    by (rule takeWhile_digits_rev [OF sp])
  show ?thesis
    unfolding pagingEngine_def Let_def a b c by (simp add: digitsValue_showNat)
qed

lemma pagingEngine_serves:
  assumes "rowsQuery env = pagingEngine rowsAll" and "currentSource st = Some src"
    and "filters st = []" and "totalRows st = length rowsAll"
  shows "servesFrom env st rowsAll"
proof -
  have "getRows env (currentSource st) (columns st) limit off (sortColumn st) (sortDirection st)
          (filters st) (columnMeta st) = Inr (take limit (drop off rowsAll))" for limit off
    using pagingEngine_page [of rowsAll
        "''SELECT '' @ join '', '' (map (\<lambda>c. escapeColumnName (fst c)) (columns st)) @ '' FROM '' @
         readParquet src @ whereClause [] @ orderByClause (sortColumn st) (sortDirection st)" limit off]
    by (simp add: getRows_def assms buildFilterClauses_Nil)
  moreover have "currentFilteredCount env st = Inr (length rowsAll)"
    by (simp add: currentFilteredCount_def hasFilters_def assms)
  ultimately show ?thesis by (simp add: servesFrom_def)
qed

lemma min_min_add: "min (l::nat) (min l c + m) = min l (c + m)"
  by (simp add: min_def)

lemma take_min_length: "take (min (length xs) n) xs = take n xs"
  by (cases "length xs \<le> n") (simp_all add: min_def)

lemma loadAllLoop_done: "\<not> offset st < filteredCount \<Longrightarrow> loadAllLoop env filteredCount st = (None, st)"
  by (subst loadAllLoop.simps) simp

lemma loadAllLoop_short_batch:
  assumes "offset st < filteredCount"
    and "getRows env (currentSource st) (columns st) BATCH (offset st) (sortColumn st)
           (sortDirection st) (filters st) (columnMeta st) = Inr rows"
    and "rows \<noteq> []" and "columns st \<noteq> []" and "table st = Some shown"
    and "filteredCount \<le> offset st + length rows"
  shows "loadAllLoop env filteredCount st =
           (None, st\<lparr>offset := offset st + length rows, rowOffset := rowOffset st + length rows,
                     table := Some (shown @ rows),
                     loadAllText := Progress (offset st + length rows) filteredCount\<rparr>)"
  using assms(6) by (simp add: loadAllLoop_batch [OF assms(1-5)] loadAllLoop_done)

lemma loadAllLoop_appends:
  assumes "columns st \<noteq> []" and "table st = Some shown"
  shows "\<exists>new. table (snd (loadAllLoop env filteredCount st)) = Some (shown @ new) \<and>
               offset (snd (loadAllLoop env filteredCount st)) = offset st + length new"
  using assms
proof (induction "filteredCount - offset st" arbitrary: st shown rule: less_induct)
  case less
  show ?case
  proof (cases "offset st < filteredCount")
    case False
    with less.prems show ?thesis by (simp add: loadAllLoop_done)
  next
    case True
    show ?thesis
    proof (cases "getRows env (currentSource st) (columns st) BATCH (offset st) (sortColumn st)
           (sortDirection st) (filters st) (columnMeta st)")
      case (Inl err)
      with True have "loadAllLoop env filteredCount st = (Some err, st)"
        by (subst loadAllLoop.simps) simp
      with less.prems show ?thesis by simp
    next
      case (Inr rows)
      show ?thesis
      proof (cases "rows = []")
        case True
        with \<open>offset st < filteredCount\<close> Inr have "loadAllLoop env filteredCount st = (None, st)"
          by (subst loadAllLoop.simps) simp
        with less.prems show ?thesis by simp
      next
        case False
        let ?st = "st\<lparr>offset := offset st + length rows, rowOffset := rowOffset st + length rows,
                     table := Some (shown @ rows),
                     loadAllText := Progress (offset st + length rows) filteredCount\<rparr>"
        have step: "loadAllLoop env filteredCount st = loadAllLoop env filteredCount ?st"
          by (rule loadAllLoop_batch [OF True Inr False less.prems])
        from False True have lt: "filteredCount - offset ?st < filteredCount - offset st"
          by (cases rows) auto
        have "\<exists>new. table (snd (loadAllLoop env filteredCount ?st)) = Some ((shown @ rows) @ new) \<and>
               offset (snd (loadAllLoop env filteredCount ?st)) = offset ?st + length new"
          using less.prems by (intro less.hyps [OF lt]) simp_all
        then obtain new where "table (snd (loadAllLoop env filteredCount ?st)) = Some (shown @ rows @ new)"
          and "offset (snd (loadAllLoop env filteredCount ?st)) = offset st + length (rows @ new)"
          by auto
        then show ?thesis unfolding step by blast
      qed
    qed
  qed
qed

lemma BATCH_pos: "0 < BATCH"
  by (simp add: BATCH_def)

lemma loadAllLoop_serves:
  assumes "servesFrom env st rowsAll" and "table st = Some (take (offset st) rowsAll)"
    and "offset st \<le> length rowsAll" and "columns st \<noteq> []"
  shows "fst (loadAllLoop env (length rowsAll) st) = None \<and>
         table (snd (loadAllLoop env (length rowsAll) st)) = Some rowsAll \<and>
         offset (snd (loadAllLoop env (length rowsAll) st)) = length rowsAll"
  using assms
proof (induction "length rowsAll - offset st" arbitrary: st rule: less_induct)
  case less
  show ?case
  proof (cases "offset st < length rowsAll")
    case False
    with less.prems show ?thesis by (simp add: loadAllLoop_done)
  next
    case True
    define rows where "rows = take BATCH (drop (offset st) rowsAll)"
    from less.prems(1) have q: "getRows env (currentSource st) (columns st) BATCH (offset st) (sortColumn st)
           (sortDirection st) (filters st) (columnMeta st) = Inr rows"
      by (simp add: servesFrom_def rows_def)
    from True have ne: "rows \<noteq> []"
      using BATCH_pos by (simp add: rows_def)
    let ?st = "st\<lparr>offset := offset st + length rows, rowOffset := rowOffset st + length rows,
                 table := Some (take (offset st) rowsAll @ rows),
                 loadAllText := Progress (offset st + length rows) (length rowsAll)\<rparr>"
    have step: "loadAllLoop env (length rowsAll) st = loadAllLoop env (length rowsAll) ?st"
      by (rule loadAllLoop_batch [OF True q ne less.prems(4,2)])
    have len: "offset st + length rows \<le> length rowsAll"
      using True by (simp add: rows_def)
    have tab: "take (offset st) rowsAll @ rows = take (offset st + length rows) rowsAll"
      by (simp add: rows_def take_add min_def)
    have "servesFrom env ?st rowsAll = servesFrom env st rowsAll"
      by (rule servesFrom_cong) simp_all
    with less.prems(1) have S: "servesFrom env ?st rowsAll" by simp
    from ne True have lt: "length rowsAll - offset ?st < length rowsAll - offset st"
      by (cases rows) auto
    have "fst (loadAllLoop env (length rowsAll) ?st) = None \<and>
         table (snd (loadAllLoop env (length rowsAll) ?st)) = Some rowsAll \<and>
         offset (snd (loadAllLoop env (length rowsAll) ?st)) = length rowsAll"
      using S tab len less.prems(4) by (intro less.hyps [OF lt]) simp_all
    then show ?thesis unfolding step .
  qed
qed

lemma loadAll_retrieves:
  assumes S: "servesFrom env st rowsAll" and T: "table st = Some (take (offset st) rowsAll)"
    and O: "offset st < length rowsAll" and C: "columns st \<noteq> []"
    and W: "length rowsAll - offset st \<le> WARN_THRESHOLD \<or> confirmed"
  shows "table (loadAll env confirmed st) = Some rowsAll \<and>
         offset (loadAll env confirmed st) = length rowsAll \<and>
         moreBtnText (loadAll env confirmed st) = AllRowsLoaded \<and>
         moreBtnDisabled (loadAll env confirmed st) \<and>
         loadAllText (loadAll env confirmed st) = AllLoaded"
proof -
  define st0 where "st0 = st\<lparr>loadAllDisabled := True, moreBtnDisabled := True, loadAllText := LoadingAll\<rparr>"
  from S have cnt: "currentFilteredCount env st = Inr (length rowsAll)"
    by (simp add: servesFrom_def)
  have "servesFrom env st0 rowsAll = servesFrom env st rowsAll"
    by (rule servesFrom_cong) (simp_all add: st0_def)
  with S have S0: "servesFrom env st0 rowsAll" by simp
  have T0: "table st0 = Some (take (offset st0) rowsAll)" and O0: "offset st0 \<le> length rowsAll"
    and C0: "columns st0 \<noteq> []"
    using T O C by (simp_all add: st0_def)
  obtain r st2 where run: "loadAllLoop env (length rowsAll) st0 = (r, st2)"
    by (cases "loadAllLoop env (length rowsAll) st0")
  with loadAllLoop_serves [OF S0 T0 O0 C0] have r: "r = None" and t2: "table st2 = Some rowsAll"
    and o2: "offset st2 = length rowsAll"
    by simp_all
  from O W have go: "(int (length rowsAll) - int (offset st) \<le> 0) = False"
      "(int (length rowsAll) - int (offset st) > int WARN_THRESHOLD \<and> \<not> confirmed) = False"
    by auto
  have "loadAll env confirmed st =
      st2\<lparr>loadAllText := AllLoaded, moreBtnText := AllRowsLoaded, moreBtnDisabled := True,
          loadAllDisabled := True\<rparr>"
    using run r O by (simp add: loadAll_def cnt go not_le flip: st0_def)
  with t2 o2 show ?thesis by simp
qed

text \<open>
  C5. \<^verbatim>\<open>loadMore\<close> moves the offset by the number of rows the query returned, and so does
  each batch of \<^verbatim>\<open>loadAll\<close>: the loop goes on from the session with the batch appended and
  the offset moved by its length, and a batch that reaches the filtered count ends it there,
  however many rows were asked for; whatever the engine answers, the offset has moved by the
  number of rows appended to the table. When the engine answers every page from one list of
  rows, a reload followed by load-more clicks, for any positive page size, shows the whole
  list in order: after \<open>(n - 1) div chunk\<close> clicks the table holds exactly the \<open>n\<close> rows,
  the offset is \<open>n\<close>, the button shows 0 remaining and is disabled, and before that it is
  enabled and the table holds the first pages. With such an engine \<^verbatim>\<open>loadAll\<close>, started on
  a table that holds the first rows up to the offset, ends with the whole list in the table
  and the offset at its length.
\<close>

theorem load_more_retrieves_all:
  "(getRows env (currentSource st) (columns st) chunk (offset st) (sortColumn st) (sortDirection st)
        (filters st) (columnMeta st) = Inr rows \<longrightarrow>
      offset (loadMoreBy chunk env st) = offset st + length rows) \<and>
   (offset st < filteredCount \<and>
    getRows env (currentSource st) (columns st) BATCH (offset st) (sortColumn st) (sortDirection st)
        (filters st) (columnMeta st) = Inr rows \<and>
    rows \<noteq> [] \<and> columns st \<noteq> [] \<and> table st = Some shown \<longrightarrow>
      loadAllLoop env filteredCount st =
        loadAllLoop env filteredCount
          (st\<lparr>offset := offset st + length rows, rowOffset := rowOffset st + length rows,
              table := Some (shown @ rows),
              loadAllText := Progress (offset st + length rows) filteredCount\<rparr>)) \<and>
   (servesFrom env st rowsAll \<and> columns st \<noteq> [] \<and> 0 < chunk \<longrightarrow>
      table ((loadMoreBy chunk env ^^ ((length rowsAll - 1) div chunk)) (reloadDataBy chunk env st))
        = Some rowsAll \<and>
      offset ((loadMoreBy chunk env ^^ ((length rowsAll - 1) div chunk)) (reloadDataBy chunk env st))
        = length rowsAll \<and>
      moreBtnText ((loadMoreBy chunk env ^^ ((length rowsAll - 1) div chunk)) (reloadDataBy chunk env st))
        = LoadNext chunk 0 \<and>
      moreBtnDisabled ((loadMoreBy chunk env ^^ ((length rowsAll - 1) div chunk)) (reloadDataBy chunk env st)) \<and>
      (\<forall>k < (length rowsAll - 1) div chunk.
         \<not> moreBtnDisabled ((loadMoreBy chunk env ^^ k) (reloadDataBy chunk env st)) \<and>
         table ((loadMoreBy chunk env ^^ k) (reloadDataBy chunk env st))
           = Some (take (chunk + k * chunk) rowsAll))) \<and>
   (columns st \<noteq> [] \<and> table st = Some shown \<longrightarrow>
      (\<exists>new. table (snd (loadAllLoop env filteredCount st)) = Some (shown @ new) \<and>
             offset (snd (loadAllLoop env filteredCount st)) = offset st + length new)) \<and>
   (offset st < filteredCount \<and>
    getRows env (currentSource st) (columns st) BATCH (offset st) (sortColumn st) (sortDirection st)
        (filters st) (columnMeta st) = Inr rows \<and>
    rows \<noteq> [] \<and> columns st \<noteq> [] \<and> table st = Some shown \<and>
    filteredCount \<le> offset st + length rows \<longrightarrow>
      loadAllLoop env filteredCount st =
        (None, st\<lparr>offset := offset st + length rows, rowOffset := rowOffset st + length rows,
                  table := Some (shown @ rows),
                  loadAllText := Progress (offset st + length rows) filteredCount\<rparr>)) \<and>
   (servesFrom env st rowsAll \<and> columns st \<noteq> [] \<and> table st = Some (take (offset st) rowsAll) \<and>
    offset st < length rowsAll \<and> (length rowsAll - offset st \<le> WARN_THRESHOLD \<or> confirmed) \<longrightarrow>
      table (loadAll env confirmed st) = Some rowsAll \<and>
      offset (loadAll env confirmed st) = length rowsAll \<and>
      moreBtnText (loadAll env confirmed st) = AllRowsLoaded \<and>
      moreBtnDisabled (loadAll env confirmed st) \<and>
      loadAllText (loadAll env confirmed st) = AllLoaded)"
proof (intro conjI impI)
  assume "getRows env (currentSource st) (columns st) chunk (offset st) (sortColumn st)
      (sortDirection st) (filters st) (columnMeta st) = Inr rows"
  then show "offset (loadMoreBy chunk env st) = offset st + length rows"
    by (rule loadMore_offset)
next
  assume "offset st < filteredCount \<and>
    getRows env (currentSource st) (columns st) BATCH (offset st) (sortColumn st) (sortDirection st)
        (filters st) (columnMeta st) = Inr rows \<and>
    rows \<noteq> [] \<and> columns st \<noteq> [] \<and> table st = Some shown"
  then show "loadAllLoop env filteredCount st =
        loadAllLoop env filteredCount
          (st\<lparr>offset := offset st + length rows, rowOffset := rowOffset st + length rows,
              table := Some (shown @ rows),
              loadAllText := Progress (offset st + length rows) filteredCount\<rparr>)"
    by (intro loadAllLoop_batch) simp_all
next
  assume A: "servesFrom env st rowsAll \<and> columns st \<noteq> [] \<and> 0 < chunk"
  let ?st0 = "reloadDataBy chunk env st"
  let ?n = "(length rowsAll - 1) div chunk"
  from A have S: "servesFrom env st rowsAll" and C: "columns st \<noteq> []" and pos: "0 < chunk"
    by simp_all
  note first = reloadData_first_page [OF S C, where chunk = chunk]
  from first have S0: "servesFrom env ?st0 rowsAll"
    and T0: "table ?st0 = Some (take (offset ?st0) rowsAll)"
    and O0: "offset ?st0 = min (length rowsAll) chunk"
    and C0: "columns ?st0 \<noteq> []"
    and D0: "moreBtnDisabled ?st0 = (length rowsAll \<le> offset ?st0)"
    using C by simp_all
  from O0 have le0: "offset ?st0 \<le> length rowsAll" by simp
  note iter = loadMore_iterate [OF S0 T0 le0 C0, where chunk = chunk]
  have offn: "offset ((loadMoreBy chunk env ^^ k) ?st0) = min (length rowsAll) (chunk + k * chunk)" for k
  proof -
    have "offset ((loadMoreBy chunk env ^^ k) ?st0) = min (length rowsAll) (offset ?st0 + k * chunk)"
      using iter [of k] by simp
    then show ?thesis by (simp add: O0 min_min_add)
  qed
  have tabn: "table ((loadMoreBy chunk env ^^ k) ?st0) = Some (take (chunk + k * chunk) rowsAll)" for k
  proof -
    have "table ((loadMoreBy chunk env ^^ k) ?st0) = Some (take (offset ((loadMoreBy chunk env ^^ k) ?st0)) rowsAll)"
      using iter [of k] by simp
    then show ?thesis by (simp add: offn take_min_length)
  qed
  have disn: "moreBtnDisabled ((loadMoreBy chunk env ^^ k) ?st0) = (length rowsAll \<le> chunk + k * chunk)" for k
  proof (cases k)
    case 0
    with D0 O0 show ?thesis by simp
  next
    case (Suc j)
    then have "moreBtnDisabled ((loadMoreBy chunk env ^^ k) ?st0) =
        (length rowsAll \<le> offset ((loadMoreBy chunk env ^^ k) ?st0))"
      using iter [of k] by simp
    then show ?thesis by (simp add: offn)
  qed
  have txtn: "0 < k \<Longrightarrow> moreBtnText ((loadMoreBy chunk env ^^ k) ?st0) =
      LoadNext chunk (int (length rowsAll) - int (min (length rowsAll) (chunk + k * chunk)))" for k
  proof -
    assume "0 < k"
    then have "moreBtnText ((loadMoreBy chunk env ^^ k) ?st0) =
        LoadNext chunk (int (length rowsAll) - int (offset ((loadMoreBy chunk env ^^ k) ?st0)))"
      using iter [of k] by simp
    then show ?thesis by (simp add: offn)
  qed
  have cover: "length rowsAll \<le> chunk + ?n * chunk"
    using pos by (rule pages_cover)
  show "table ((loadMoreBy chunk env ^^ ?n) ?st0) = Some rowsAll"
    using tabn [of ?n] cover by simp
  show "offset ((loadMoreBy chunk env ^^ ?n) ?st0) = length rowsAll"
    using offn [of ?n] cover by simp
  show "moreBtnText ((loadMoreBy chunk env ^^ ?n) ?st0) = LoadNext chunk 0"
  proof (cases "?n = 0")
    case True
    with cover have "length rowsAll \<le> chunk" by simp
    with first True show ?thesis by simp
  next
    case False
    with txtn [of ?n] cover show ?thesis by simp
  qed
  show "moreBtnDisabled ((loadMoreBy chunk env ^^ ?n) ?st0)"
    using disn [of ?n] cover by simp
  show "\<forall>k < ?n. \<not> moreBtnDisabled ((loadMoreBy chunk env ^^ k) ?st0) \<and>
         table ((loadMoreBy chunk env ^^ k) ?st0) = Some (take (chunk + k * chunk) rowsAll)"
  proof (intro allI impI)
    fix k assume "k < ?n"
    then have "chunk + k * chunk < length rowsAll" by (rule pages_before)
    with disn [of k] tabn [of k]
    show "\<not> moreBtnDisabled ((loadMoreBy chunk env ^^ k) ?st0) \<and>
         table ((loadMoreBy chunk env ^^ k) ?st0) = Some (take (chunk + k * chunk) rowsAll)"
      by simp
  qed
next
  assume "columns st \<noteq> [] \<and> table st = Some shown"
  then show "\<exists>new. table (snd (loadAllLoop env filteredCount st)) = Some (shown @ new) \<and>
             offset (snd (loadAllLoop env filteredCount st)) = offset st + length new"
    by (intro loadAllLoop_appends) simp_all
next
  assume "offset st < filteredCount \<and>
    getRows env (currentSource st) (columns st) BATCH (offset st) (sortColumn st) (sortDirection st)
        (filters st) (columnMeta st) = Inr rows \<and>
    rows \<noteq> [] \<and> columns st \<noteq> [] \<and> table st = Some shown \<and>
    filteredCount \<le> offset st + length rows"
  then show "loadAllLoop env filteredCount st =
        (None, st\<lparr>offset := offset st + length rows, rowOffset := rowOffset st + length rows,
                  table := Some (shown @ rows),
                  loadAllText := Progress (offset st + length rows) filteredCount\<rparr>)"
    by (intro loadAllLoop_short_batch) simp_all
next
  assume A: "servesFrom env st rowsAll \<and> columns st \<noteq> [] \<and> table st = Some (take (offset st) rowsAll) \<and>
    offset st < length rowsAll \<and> (length rowsAll - offset st \<le> WARN_THRESHOLD \<or> confirmed)"
  then have S: "servesFrom env st rowsAll" and C: "columns st \<noteq> []"
    and T: "table st = Some (take (offset st) rowsAll)" and O: "offset st < length rowsAll"
    and W: "length rowsAll - offset st \<le> WARN_THRESHOLD \<or> confirmed"
    by simp_all
  note all = loadAll_retrieves [OF S T O C W]
  from all show "table (loadAll env confirmed st) = Some rowsAll" by simp
  from all show "offset (loadAll env confirmed st) = length rowsAll" by simp
  from all show "moreBtnText (loadAll env confirmed st) = AllRowsLoaded" by simp
  from all show "moreBtnDisabled (loadAll env confirmed st)" by simp
  from all show "loadAllText (loadAll env confirmed st) = AllLoaded" by simp
qed

theorem load_more_retrieves_all_witness:
  "servesFrom (pagedEnv [0..<250]) (openedSession ''data.parquet'' [(''id'', ''INTEGER'')] 250) [0..<250] \<and>
   offset (loadMore (pagedEnv [0..<250])
             ((openedSession ''data.parquet'' [(''id'', ''INTEGER'')] 250)\<lparr>offset := 200\<rparr>)) = 250 \<and>
   table ((loadMore (pagedEnv [0..<250]) ^^ 2)
            (reloadData (pagedEnv [0..<250]) (openedSession ''data.parquet'' [(''id'', ''INTEGER'')] 250)))
     = Some [0..<250] \<and>
   offset ((loadMore (pagedEnv [0..<250]) ^^ 2)
             (reloadData (pagedEnv [0..<250]) (openedSession ''data.parquet'' [(''id'', ''INTEGER'')] 250)))
     = 250 \<and>
   moreBtnDisabled ((loadMore (pagedEnv [0..<250]) ^^ 2)
             (reloadData (pagedEnv [0..<250]) (openedSession ''data.parquet'' [(''id'', ''INTEGER'')] 250))) \<and>
   table ((loadMore (pagedEnv [0..<250]) ^^ 1)
            (reloadData (pagedEnv [0..<250]) (openedSession ''data.parquet'' [(''id'', ''INTEGER'')] 250)))
     = Some [0..<200] \<and>
   \<not> moreBtnDisabled ((loadMore (pagedEnv [0..<250]) ^^ 1)
            (reloadData (pagedEnv [0..<250]) (openedSession ''data.parquet'' [(''id'', ''INTEGER'')] 250))) \<and>
   offset (snd (loadAllLoop (pagedEnv [0..<250]) 250
                  ((openedSession ''data.parquet'' [(''id'', ''INTEGER'')] 250)
                     \<lparr>offset := 200, table := Some [0..<200]\<rparr>))) = 250 \<and>
   (\<exists>new. table (snd (loadAllLoop (pagedEnv [0..<250]) 250
                        ((openedSession ''data.parquet'' [(''id'', ''INTEGER'')] 250)
                           \<lparr>offset := 200, table := Some [0..<200]\<rparr>))) = Some ([0..<200] @ new) \<and>
          length new = 50) \<and>
   table (loadAll (pagedEnv [0..<2500]) False
            ((openedSession ''data.parquet'' [(''id'', ''INTEGER'')] 2500)
               \<lparr>offset := 100, table := Some [0..<100]\<rparr>)) = Some [0..<2500] \<and>
   offset (loadAll (pagedEnv [0..<2500]) False
            ((openedSession ''data.parquet'' [(''id'', ''INTEGER'')] 2500)
               \<lparr>offset := 100, table := Some [0..<100]\<rparr>)) = 2500"
proof -
  define env :: "nat env" where "env = pagedEnv [0..<250]"
  define st :: "nat session" where "st = openedSession ''data.parquet'' [(''id'', ''INTEGER'')] 250"
  have more: "loadMore env = loadMoreBy CHUNK env"
    by (rule ext) (simp add: loadMore_def)
  have reload: "reloadData env st = reloadDataBy CHUNK env st"
    by (simp add: reloadData_def)
  have S: "servesFrom env st [0..<250]"
    by (rule pagingEngine_serves [where src = "''data.parquet''"])
      (simp_all add: env_def st_def pagedEnv_def quietEnv_def openedSession_def initialSession_def)
  have S4: "servesFrom env (st\<lparr>offset := 200\<rparr>) [0..<250]"
    by (rule pagingEngine_serves [where src = "''data.parquet''"])
      (simp_all add: env_def st_def pagedEnv_def quietEnv_def openedSession_def initialSession_def)
  then have rows: "getRows env (currentSource (st\<lparr>offset := 200\<rparr>)) (columns (st\<lparr>offset := 200\<rparr>)) CHUNK
      (offset (st\<lparr>offset := 200\<rparr>)) (sortColumn (st\<lparr>offset := 200\<rparr>)) (sortDirection (st\<lparr>offset := 200\<rparr>))
      (filters (st\<lparr>offset := 200\<rparr>)) (columnMeta (st\<lparr>offset := 200\<rparr>)) = Inr (take CHUNK (drop 200 [0..<250]))"
    by (simp add: servesFrom_def)
  have C: "columns st \<noteq> []" by (simp add: st_def openedSession_def)
  have len: "length (take CHUNK (drop 200 [0..<250])) = 50" by (simp add: CHUNK_def)
  note O = load_more_retrieves_all [where env = env and st = "st\<lparr>offset := 200\<rparr>" and chunk = CHUNK
        and rows = "take CHUNK (drop 200 [0..<250])", THEN conjunct1, THEN mp, OF rows]
  have o200: "offset (st\<lparr>offset := 200\<rparr>) = 200" by simp
  have one: "offset (loadMore env (st\<lparr>offset := 200\<rparr>)) = 250"
    unfolding more O o200 len by simp
  have n: "(length [0..<250] - 1) div CHUNK = 2" by (simp add: CHUNK_def)
  have pre: "servesFrom env st [0..<250] \<and> columns st \<noteq> [] \<and> 0 < CHUNK"
    using S C by (simp add: CHUNK_def)
  note T = load_more_retrieves_all [where env = env and st = st and chunk = CHUNK
      and rowsAll = "[0..<250]", THEN conjunct2, THEN conjunct2, THEN conjunct1, THEN mp, OF pre]
  from T have t1: "table ((loadMore env ^^ 2) (reloadData env st)) = Some [0..<250]"
    unfolding n more reload by (rule conjunct1)
  from T have t2: "offset ((loadMore env ^^ 2) (reloadData env st)) = 250"
    unfolding n more reload by simp
  from T have t3: "moreBtnDisabled ((loadMore env ^^ 2) (reloadData env st))"
    unfolding n more reload by (elim conjE)
  from T have "\<forall>k<2. \<not> moreBtnDisabled ((loadMore env ^^ k) (reloadData env st)) \<and>
         table ((loadMore env ^^ k) (reloadData env st)) = Some (take (CHUNK + k * CHUNK) [0..<250])"
    unfolding n more reload by (elim conjE)
  then have "\<not> moreBtnDisabled ((loadMore env ^^ 1) (reloadData env st)) \<and>
         table ((loadMore env ^^ 1) (reloadData env st)) = Some (take (CHUNK + 1 * CHUNK) [0..<250])"
    by (elim allE [where x = 1]) simp
  then have t4: "table ((loadMore env ^^ 1) (reloadData env st)) = Some [0..<200]"
    and t5: "\<not> moreBtnDisabled ((loadMore env ^^ 1) (reloadData env st))"
    by (simp_all add: CHUNK_def)
  define st2 :: "nat session" where "st2 = st\<lparr>offset := 200, table := Some [0..<200]\<rparr>"
  define batch :: "nat list" where "batch = take BATCH (drop 200 [0..<250])"
  have f2: "offset st2 = 200" "table st2 = Some [0..<200]" "columns st2 \<noteq> []"
    by (simp_all add: st2_def st_def openedSession_def)
  have S2: "servesFrom env st2 [0..<250]"
    by (rule pagingEngine_serves [where src = "''data.parquet''"])
      (simp_all add: env_def st2_def st_def pagedEnv_def quietEnv_def openedSession_def initialSession_def)
  then have rows2: "getRows env (currentSource st2) (columns st2) BATCH (offset st2) (sortColumn st2)
      (sortDirection st2) (filters st2) (columnMeta st2) = Inr batch"
    by (simp add: servesFrom_def f2 batch_def)
  have len2: "length batch = 50" by (simp add: batch_def BATCH_def)
  then have ne2: "batch \<noteq> []" by auto
  have h5: "offset st2 < 250 \<and>
      getRows env (currentSource st2) (columns st2) BATCH (offset st2) (sortColumn st2)
        (sortDirection st2) (filters st2) (columnMeta st2) = Inr batch \<and>
      batch \<noteq> [] \<and> columns st2 \<noteq> [] \<and> table st2 = Some [0..<200] \<and>
      250 \<le> offset st2 + length batch"
    using rows2 ne2 f2 len2 by simp
  note B = load_more_retrieves_all [where env = env and st = st2 and filteredCount = 250
      and rows = batch and shown = "[0..<200]",
      THEN conjunct2, THEN conjunct2, THEN conjunct2, THEN conjunct2, THEN conjunct1, THEN mp, OF h5]
  have b1: "offset (snd (loadAllLoop env 250 st2)) = 250"
    unfolding B by (simp add: f2 len2)
  have b2: "\<exists>new. table (snd (loadAllLoop env 250 st2)) = Some ([0..<200] @ new) \<and> length new = 50"
    unfolding B using len2 by simp
  have h4: "columns st2 \<noteq> [] \<and> table st2 = Some [0..<200]"
    using f2 by simp
  note A = load_more_retrieves_all [where env = env and st = st2 and filteredCount = 250
      and shown = "[0..<200]",
      THEN conjunct2, THEN conjunct2, THEN conjunct2, THEN conjunct1, THEN mp, OF h4]
  define envL :: "nat env" where "envL = pagedEnv [0..<2500]"
  define stL :: "nat session" where
    "stL = (openedSession ''data.parquet'' [(''id'', ''INTEGER'')] 2500)\<lparr>offset := 100, table := Some [0..<100]\<rparr>"
  have SL: "servesFrom envL stL [0..<2500]"
    by (rule pagingEngine_serves [where src = "''data.parquet''"])
      (simp_all add: envL_def stL_def pagedEnv_def quietEnv_def openedSession_def initialSession_def)
  have h6: "servesFrom envL stL [0..<2500] \<and> columns stL \<noteq> [] \<and>
      table stL = Some (take (offset stL) [0..<2500]) \<and> offset stL < length [0..<2500] \<and>
      (length [0..<2500] - offset stL \<le> WARN_THRESHOLD \<or> False)"
    using SL by (simp add: stL_def openedSession_def WARN_THRESHOLD_def)
  note L = load_more_retrieves_all [where env = envL and st = stL and rowsAll = "[0..<2500]"
      and confirmed = False,
      THEN conjunct2, THEN conjunct2, THEN conjunct2, THEN conjunct2, THEN conjunct2, THEN mp, OF h6]
  from L have l1: "table (loadAll envL False stL) = Some [0..<2500]"
    by (rule conjunct1)
  from L have l2: "offset (loadAll envL False stL) = 2500"
    by simp
  show ?thesis
    using S one t1 t2 t3 t4 t5 b1 b2 l1 l2 A unfolding env_def st_def st2_def envL_def stL_def
    by (intro conjI) assumption+
qed

lemma reloadData_onRows_remaining:
  assumes "currentFilteredCount env st = Inr filteredCount" and "currentSource st = Some src"
  shows "offset (reloadData_onRows chunk env (Inr rows) st) = length rows \<and>
         moreBtnText (reloadData_onRows chunk env (Inr rows) st) =
           LoadNext chunk (int filteredCount - int (length rows)) \<and>
         moreBtnDisabled (reloadData_onRows chunk env (Inr rows) st) =
           (int filteredCount - int (length rows) \<le> 0)"
proof -
  have "currentFilteredCount env (st\<lparr>offset := length rows\<rparr>) = Inr filteredCount"
    using assms(1) currentFilteredCount_cong [of "st\<lparr>offset := length rows\<rparr>" st env] by simp
  then show ?thesis
    using assms(2)
    by (cases "columns st = []")
      (simp_all add: reloadData_onRows_alone renderRows_def showRemaining_def)
qed

lemma loadMore_onRows_remaining:
  assumes "currentFilteredCount env st = Inr filteredCount" and "columns st = [] \<or> table st \<noteq> None"
  shows "offset (loadMore_onRows chunk env (Inr rows) st) = offset st + length rows \<and>
         moreBtnText (loadMore_onRows chunk env (Inr rows) st) =
           LoadNext chunk (int filteredCount - int (offset st + length rows)) \<and>
         moreBtnDisabled (loadMore_onRows chunk env (Inr rows) st) =
           (int filteredCount - int (offset st + length rows) \<le> 0)"
proof (cases "columns st = []")
  case True
  have "currentFilteredCount env (st\<lparr>offset := offset st + length rows, table := None\<rparr>) = Inr filteredCount"
    using assms(1)
      currentFilteredCount_cong [of "st\<lparr>offset := offset st + length rows, table := None\<rparr>" st env]
    by simp
  with True show ?thesis
    by (simp add: loadMore_onRows_alone renderRows_def showRemaining_def)
next
  case False
  with assms(2) obtain shown where shown: "table st = Some shown" by auto
  show ?thesis
    by (simp add: loadMore_onRows_ok [OF assms(1) False shown] showRemaining_def)
qed

lemma loadParquet_first_page:
  assumes "schemaQuery env (''DESCRIBE SELECT * FROM '' @ readParquet source) = Inr allCols"
    and "allCols \<noteq> []"
    and "countQuery env (''SELECT COUNT(*) as cnt FROM '' @ readParquet source) = Inr n"
    and "n \<noteq> 0"
    and "getRows env (Some source) (take MAX_COLS allCols) CHUNK 0 None None []
           (getColumnMeta env source (take MAX_COLS allCols)) = Inr rows"
  shows "fst (loadParquet env source isUrl st) = None \<and>
         filters (snd (loadParquet env source isUrl st)) = [] \<and>
         totalRows (snd (loadParquet env source isUrl st)) = n \<and>
         offset (snd (loadParquet env source isUrl st)) = length rows \<and>
         moreBtnText (snd (loadParquet env source isUrl st)) =
           LoadNext CHUNK (int n - int (length rows)) \<and>
         moreBtnDisabled (snd (loadParquet env source isUrl st)) = (int n - int (length rows) \<le> 0)"
proof -
  from assms(2) have cols: "take MAX_COLS allCols \<noteq> []"
    by (cases allCols) (simp_all add: MAX_COLS_def)
  show ?thesis
    using assms cols
    by (simp add: loadParquet_alone Let_def renderRows_def updateButtons_def showRemaining_def)
qed

text \<open>
  C6. When \<^verbatim>\<open>reloadData\<close> or \<^verbatim>\<open>loadMore\<close> gets as far as showing a remaining count, the count
  shown is the filtered count minus the offset, and the button is disabled exactly when it is
  at most 0. The filtered count is the answer of a count query made in that transition, with
  the filters as they are then, when a filter is active, and the cached total otherwise. A
  load that reaches its first page has cleared the filters, and \<^verbatim>\<open>updateButtons\<close> shows the
  total it has just counted minus the offset. Sort and filter changes go through
  \<^verbatim>\<open>reloadData\<close> on the changed session.
\<close>

theorem remaining_is_count_minus_offset:
  "((if hasFilters (filters st)
     then getFilteredRowCount env (currentSource st) (filters st) (columnMeta st)
     else Inr (totalRows st)) = Inr filteredCount \<and>
    getRows env (currentSource st) (columns st) chunk 0 (sortColumn st) (sortDirection st)
      (filters st) (columnMeta st) = Inr rows \<longrightarrow>
      offset (reloadDataBy chunk env st) = length rows \<and>
      moreBtnText (reloadDataBy chunk env st) =
        LoadNext chunk (int filteredCount - int (offset (reloadDataBy chunk env st))) \<and>
      moreBtnDisabled (reloadDataBy chunk env st) =
        (int filteredCount - int (offset (reloadDataBy chunk env st)) \<le> 0)) \<and>
   ((if hasFilters (filters st)
     then getFilteredRowCount env (currentSource st) (filters st) (columnMeta st)
     else Inr (totalRows st)) = Inr filteredCount \<and>
    getRows env (currentSource st) (columns st) chunk (offset st) (sortColumn st) (sortDirection st)
      (filters st) (columnMeta st) = Inr rows \<and>
    (columns st = [] \<or> table st \<noteq> None) \<longrightarrow>
      offset (loadMoreBy chunk env st) = offset st + length rows \<and>
      moreBtnText (loadMoreBy chunk env st) =
        LoadNext chunk (int filteredCount - int (offset (loadMoreBy chunk env st))) \<and>
      moreBtnDisabled (loadMoreBy chunk env st) =
        (int filteredCount - int (offset (loadMoreBy chunk env st)) \<le> 0)) \<and>
   moreBtnText (updateButtons st) = LoadNext CHUNK (int (totalRows st) - int (offset st)) \<and>
   moreBtnDisabled (updateButtons st) = (int (totalRows st) - int (offset st) \<le> 0) \<and>
   (schemaQuery env (''DESCRIBE SELECT * FROM '' @ readParquet source) = Inr allCols \<and>
    allCols \<noteq> [] \<and>
    countQuery env (''SELECT COUNT(*) as cnt FROM '' @ readParquet source) = Inr n \<and>
    n \<noteq> 0 \<and>
    getRows env (Some source) (take MAX_COLS allCols) CHUNK 0 None None []
      (getColumnMeta env source (take MAX_COLS allCols)) = Inr rows \<longrightarrow>
      \<not> hasFilters (filters (snd (loadParquet env source isUrl st))) \<and>
      totalRows (snd (loadParquet env source isUrl st)) = n \<and>
      offset (snd (loadParquet env source isUrl st)) = length rows \<and>
      moreBtnText (snd (loadParquet env source isUrl st)) =
        LoadNext CHUNK (int (totalRows (snd (loadParquet env source isUrl st))) -
                        int (offset (snd (loadParquet env source isUrl st)))) \<and>
      moreBtnDisabled (snd (loadParquet env source isUrl st)) =
        (int (totalRows (snd (loadParquet env source isUrl st))) -
         int (offset (snd (loadParquet env source isUrl st))) \<le> 0)) \<and>
   reloadData env st = reloadDataBy CHUNK env st \<and>
   loadMore env st = loadMoreBy CHUNK env st \<and>
   handleSort env colName st = reloadDataBy CHUNK env (setSort colName st) \<and>
   handleFilter env colName v st =
     reloadDataBy CHUNK env (st\<lparr>filters := setKey (filters st) colName (Scalar v), offset := 0\<rparr>) \<and>
   handleRangeFilter env colName rangeType v st =
     reloadDataBy CHUNK env (st\<lparr>filters := setRange (filters st) colName rangeType v, offset := 0\<rparr>)"
proof (intro conjI impI)
  assume A: "(if hasFilters (filters st)
     then getFilteredRowCount env (currentSource st) (filters st) (columnMeta st)
     else Inr (totalRows st)) = Inr filteredCount \<and>
    getRows env (currentSource st) (columns st) chunk 0 (sortColumn st) (sortDirection st)
      (filters st) (columnMeta st) = Inr rows"
  define st0 where "st0 = st\<lparr>status := StatusText LoadingText, loading := True\<rparr>"
  from A have cnt: "currentFilteredCount env st0 = Inr filteredCount"
    by (auto simp: currentFilteredCount_def st0_def split: if_splits)
  from A obtain src where "currentSource st = Some src"
    by (cases "currentSource st") (auto simp: getRows_def)
  then have src: "currentSource st0 = Some src" by (simp add: st0_def)
  from A have run: "reloadDataBy chunk env st = reloadData_onRows chunk env (Inr rows) st0"
    by (simp add: reloadDataBy_def reloadData_begin_def reloadData_query_def st0_def)
  note R = reloadData_onRows_remaining [OF cnt src, of chunk rows]
  from R show "offset (reloadDataBy chunk env st) = length rows"
    unfolding run by simp
  from R show "moreBtnText (reloadDataBy chunk env st) =
        LoadNext chunk (int filteredCount - int (offset (reloadDataBy chunk env st)))"
    unfolding run by simp
  from R show "moreBtnDisabled (reloadDataBy chunk env st) =
        (int filteredCount - int (offset (reloadDataBy chunk env st)) \<le> 0)"
    unfolding run by simp
next
  assume A: "(if hasFilters (filters st)
     then getFilteredRowCount env (currentSource st) (filters st) (columnMeta st)
     else Inr (totalRows st)) = Inr filteredCount \<and>
    getRows env (currentSource st) (columns st) chunk (offset st) (sortColumn st) (sortDirection st)
      (filters st) (columnMeta st) = Inr rows \<and>
    (columns st = [] \<or> table st \<noteq> None)"
  define st0 where "st0 = st\<lparr>moreBtnText := MoreLoading, moreBtnDisabled := True\<rparr>"
  from A have cnt: "currentFilteredCount env st0 = Inr filteredCount"
    by (auto simp: currentFilteredCount_def st0_def split: if_splits)
  from A have tab: "columns st0 = [] \<or> table st0 \<noteq> None" by (simp add: st0_def)
  from A have run: "loadMoreBy chunk env st = loadMore_onRows chunk env (Inr rows) st0"
    by (simp add: loadMoreBy_def loadMore_begin_def loadMore_query_def st0_def)
  have off0: "offset st0 = offset st" by (simp add: st0_def)
  note R = loadMore_onRows_remaining [OF cnt tab, of chunk rows]
  from R show "offset (loadMoreBy chunk env st) = offset st + length rows"
    unfolding run by (simp add: off0)
  from R show "moreBtnText (loadMoreBy chunk env st) =
        LoadNext chunk (int filteredCount - int (offset (loadMoreBy chunk env st)))"
    unfolding run by (simp add: off0)
  from R show "moreBtnDisabled (loadMoreBy chunk env st) =
        (int filteredCount - int (offset (loadMoreBy chunk env st)) \<le> 0)"
    unfolding run by (simp add: off0)
next
  assume A: "schemaQuery env (''DESCRIBE SELECT * FROM '' @ readParquet source) = Inr allCols \<and>
    allCols \<noteq> [] \<and>
    countQuery env (''SELECT COUNT(*) as cnt FROM '' @ readParquet source) = Inr n \<and>
    n \<noteq> 0 \<and>
    getRows env (Some source) (take MAX_COLS allCols) CHUNK 0 None None []
      (getColumnMeta env source (take MAX_COLS allCols)) = Inr rows"
  then have L: "filters (snd (loadParquet env source isUrl st)) = [] \<and>
         totalRows (snd (loadParquet env source isUrl st)) = n \<and>
         offset (snd (loadParquet env source isUrl st)) = length rows \<and>
         moreBtnText (snd (loadParquet env source isUrl st)) =
           LoadNext CHUNK (int n - int (length rows)) \<and>
         moreBtnDisabled (snd (loadParquet env source isUrl st)) = (int n - int (length rows) \<le> 0)"
    using loadParquet_first_page [of env source allCols n rows isUrl st] by simp
  from L show "\<not> hasFilters (filters (snd (loadParquet env source isUrl st)))"
    by (simp add: hasFilters_def)
  from L show "totalRows (snd (loadParquet env source isUrl st)) = n" by simp
  from L show "offset (snd (loadParquet env source isUrl st)) = length rows" by simp
  from L show "moreBtnText (snd (loadParquet env source isUrl st)) =
        LoadNext CHUNK (int (totalRows (snd (loadParquet env source isUrl st))) -
                        int (offset (snd (loadParquet env source isUrl st))))"
    by simp
  from L show "moreBtnDisabled (snd (loadParquet env source isUrl st)) =
        (int (totalRows (snd (loadParquet env source isUrl st))) -
         int (offset (snd (loadParquet env source isUrl st))) \<le> 0)"
    by simp
qed (simp_all add: updateButtons_def showRemaining_def reloadData_def loadMore_def handleSort_def
    handleFilter_def handleRangeFilter_def)

lemmas eval_queries = getRows_def getFilteredRowCount_def readParquet_def whereClause_def
  orderByClause_def showDirection_def hasFilters_def currentFilteredCount_def

theorem remaining_is_count_minus_offset_witness:
  "hasFilters [(''name'', Scalar ''a'')] \<and>
   offset (reloadData (pagedEnv [1, 2, 3 :: nat])
     ((openedSession ''data.parquet'' [(''name'', ''VARCHAR'')] 5)\<lparr>filters := [(''name'', Scalar ''a'')]\<rparr>))
     = 3 \<and>
   moreBtnText (reloadData (pagedEnv [1, 2, 3 :: nat])
     ((openedSession ''data.parquet'' [(''name'', ''VARCHAR'')] 5)\<lparr>filters := [(''name'', Scalar ''a'')]\<rparr>))
     = LoadNext CHUNK 0 \<and>
   moreBtnDisabled (reloadData (pagedEnv [1, 2, 3 :: nat])
     ((openedSession ''data.parquet'' [(''name'', ''VARCHAR'')] 5)\<lparr>filters := [(''name'', Scalar ''a'')]\<rparr>))
     = True \<and>
   moreBtnText (loadMoreBy 2 (pagedEnv [1, 2, 3 :: nat])
     ((openedSession ''data.parquet'' [(''name'', ''VARCHAR'')] 5)
        \<lparr>filters := [(''name'', Scalar ''a'')], offset := 1, table := Some [1]\<rparr>))
     = LoadNext 2 0 \<and>
   moreBtnText (reloadDataBy 2 (pagedEnv [1, 2, 3 :: nat])
     ((openedSession ''data.parquet'' [(''name'', ''VARCHAR'')] 5)\<lparr>filters := [(''name'', Scalar ''a'')]\<rparr>))
     = LoadNext 2 1 \<and>
   moreBtnDisabled (reloadDataBy 2 (pagedEnv [1, 2, 3 :: nat])
     ((openedSession ''data.parquet'' [(''name'', ''VARCHAR'')] 5)\<lparr>filters := [(''name'', Scalar ''a'')]\<rparr>))
     = False \<and>
   moreBtnText (snd (loadParquet ((pagedEnv [1, 2, 3 :: nat])\<lparr>schemaQuery := \<lambda>sql. Inr [(''id'', ''INTEGER'')]\<rparr>)
                       ''data.parquet'' False initialSession))
     = LoadNext CHUNK 0"
proof -
  define env :: "nat env" where "env = pagedEnv [1, 2, 3]"
  define st :: "nat session" where
    "st = (openedSession ''data.parquet'' [(''name'', ''VARCHAR'')] 5)\<lparr>filters := [(''name'', Scalar ''a'')]\<rparr>"
  define st2 :: "nat session" where
    "st2 = (openedSession ''data.parquet'' [(''name'', ''VARCHAR'')] 5)
             \<lparr>filters := [(''name'', Scalar ''a'')], offset := 1, table := Some [1]\<rparr>"
  define envL :: "nat env" where
    "envL = (pagedEnv [1, 2, 3])\<lparr>schemaQuery := \<lambda>sql. Inr [(''id'', ''INTEGER'')]\<rparr>"
  have act: "hasFilters [(''name'', Scalar ''a'')]"
    by (simp add: hasFilters_def eval_strings)
  have clauses: "buildFilterClauses (\<lambda>q. []) [(''name'', Scalar ''a'')] Map.empty = Inr [textClause ''name'' ''a'']"
    by (simp add: buildFilterClauses_def clauseOf_def metaOf_def eval_strings textClause_def)
  have page: "rowsQuery env (pre @ '' LIMIT '' @ showNat limit @ '' OFFSET '' @ showNat off) =
      Inr (take limit (drop off [1, 2, 3]))" for pre limit off
    by (simp only: env_def pagedEnv_def quietEnv_def env.simps pagingEngine_page)
  have rows: "getRows env (Some ''data.parquet'') [(''name'', ''VARCHAR'')] limit off None None
      [(''name'', Scalar ''a'')] Map.empty = Inr (take limit (drop off [1, 2, 3]))" for limit off
    using page [of "''SELECT '' @ join '', '' (map (\<lambda>c. escapeColumnName (fst c)) [(''name'', ''VARCHAR'')]) @
        '' FROM '' @ readParquet ''data.parquet'' @ whereClause [textClause ''name'' ''a''] @
        orderByClause None None" limit off]
    by (simp add: getRows_def clauses env_def pagedEnv_def quietEnv_def)
  have cnt: "getFilteredRowCount env (Some ''data.parquet'') [(''name'', Scalar ''a'')] Map.empty = Inr 3"
    by (simp add: getFilteredRowCount_def clauses env_def pagedEnv_def quietEnv_def)
  have fields: "currentSource st = Some ''data.parquet''" "columns st = [(''name'', ''VARCHAR'')]"
      "sortColumn st = None" "sortDirection st = None" "filters st = [(''name'', Scalar ''a'')]"
      "columnMeta st = Map.empty" "totalRows st = 5"
    by (simp_all add: st_def openedSession_def initialSession_def)
  have fields2: "currentSource st2 = Some ''data.parquet''" "columns st2 = [(''name'', ''VARCHAR'')]"
      "sortColumn st2 = None" "sortDirection st2 = None" "filters st2 = [(''name'', Scalar ''a'')]"
      "columnMeta st2 = Map.empty" "totalRows st2 = 5" "offset st2 = 1" "table st2 = Some [1]"
    by (simp_all add: st2_def openedSession_def initialSession_def)
  have h1: "(if hasFilters (filters st)
      then getFilteredRowCount env (currentSource st) (filters st) (columnMeta st)
      else Inr (totalRows st)) = Inr 3 \<and>
     getRows env (currentSource st) (columns st) limit 0 (sortColumn st) (sortDirection st)
       (filters st) (columnMeta st) = Inr (take limit [1, 2, 3])" for limit
    using act cnt rows [of limit 0] by (simp add: fields)
  have h2: "(if hasFilters (filters st2)
      then getFilteredRowCount env (currentSource st2) (filters st2) (columnMeta st2)
      else Inr (totalRows st2)) = Inr 3 \<and>
     getRows env (currentSource st2) (columns st2) 2 (offset st2) (sortColumn st2) (sortDirection st2)
       (filters st2) (columnMeta st2) = Inr [2, 3] \<and>
     (columns st2 = [] \<or> table st2 \<noteq> None)"
    using act cnt rows [of 2 1] by (simp add: fields2)
  note T0 = remaining_is_count_minus_offset [where env = env and st = st and chunk = CHUNK
      and filteredCount = 3 and rows = "take CHUNK [1, 2, 3]", THEN conjunct1, THEN mp, OF h1]
  note T1 = remaining_is_count_minus_offset [where env = env and st = st and chunk = 2
      and filteredCount = 3 and rows = "take 2 [1, 2, 3]", THEN conjunct1, THEN mp, OF h1]
  note T2 = remaining_is_count_minus_offset [where env = env and st = st2 and chunk = 2
      and filteredCount = 3 and rows = "[2, 3]", THEN conjunct2, THEN conjunct1, THEN mp, OF h2]
  from T0 have a: "offset (reloadData env st) = 3"
    and b: "moreBtnText (reloadData env st) = LoadNext CHUNK 0"
    and c: "moreBtnDisabled (reloadData env st) = True"
    by (simp_all add: reloadData_def CHUNK_def)
  from T2 have d: "moreBtnText (loadMoreBy 2 env st2) = LoadNext 2 0"
    by (simp add: fields2)
  from T1 have e: "moreBtnText (reloadDataBy 2 env st) = LoadNext 2 1"
    and f: "moreBtnDisabled (reloadDataBy 2 env st) = False"
    by simp_all
  have sch: "schemaQuery envL (''DESCRIBE SELECT * FROM '' @ readParquet ''data.parquet'') = Inr [(''id'', ''INTEGER'')]"
    and tot: "countQuery envL (''SELECT COUNT(*) as cnt FROM '' @ readParquet ''data.parquet'') = Inr 3"
    by (simp_all add: envL_def pagedEnv_def quietEnv_def)
  have pageL: "rowsQuery envL (pre @ '' LIMIT '' @ showNat limit @ '' OFFSET '' @ showNat off) =
      Inr (take limit (drop off [1, 2, 3]))" for pre limit off
    by (simp only: envL_def pagedEnv_def quietEnv_def env.simps pagingEngine_page)
  have rowsL: "getRows envL (Some ''data.parquet'') (take MAX_COLS [(''id'', ''INTEGER'')]) CHUNK 0 None None []
      (getColumnMeta envL ''data.parquet'' (take MAX_COLS [(''id'', ''INTEGER'')])) = Inr [1, 2, 3]"
    using pageL [of "''SELECT '' @ join '', '' (map (\<lambda>c. escapeColumnName (fst c)) [(''id'', ''INTEGER'')]) @
        '' FROM '' @ readParquet ''data.parquet'' @ whereClause [] @ orderByClause None None" CHUNK 0]
    by (simp add: getRows_def buildFilterClauses_Nil MAX_COLS_def) (simp add: CHUNK_def)
  have hL: "schemaQuery envL (''DESCRIBE SELECT * FROM '' @ readParquet ''data.parquet'') = Inr [(''id'', ''INTEGER'')] \<and>
      [(''id'', ''INTEGER'')] \<noteq> [] \<and>
      countQuery envL (''SELECT COUNT(*) as cnt FROM '' @ readParquet ''data.parquet'') = Inr 3 \<and>
      (3::nat) \<noteq> 0 \<and>
      getRows envL (Some ''data.parquet'') (take MAX_COLS [(''id'', ''INTEGER'')]) CHUNK 0 None None []
        (getColumnMeta envL ''data.parquet'' (take MAX_COLS [(''id'', ''INTEGER'')])) = Inr [1, 2, 3]"
    using sch tot rowsL by simp
  note TL = remaining_is_count_minus_offset [where env = envL and source = "''data.parquet''"
      and allCols = "[(''id'', ''INTEGER'')]" and n = 3 and rows = "[1, 2, 3]" and isUrl = False
      and st = initialSession,
      THEN conjunct2, THEN conjunct2, THEN conjunct2, THEN conjunct2, THEN conjunct1, THEN mp, OF hL]
  from TL have g: "moreBtnText (snd (loadParquet envL ''data.parquet'' False initialSession)) = LoadNext CHUNK 0"
    by simp
  show ?thesis
    using act a b c d e f g unfolding env_def envL_def st_def st2_def by (intro conjI) assumption+
qed

section \<open>The timer and the load\<close>

lemma raceRun_append: "raceRun env url (a @ b) op = raceRun env url b (raceRun env url a op)"
  by (induction a arbitrary: op) simp_all

lemma loadParquet_resume_Settled:
  "isSettled pc \<Longrightarrow> loadParquet_resume env source isUrl pc st = (pc, st)"
  by (cases pc) (simp_all add: loadParquet_resume_def)

lemma loadParquet_steps_Settled:
  "isSettled (fst ls) \<Longrightarrow> loadParquet_steps env source isUrl k ls = ls"
  by (induction k) (simp_all add: loadParquet_resume_Settled)

lemma outcome_pending: "\<not> isSettled pc \<Longrightarrow> outcome pc = None"
  by (cases pc) simp_all

lemma race_before_timer:
  "\<not> isSettled (fst (loadParquet_steps env url True k ls)) \<Longrightarrow>
   raceRun env url (replicate k LoadResumes) \<lparr>load = fst ls, raceSettled = False, page = snd ls\<rparr> =
     \<lparr>load = fst (loadParquet_steps env url True k ls), raceSettled = False,
      page = snd (loadParquet_steps env url True k ls)\<rparr>"
proof (induction k arbitrary: ls)
  case 0
  then show ?case by simp
next
  case (Suc k)
  let ?ls = "loadParquet_resume env url True (fst ls) (snd ls)"
  from Suc.prems have after: "\<not> isSettled (fst (loadParquet_steps env url True k ?ls))"
    by simp
  have next_pending: "\<not> isSettled (fst ?ls)"
  proof
    assume "isSettled (fst ?ls)"
    then have "loadParquet_steps env url True k ?ls = ?ls"
      by (rule loadParquet_steps_Settled)
    with after \<open>isSettled (fst ?ls)\<close> show False by simp
  qed
  have pending: "\<not> isSettled (fst ls)"
  proof
    assume "isSettled (fst ls)"
    then have "?ls = (fst ls, snd ls)" by (rule loadParquet_resume_Settled)
    with next_pending \<open>isSettled (fst ls)\<close> show False by simp
  qed
  have step: "raceStep env url LoadResumes \<lparr>load = fst ls, raceSettled = False, page = snd ls\<rparr> =
      \<lparr>load = fst ?ls, raceSettled = False, page = snd ?ls\<rparr>"
    using pending next_pending
    by (simp add: raceStep_def case_prod_beta outcome_pending)
  show ?case
    using Suc.IH [OF after] by (simp add: step)
qed

lemma race_after_timer:
  "raceRun env url (replicate m LoadResumes) \<lparr>load = pc, raceSettled = True, page = s\<rparr> =
     \<lparr>load = fst (loadParquet_steps env url True m (pc, s)), raceSettled = True,
      page = snd (loadParquet_steps env url True m (pc, s))\<rparr>"
proof (induction m arbitrary: pc s)
  case 0
  then show ?case by simp
next
  case (Suc m)
  have step: "raceStep env url LoadResumes \<lparr>load = pc, raceSettled = True, page = s\<rparr> =
      \<lparr>load = fst (loadParquet_resume env url True pc s), raceSettled = True,
       page = snd (loadParquet_resume env url True pc s)\<rparr>"
    by (cases "isSettled pc")
      (simp_all add: raceStep_def case_prod_beta loadParquet_resume_Settled split: option.splits)
  show ?case
    using Suc.IH [of "fst (loadParquet_resume env url True pc s)" "snd (loadParquet_resume env url True pc s)"]
    by (simp add: step)
qed

lemma loadParquet_run_resume:
  "loadParquet_run env source isUrl (fst (loadParquet_resume env source isUrl pc st))
     (snd (loadParquet_resume env source isUrl pc st)) = loadParquet_run env source isUrl pc st"
  by (cases "isSettled pc") (simp_all add: loadParquet_resume_Settled loadParquet_run_step)

lemma loadParquet_run_steps:
  "loadParquet_run env source isUrl (fst (loadParquet_steps env source isUrl k ls))
     (snd (loadParquet_steps env source isUrl k ls)) = loadParquet_run env source isUrl (fst ls) (snd ls)"
  by (induction k arbitrary: ls) (simp_all add: loadParquet_run_resume)

lemma loadParquet_run_pending:
  "isSettled pc \<Longrightarrow> loadParquet_run env source isUrl pc st = (outcome pc, st)"
  by (simp add: loadParquet_run.simps)

lemma loadParquet_steps_run:
  "awaitsLeft pc \<le> m \<Longrightarrow>
     loadParquet_steps env source isUrl m (pc, s) =
       (Settled (fst (loadParquet_run env source isUrl pc s)), snd (loadParquet_run env source isUrl pc s))"
proof (induction m arbitrary: pc s)
  case 0
  then show ?case by (cases pc) (simp_all add: loadParquet_run_Settled)
next
  case (Suc m)
  show ?case
  proof (cases "isSettled pc")
    case True
    then show ?thesis
      by (cases pc) (simp_all add: loadParquet_steps_Settled loadParquet_resume_Settled loadParquet_run_Settled)
  next
    case False
    obtain pc' s' where r: "loadParquet_resume env source isUrl pc s = (pc', s')"
      by (cases "loadParquet_resume env source isUrl pc s")
    from loadParquet_resume_awaitsLeft [OF False r] Suc.prems have "awaitsLeft pc' \<le> m" by simp
    from Suc.IH [OF this, of s'] r loadParquet_run_resume [of env source isUrl pc s]
    show ?thesis by simp
  qed
qed

lemma loadParquet_resume_blind:
  "fst (loadParquet_resume env source isUrl pc (st\<lparr>status := x, loading := y\<rparr>)) =
     fst (loadParquet_resume env source isUrl pc st) \<and>
   snd (loadParquet_resume env source isUrl pc (st\<lparr>status := x, loading := y\<rparr>)) =
     (snd (loadParquet_resume env source isUrl pc st))
       \<lparr>status := status (snd (loadParquet_resume env source isUrl pc (st\<lparr>status := x, loading := y\<rparr>))),
        loading := loading (snd (loadParquet_resume env source isUrl pc (st\<lparr>status := x, loading := y\<rparr>)))\<rparr> \<and>
   (\<not> isSettled pc \<and> fst (loadParquet_resume env source isUrl pc st) = Settled None \<longrightarrow>
      snd (loadParquet_resume env source isUrl pc (st\<lparr>status := x, loading := y\<rparr>)) =
        snd (loadParquet_resume env source isUrl pc st))"
  by (cases pc)
    (auto simp: loadParquet_resume_def loadParquet_firstRows_def Let_def renderRows_fresh
      updateButtons_def showRemaining_def split: sum.splits)

lemma loadParquet_run_blind:
  "\<not> isSettled pc \<Longrightarrow> fst (loadParquet_run env source isUrl pc st) = None \<Longrightarrow>
     loadParquet_run env source isUrl pc (st\<lparr>status := x, loading := y\<rparr>) =
       loadParquet_run env source isUrl pc st"
proof (induction "awaitsLeft pc" arbitrary: pc st x y rule: less_induct)
  case less
  let ?st = "st\<lparr>status := x, loading := y\<rparr>"
  obtain pc' s' where r: "loadParquet_resume env source isUrl pc st = (pc', s')"
    by (cases "loadParquet_resume env source isUrl pc st")
  note blind = loadParquet_resume_blind [where env = env and source = source and isUrl = isUrl
      and pc = pc and st = st and x = x and y = y]
  from blind r have pc': "fst (loadParquet_resume env source isUrl pc ?st) = pc'" by simp
  from r less.prems have run: "loadParquet_run env source isUrl pc st = loadParquet_run env source isUrl pc' s'"
    by (simp add: loadParquet_run_step)
  have run': "loadParquet_run env source isUrl pc ?st =
      loadParquet_run env source isUrl pc' (snd (loadParquet_resume env source isUrl pc ?st))"
    using less.prems(1) pc' by (simp add: loadParquet_run_step)
  show ?case
  proof (cases "isSettled pc'")
    case True
    with less.prems(2) run have "pc' = Settled None"
      by (cases pc') (simp_all add: loadParquet_run_Settled)
    with blind r less.prems(1) have "snd (loadParquet_resume env source isUrl pc ?st) = s'" by simp
    with run run' show ?thesis by simp
  next
    case False
    from loadParquet_resume_awaitsLeft [OF less.prems(1) r] have lt: "awaitsLeft pc' < awaitsLeft pc" .
    from less.prems(2) run have ok: "fst (loadParquet_run env source isUrl pc' s') = None" by simp
    from blind r have "snd (loadParquet_resume env source isUrl pc ?st) =
        s'\<lparr>status := status (snd (loadParquet_resume env source isUrl pc ?st)),
           loading := loading (snd (loadParquet_resume env source isUrl pc ?st))\<rparr>"
      by simp
    then have "loadParquet_run env source isUrl pc' (snd (loadParquet_resume env source isUrl pc ?st)) =
        loadParquet_run env source isUrl pc' s'"
      using less.hyps [OF lt False ok] by metis
    with run run' show ?thesis by simp
  qed
qed

lemma timeout_box:
  "handleError env timeoutError st =
     st\<lparr>status := ErrorBox ''Error'' ''Request timed out - the server took too long to respond'' Unexpected,
        loading := False\<rparr>"
  by (simp add: handleError_def timeout_classified) (simp add: errorTitle_def timeoutError_def)

lemma race_timer_fires:
  assumes "loadParquet_steps env url True k (loadParquet_begin env url st) = (pc, s)"
    and "\<not> isSettled pc"
  shows "raceRun env url (replicate k LoadResumes @ [TimerFires]) (startRace env url st) =
           \<lparr>load = pc, raceSettled = True, page = handleError env timeoutError s\<rparr>"
proof -
  have start: "startRace env url st =
      \<lparr>load = fst (loadParquet_begin env url st), raceSettled = False,
       page = snd (loadParquet_begin env url st)\<rparr>"
    by (simp add: startRace_def case_prod_beta)
  from assms have "\<not> isSettled (fst (loadParquet_steps env url True k (loadParquet_begin env url st)))"
    by simp
  from race_before_timer [OF this] assms(1)
  have "raceRun env url (replicate k LoadResumes) (startRace env url st) =
      \<lparr>load = pc, raceSettled = False, page = s\<rparr>"
    by (simp add: start)
  then show ?thesis
    by (simp add: raceRun_append raceStep_def)
qed

lemma race_timer_then_load:
  assumes "loadParquet_steps env url True k (loadParquet_begin env url st) = (pc, s)"
    and "\<not> isSettled pc"
  shows "raceRun env url (replicate k LoadResumes @ TimerFires # replicate m LoadResumes)
           (startRace env url st) =
           \<lparr>load = fst (loadParquet_steps env url True m (pc, handleError env timeoutError s)),
            raceSettled = True,
            page = snd (loadParquet_steps env url True m (pc, handleError env timeoutError s))\<rparr>"
proof -
  have "raceRun env url (replicate k LoadResumes @ TimerFires # replicate m LoadResumes)
          (startRace env url st) =
        raceRun env url (replicate m LoadResumes)
          (raceRun env url (replicate k LoadResumes @ [TimerFires]) (startRace env url st))"
    using raceRun_append [of env url "replicate k LoadResumes @ [TimerFires]" "replicate m LoadResumes"
        "startRace env url st"]
    by simp
  then show ?thesis
    by (simp only: race_timer_fires [OF assms] race_after_timer)
qed

lemma race_late_success:
  assumes "loadParquet_steps env url True k (loadParquet_begin env url st) = (pc, s)"
    and "\<not> isSettled pc" and "awaitsLeft pc \<le> m"
    and "fst (loadParquet env url True st) = None"
  shows "page (raceRun env url (replicate k LoadResumes @ TimerFires # replicate m LoadResumes)
           (startRace env url st)) = snd (loadParquet env url True st)"
proof -
  have alone: "loadParquet env url True st = loadParquet_run env url True pc s"
    using loadParquet_run_steps [of env url True k "loadParquet_begin env url st"] assms(1)
    by (simp add: loadParquet_def case_prod_beta)
  with assms(4) have ok: "fst (loadParquet_run env url True pc s) = None" by simp
  have "snd (loadParquet_steps env url True m (pc, handleError env timeoutError s)) =
      snd (loadParquet_run env url True pc (handleError env timeoutError s))"
    by (simp add: loadParquet_steps_run [OF assms(3)])
  also have "\<dots> = snd (loadParquet_run env url True pc s)"
    by (simp add: timeout_box loadParquet_run_blind [OF assms(2) ok])
  finally show ?thesis
    by (simp add: race_timer_then_load [OF assms(1,2)] alone)
qed

lemma loadParquet_loaded:
  assumes "schemaQuery env (''DESCRIBE SELECT * FROM '' @ readParquet source) = Inr allCols"
    and "allCols \<noteq> []"
    and "countQuery env (''SELECT COUNT(*) as cnt FROM '' @ readParquet source) = Inr n"
    and "n \<noteq> 0"
    and "getRows env (Some source) (take MAX_COLS allCols) CHUNK 0 None None []
           (getColumnMeta env source (take MAX_COLS allCols)) = Inr rows"
  shows "status (snd (loadParquet env source isUrl st)) =
           StatusText (Loaded (if isUrl then fileName source else source) n (length allCols)
                         (if isUrl then fetchSize env source else None)) \<and>
         loading (snd (loadParquet env source isUrl st)) = False \<and>
         table (snd (loadParquet env source isUrl st)) = Some rows"
proof -
  from assms(2) have cols: "take MAX_COLS allCols \<noteq> []"
    by (cases allCols) (simp_all add: MAX_COLS_def)
  show ?thesis
    using assms cols
    by (simp add: loadParquet_alone Let_def renderRows_def updateButtons_def showRemaining_def)
qed

lemma remote_answers:
  "schemaQuery remoteEnv (''DESCRIBE SELECT * FROM '' @ readParquet remoteUrl) = Inr [(''id'', ''INTEGER'')]"
  "countQuery remoteEnv (''SELECT COUNT(*) as cnt FROM '' @ readParquet remoteUrl) = Inr 3"
  "getRows remoteEnv (Some remoteUrl) (take MAX_COLS [(''id'', ''INTEGER'')]) CHUNK 0 None None []
      (getColumnMeta remoteEnv remoteUrl (take MAX_COLS [(''id'', ''INTEGER'')])) = Inr [1, 2, 3]"
  "fetchSize remoteEnv remoteUrl = None"
proof -
  show "schemaQuery remoteEnv (''DESCRIBE SELECT * FROM '' @ readParquet remoteUrl) = Inr [(''id'', ''INTEGER'')]"
    and "countQuery remoteEnv (''SELECT COUNT(*) as cnt FROM '' @ readParquet remoteUrl) = Inr 3"
    and "fetchSize remoteEnv remoteUrl = None"
    by (simp_all add: remoteEnv_def pagedEnv_def quietEnv_def)
  have page: "rowsQuery remoteEnv (pre @ '' LIMIT '' @ showNat limit @ '' OFFSET '' @ showNat off) =
      Inr (take limit (drop off [1, 2, 3]))" for pre limit off
    by (simp only: remoteEnv_def pagedEnv_def quietEnv_def env.simps pagingEngine_page)
  show "getRows remoteEnv (Some remoteUrl) (take MAX_COLS [(''id'', ''INTEGER'')]) CHUNK 0 None None []
      (getColumnMeta remoteEnv remoteUrl (take MAX_COLS [(''id'', ''INTEGER'')])) = Inr [1, 2, 3]"
    using page [of "''SELECT '' @ join '', '' (map (\<lambda>c. escapeColumnName (fst c)) [(''id'', ''INTEGER'')]) @
        '' FROM '' @ readParquet remoteUrl @ whereClause [] @ orderByClause None None" CHUNK 0]
    by (simp add: getRows_def buildFilterClauses_Nil MAX_COLS_def) (simp add: CHUNK_def)
qed

lemma remote_schema: "schemaQuery remoteEnv sql = Inr [(''id'', ''INTEGER'')]"
  by (simp add: remoteEnv_def pagedEnv_def quietEnv_def)

lemma remote_count: "countQuery remoteEnv sql = Inr 3"
  by (simp add: remoteEnv_def pagedEnv_def quietEnv_def)

lemma remote_load:
  "fst (loadParquet remoteEnv remoteUrl True st) = None"
  "status (snd (loadParquet remoteEnv remoteUrl True st)) = StatusText (Loaded (fileName remoteUrl) 3 1 None)"
  "table (snd (loadParquet remoteEnv remoteUrl True st)) = Some [1, 2, 3]"
  using loadParquet_first_page [OF remote_answers(1) _ remote_answers(2) _ remote_answers(3), of True st]
    loadParquet_loaded [OF remote_answers(1) _ remote_answers(2) _ remote_answers(3), of True st]
  by (simp_all add: remote_answers(4))

text \<open>
  C8 (amended). When the timer fires while the load of the URL is still waiting at one of
  its calls, the waiting ends and the timeout error is shown at once, as the generic error
  and with the loading mark removed: its message holds none of the texts that mark a
  cross-origin, a network or a malformed-file error. The load is not cancelled: every call
  of it that is answered later resumes it on the page that shows the error, and an error the
  load ends with then is shown nowhere. The timeout error stays on the page when no call is
  answered later; when the calls are all answered and the load succeeds, the page ends as if
  no timer had fired.
\<close>

theorem timeout_shown_as_unexpected:
  assumes "loadParquet_steps env url True (settledInTime 0 ds) (loadParquet_begin env url st) = (pc, s)"
    and "\<not> isSettled pc"
  shows "page (raceRun env url (replicate (settledInTime 0 ds) LoadResumes @ [TimerFires])
                 (startRace env url st)) = handleError env timeoutError s \<and>
         status (handleError env timeoutError s) =
           ErrorBox ''Error'' ''Request timed out - the server took too long to respond'' Unexpected \<and>
         loading (handleError env timeoutError s) = False \<and>
         raceSettled (openUrl env url ds st) \<and>
         page (openUrl env url ds st) =
           snd (loadParquet_steps env url True (settledLate ds) (pc, handleError env timeoutError s)) \<and>
         (settledLate ds = 0 \<longrightarrow> page (openUrl env url ds st) = handleError env timeoutError s) \<and>
         (awaitsLeft pc \<le> settledLate ds \<and> fst (loadParquet env url True st) = None \<longrightarrow>
            page (openUrl env url ds st) = snd (loadParquet env url True st))"
proof (intro conjI impI)
  show "page (raceRun env url (replicate (settledInTime 0 ds) LoadResumes @ [TimerFires])
                 (startRace env url st)) = handleError env timeoutError s"
    by (simp add: race_timer_fires [OF assms])
  show "status (handleError env timeoutError s) =
           ErrorBox ''Error'' ''Request timed out - the server took too long to respond'' Unexpected"
    by (simp add: timeout_box)
  show "loading (handleError env timeoutError s) = False"
    by (simp add: timeout_box)
  show "raceSettled (openUrl env url ds st)"
    by (simp add: openUrl_def scheduleOf_def race_timer_then_load [OF assms])
  show late: "page (openUrl env url ds st) =
           snd (loadParquet_steps env url True (settledLate ds) (pc, handleError env timeoutError s))"
    by (simp add: openUrl_def scheduleOf_def race_timer_then_load [OF assms])
  show "page (openUrl env url ds st) = handleError env timeoutError s" if "settledLate ds = 0"
    using late that by simp
  show "page (openUrl env url ds st) = snd (loadParquet env url True st)"
    if "awaitsLeft pc \<le> settledLate ds \<and> fst (loadParquet env url True st) = None"
    using race_late_success [OF assms, of "settledLate ds"] that
    by (simp add: openUrl_def scheduleOf_def)
qed

theorem timeout_shown_as_unexpected_witness:
  "settledInTime 0 [Some 100, None] = 1 \<and> settledLate [Some 100, None] = 0 \<and>
   status (page (openUrl remoteEnv remoteUrl [Some 100, None] initialSession)) =
     ErrorBox ''Error'' ''Request timed out - the server took too long to respond'' Unexpected \<and>
   settledInTime 0 [Some 31000, Some 5, Some 5, Some 5, Some 5] = 0 \<and>
   settledLate [Some 31000, Some 5, Some 5, Some 5, Some 5] = 5 \<and>
   page (openUrl remoteEnv remoteUrl [Some 31000, Some 5, Some 5, Some 5, Some 5] initialSession) =
     snd (loadParquet remoteEnv remoteUrl True initialSession)"
proof -
  define st :: "nat session" where "st = initialSession"
  define ls1 where "ls1 = loadParquet_steps remoteEnv remoteUrl True (settledInTime 0 [Some 100, None])
      (loadParquet_begin remoteEnv remoteUrl st)"
  define ls2 where "ls2 = loadParquet_steps remoteEnv remoteUrl True
      (settledInTime 0 [Some 31000, Some 5, Some 5, Some 5, Some 5])
      (loadParquet_begin remoteEnv remoteUrl st)"
  have k1: "settledInTime 0 [Some 100, None] = 1" and m1: "settledLate [Some 100, None] = 0"
    by (simp_all add: settledLate_def TIMEOUT_MS_def)
  have k2: "settledInTime 0 [Some 31000, Some 5, Some 5, Some 5, Some 5] = 0"
    and m2: "settledLate [Some 31000, Some 5, Some 5, Some 5, Some 5] = 5"
    by (simp_all add: settledLate_def TIMEOUT_MS_def)
  have a1: "loadParquet_steps remoteEnv remoteUrl True (settledInTime 0 [Some 100, None])
      (loadParquet_begin remoteEnv remoteUrl st) = (fst ls1, snd ls1)"
    by (simp add: ls1_def)
  have p1: "\<not> isSettled (fst ls1)"
    by (simp add: ls1_def TIMEOUT_MS_def loadParquet_begin_def loadParquet_resume_def remote_schema
        remote_count Let_def)
  have a2: "loadParquet_steps remoteEnv remoteUrl True
      (settledInTime 0 [Some 31000, Some 5, Some 5, Some 5, Some 5])
      (loadParquet_begin remoteEnv remoteUrl st) = (fst ls2, snd ls2)"
    by (simp add: ls2_def)
  have p2: "\<not> isSettled (fst ls2)" and l2: "awaitsLeft (fst ls2) = 5"
    by (simp_all add: ls2_def TIMEOUT_MS_def loadParquet_begin_def)
  note A = timeout_shown_as_unexpected [OF a1 p1]
  note B = timeout_shown_as_unexpected [OF a2 p2]
  from A m1 have "page (openUrl remoteEnv remoteUrl [Some 100, None] st) =
      handleError remoteEnv timeoutError (snd ls1)"
    by simp
  with A have s1: "status (page (openUrl remoteEnv remoteUrl [Some 100, None] st)) =
      ErrorBox ''Error'' ''Request timed out - the server took too long to respond'' Unexpected"
    by simp
  have ok: "awaitsLeft (fst ls2) \<le> settledLate [Some 31000, Some 5, Some 5, Some 5, Some 5] \<and>
      fst (loadParquet remoteEnv remoteUrl True st) = None"
    by (simp add: l2 m2 remote_load)
  from B ok have s2: "page (openUrl remoteEnv remoteUrl [Some 31000, Some 5, Some 5, Some 5, Some 5] st) =
      snd (loadParquet remoteEnv remoteUrl True st)"
    by (elim conjE) (erule mp, rule ok)
  show ?thesis
    using k1 m1 s1 k2 m2 s2 unfolding st_def by (intro conjI) assumption+
qed

text \<open>
  As stated, C8 fails on both counts. The timeout error is not a network error for
  \<^verbatim>\<open>handleError\<close>, which gives it the title and the suggestion of the generic error. And
  the load is not abandoned: when the engine answers after the timer has fired, the load
  goes on, and the page ends with the file loaded and no error on it; when a later call
  fails, its error is shown nowhere and the page stays on the status the load wrote last.
\<close>

theorem timeout_counterexample:
  "\<not> isNetworkError timeoutError \<and>
   classify (Some remoteUrl) timeoutError = Unexpected \<and>
   status (page (openUrl remoteEnv remoteUrl [None] initialSession)) =
     ErrorBox ''Error'' ''Request timed out - the server took too long to respond'' Unexpected \<and>
   status (page (openUrl remoteEnv remoteUrl [None] initialSession)) \<noteq>
     ErrorBox ''Network Error'' ''Request timed out - the server took too long to respond'' NetworkError \<and>
   status (page (openUrl remoteEnv remoteUrl [Some 31000, Some 5, Some 5, Some 5, Some 5] initialSession)) =
     StatusText (Loaded (fileName remoteUrl) 3 1 None) \<and>
   table (page (openUrl remoteEnv remoteUrl [Some 31000, Some 5, Some 5, Some 5, Some 5] initialSession)) =
     Some [1, 2, 3] \<and>
   load (openUrl failingEnv remoteUrl [Some 31000, Some 5] initialSession) =
     Settled (Some (Error ''IO Error: connection reset'')) \<and>
   status (page (openUrl failingEnv remoteUrl [Some 31000, Some 5] initialSession)) =
     StatusText CountingRows"
proof -
  define st :: "nat session" where "st = initialSession"
  have start: "loadParquet_steps env remoteUrl True 0 (loadParquet_begin env remoteUrl st) =
      (fst (loadParquet_begin env remoteUrl st), snd (loadParquet_begin env remoteUrl st))"
    and pending: "\<not> isSettled (fst (loadParquet_begin env remoteUrl st))"
    and left: "awaitsLeft (fst (loadParquet_begin env remoteUrl st)) \<le> 5" for env :: "nat env"
    by (simp_all add: loadParquet_begin_def)
  have k: "settledInTime 0 [None] = 0" "settledInTime 0 [Some 31000, Some 5, Some 5, Some 5, Some 5] = 0"
      "settledInTime 0 [Some 31000, Some 5] = 0"
    by (simp_all add: TIMEOUT_MS_def)
  have m: "settledLate [None] = 0" "settledLate [Some 31000, Some 5, Some 5, Some 5, Some 5] = 5"
      "settledLate [Some 31000, Some 5] = 2"
    by (simp_all add: settledLate_def TIMEOUT_MS_def)
  have hang: "status (page (openUrl remoteEnv remoteUrl [None] st)) =
      ErrorBox ''Error'' ''Request timed out - the server took too long to respond'' Unexpected"
    unfolding openUrl_def scheduleOf_def k m race_timer_then_load [OF start pending]
    by (simp add: timeout_box)
  have late: "page (openUrl remoteEnv remoteUrl [Some 31000, Some 5, Some 5, Some 5, Some 5] st) =
      snd (loadParquet remoteEnv remoteUrl True st)"
    unfolding openUrl_def scheduleOf_def k m
    by (rule race_late_success [OF start pending left]) (rule remote_load)
  have fail: "loadParquet_steps failingEnv remoteUrl True 2
      (fst (loadParquet_begin failingEnv remoteUrl st),
       handleError failingEnv timeoutError (snd (loadParquet_begin failingEnv remoteUrl st))) =
      (Settled (Some (Error ''IO Error: connection reset'')),
       (handleError failingEnv timeoutError (snd (loadParquet_begin failingEnv remoteUrl st)))
         \<lparr>columns := [(''id'', ''INTEGER'')], status := StatusText CountingRows\<rparr>)"
    by (simp add: numeral_2_eq_2 loadParquet_begin_def loadParquet_resume_def failingEnv_def
        remoteEnv_def pagedEnv_def quietEnv_def MAX_COLS_def)
  have swallowed: "load (openUrl failingEnv remoteUrl [Some 31000, Some 5] st) =
        Settled (Some (Error ''IO Error: connection reset''))"
      "status (page (openUrl failingEnv remoteUrl [Some 31000, Some 5] st)) =
        StatusText CountingRows"
    unfolding openUrl_def scheduleOf_def k m race_timer_then_load [OF start pending] fail
    by simp_all
  show ?thesis
    using timeout_tests [of "Some remoteUrl"] timeout_classified [of "Some remoteUrl"] hang
      swallowed late remote_load(2,3) [of st]
    unfolding st_def by simp
qed

section \<open>Overlapping transitions\<close>

lemma reloadData_onRows_written:
  assumes "currentSource st = Some src" and "columns st \<noteq> []"
    and "currentFilteredCount env st = Inr n"
  shows "table (reloadData_onRows chunk env (Inr rows) st) = Some rows \<and>
         offset (reloadData_onRows chunk env (Inr rows) st) = length rows \<and>
         currentSource (reloadData_onRows chunk env (Inr rows) st) = Some src \<and>
         columns (reloadData_onRows chunk env (Inr rows) st) = columns st \<and>
         currentFilteredCount env (reloadData_onRows chunk env (Inr rows) st) = Inr n \<and>
         sortColumn (reloadData_onRows chunk env (Inr rows) st) = sortColumn st \<and>
         sortDirection (reloadData_onRows chunk env (Inr rows) st) = sortDirection st \<and>
         filters (reloadData_onRows chunk env (Inr rows) st) = filters st"
proof -
  note run = reloadData_onRows_ok [OF assms(3,2,1), of chunk rows]
  have "currentFilteredCount env (reloadData_onRows chunk env (Inr rows) st) = currentFilteredCount env st"
    unfolding run by (rule currentFilteredCount_cong) simp_all
  with assms show ?thesis
    unfolding run by simp
qed

lemma reloadData_show_written:
  assumes "columns st \<noteq> []"
  shows "table (reloadData_show chunk env rows filtered n st) = Some rows \<and>
         offset (reloadData_show chunk env rows filtered n st) = offset st \<and>
         columns (reloadData_show chunk env rows filtered n st) = columns st \<and>
         sortColumn (reloadData_show chunk env rows filtered n st) = sortColumn st \<and>
         sortDirection (reloadData_show chunk env rows filtered n st) = sortDirection st \<and>
         filters (reloadData_show chunk env rows filtered n st) = filters st"
  using assms by (cases "currentSource st") (simp_all add: reloadData_show_def renderRows_def)

lemma reloadData_show_keeps:
  "offset (reloadData_show chunk env rows filtered n st) = offset st \<and>
   sortColumn (reloadData_show chunk env rows filtered n st) = sortColumn st \<and>
   sortDirection (reloadData_show chunk env rows filtered n st) = sortDirection st \<and>
   filters (reloadData_show chunk env rows filtered n st) = filters st"
  by (cases "currentSource st"; cases "columns st = []")
    (simp_all add: reloadData_show_def renderRows_def)

lemma reloadData_show_columns:
  "columns (reloadData_show chunk env rows filtered n st) = columns st"
  by (cases "currentSource st"; cases "columns st = []")
    (simp_all add: reloadData_show_def renderRows_def)

lemma reloadData_arrive_keeps:
  "offset (snd (reloadData_arrive chunk env (Inr rows) st)) = length rows \<and>
   columns (snd (reloadData_arrive chunk env (Inr rows) st)) = columns st \<and>
   sortColumn (snd (reloadData_arrive chunk env (Inr rows) st)) = sortColumn st \<and>
   sortDirection (snd (reloadData_arrive chunk env (Inr rows) st)) = sortDirection st \<and>
   filters (snd (reloadData_arrive chunk env (Inr rows) st)) = filters st"
  using reloadData_show_keeps [of chunk env rows False "totalRows st" "st\<lparr>offset := length rows\<rparr>"]
    reloadData_show_columns [of chunk env rows False "totalRows st" "st\<lparr>offset := length rows\<rparr>"]
  by (cases "hasFilters (filters st)") (simp_all add: reloadData_arrive_def Let_def)

lemma reloadData_arrive_unfiltered:
  assumes "\<not> hasFilters (filters st)"
  shows "reloadData_arrive chunk env res st = (ReloadEnded, reloadData_onRows chunk env res st)"
  using assms by (cases res) (simp_all add: reloadData_onRows_def reloadData_arrive_def Let_def)

lemma reloadData_arrive_table:
  assumes "\<not> hasFilters (filters st)" and "columns st \<noteq> []"
  shows "fst (reloadData_arrive chunk env (Inr rows) st) = ReloadEnded \<and>
         table (snd (reloadData_arrive chunk env (Inr rows) st)) = Some rows"
  using assms reloadData_show_written [of "st\<lparr>offset := length rows\<rparr>" chunk env rows False "totalRows st"]
  by (simp add: reloadData_arrive_def Let_def)

lemma reloadData_arrive_filtered:
  assumes "hasFilters (filters st)"
  shows "reloadData_arrive chunk env (Inr rows) st =
           (ReloadAwaitsCount rows
              (getFilteredRowCount env (currentSource st) (filters st) (columnMeta st)),
            st\<lparr>offset := length rows\<rparr>)"
  using assms by (simp add: reloadData_arrive_def Let_def)

lemma reloadData_onCount_written:
  assumes "columns st \<noteq> []"
  shows "table (reloadData_onCount chunk env rows (Inr n) st) = Some rows \<and>
         offset (reloadData_onCount chunk env rows (Inr n) st) = offset st \<and>
         columns (reloadData_onCount chunk env rows (Inr n) st) = columns st \<and>
         sortColumn (reloadData_onCount chunk env rows (Inr n) st) = sortColumn st \<and>
         sortDirection (reloadData_onCount chunk env rows (Inr n) st) = sortDirection st \<and>
         filters (reloadData_onCount chunk env rows (Inr n) st) = filters st"
  using reloadData_show_written [OF assms] by (simp add: reloadData_onCount_def)

lemma loadMore_arrive_appended:
  assumes "columns st \<noteq> []" and "table st = Some shown"
  shows "table (snd (loadMore_arrive chunk env (Inr rows) st)) = Some (shown @ rows) \<and>
         offset (snd (loadMore_arrive chunk env (Inr rows) st)) = offset st + length rows"
  using assms by (simp add: loadMore_arrive_def renderRows_def)

text \<open>
  C9 (amended). Queries carry no generation, and no answer is discarded. Each part of a
  transition writes what it has into the session as it is when the awaited answer arrives,
  whatever has started since the query was issued, and leaves the sort and filter state as it
  finds it. When the rows of a reload arrive the offset becomes their number; the table is
  replaced by them in the same step when no filter is active, and when the count arrives
  otherwise. The rows of a load-more are appended to the table that is there. So with two
  reloads in flight and no filter active the session ends with the rows that arrive last,
  also when they are those of the older reload; with a filter active the table and the offset
  can come from different reloads.
\<close>

theorem results_applied_in_arrival_order:
  "offset (snd (reloadData_arrive chunk env (Inr rows) st)) = length rows \<and>
   sortColumn (snd (reloadData_arrive chunk env (Inr rows) st)) = sortColumn st \<and>
   sortDirection (snd (reloadData_arrive chunk env (Inr rows) st)) = sortDirection st \<and>
   filters (snd (reloadData_arrive chunk env (Inr rows) st)) = filters st \<and>
   (\<not> hasFilters (filters st) \<and> columns st \<noteq> [] \<longrightarrow>
      fst (reloadData_arrive chunk env (Inr rows) st) = ReloadEnded \<and>
      table (snd (reloadData_arrive chunk env (Inr rows) st)) = Some rows) \<and>
   (hasFilters (filters st) \<longrightarrow>
      reloadData_arrive chunk env (Inr rows) st =
        (ReloadAwaitsCount rows
           (getFilteredRowCount env (currentSource st) (filters st) (columnMeta st)),
         st\<lparr>offset := length rows\<rparr>)) \<and>
   (columns st \<noteq> [] \<longrightarrow>
      table (reloadData_onCount chunk env rows (Inr n) st) = Some rows \<and>
      offset (reloadData_onCount chunk env rows (Inr n) st) = offset st \<and>
      sortColumn (reloadData_onCount chunk env rows (Inr n) st) = sortColumn st \<and>
      sortDirection (reloadData_onCount chunk env rows (Inr n) st) = sortDirection st \<and>
      filters (reloadData_onCount chunk env rows (Inr n) st) = filters st) \<and>
   (columns st \<noteq> [] \<and> table st = Some shown \<longrightarrow>
      table (snd (loadMore_arrive chunk env (Inr rows) st)) = Some (shown @ rows) \<and>
      offset (snd (loadMore_arrive chunk env (Inr rows) st)) = offset st + length rows) \<and>
   (\<not> hasFilters (filters st) \<and> columns st \<noteq> [] \<longrightarrow>
      table (snd (reloadData_arrive chunk env (Inr rowsOld)
                    (snd (reloadData_arrive chunk env (Inr rowsNew) st)))) = Some rowsOld \<and>
      offset (snd (reloadData_arrive chunk env (Inr rowsOld)
                     (snd (reloadData_arrive chunk env (Inr rowsNew) st)))) = length rowsOld) \<and>
   (hasFilters (filters st) \<and> columns st \<noteq> [] \<longrightarrow>
      table (reloadData_onCount chunk env rowsOld (Inr nOld)
               (reloadData_onCount chunk env rowsNew (Inr nNew)
                  (snd (reloadData_arrive chunk env (Inr rowsNew)
                          (snd (reloadData_arrive chunk env (Inr rowsOld) st)))))) = Some rowsOld \<and>
      offset (reloadData_onCount chunk env rowsOld (Inr nOld)
                (reloadData_onCount chunk env rowsNew (Inr nNew)
                   (snd (reloadData_arrive chunk env (Inr rowsNew)
                           (snd (reloadData_arrive chunk env (Inr rowsOld) st)))))) = length rowsNew)"
proof (intro conjI impI)
  note keeps = reloadData_arrive_keeps [of chunk env rows st]
  from keeps show "offset (snd (reloadData_arrive chunk env (Inr rows) st)) = length rows" by simp
  from keeps show "sortColumn (snd (reloadData_arrive chunk env (Inr rows) st)) = sortColumn st" by simp
  from keeps show "sortDirection (snd (reloadData_arrive chunk env (Inr rows) st)) = sortDirection st" by simp
  from keeps show "filters (snd (reloadData_arrive chunk env (Inr rows) st)) = filters st" by simp
next
  assume A: "\<not> hasFilters (filters st) \<and> columns st \<noteq> []"
  then have nf: "\<not> hasFilters (filters st)" and ne: "columns st \<noteq> []" by simp_all
  note first = reloadData_arrive_table [OF nf ne, of chunk env rows]
  from first show "fst (reloadData_arrive chunk env (Inr rows) st) = ReloadEnded" by simp
  from first show "table (snd (reloadData_arrive chunk env (Inr rows) st)) = Some rows" by simp
next
  assume "hasFilters (filters st)"
  then show "reloadData_arrive chunk env (Inr rows) st =
        (ReloadAwaitsCount rows
           (getFilteredRowCount env (currentSource st) (filters st) (columnMeta st)),
         st\<lparr>offset := length rows\<rparr>)"
    by (rule reloadData_arrive_filtered)
next
  assume ne: "columns st \<noteq> []"
  note w = reloadData_onCount_written [OF ne, of chunk env rows n]
  from w show "table (reloadData_onCount chunk env rows (Inr n) st) = Some rows" by simp
  from w show "offset (reloadData_onCount chunk env rows (Inr n) st) = offset st" by simp
  from w show "sortColumn (reloadData_onCount chunk env rows (Inr n) st) = sortColumn st" by simp
  from w show "sortDirection (reloadData_onCount chunk env rows (Inr n) st) = sortDirection st" by simp
  from w show "filters (reloadData_onCount chunk env rows (Inr n) st) = filters st" by simp
next
  assume A: "columns st \<noteq> [] \<and> table st = Some shown"
  then have ne: "columns st \<noteq> []" and t: "table st = Some shown" by simp_all
  note w = loadMore_arrive_appended [OF ne t, of chunk env rows]
  from w show "table (snd (loadMore_arrive chunk env (Inr rows) st)) = Some (shown @ rows)" by simp
  from w show "offset (snd (loadMore_arrive chunk env (Inr rows) st)) = offset st + length rows" by simp
next
  assume A: "\<not> hasFilters (filters st) \<and> columns st \<noteq> []"
  let ?s1 = "snd (reloadData_arrive chunk env (Inr rowsNew) st)"
  from A reloadData_arrive_keeps [of chunk env rowsNew st]
  have nf: "\<not> hasFilters (filters ?s1)" and ne: "columns ?s1 \<noteq> []" by simp_all
  note second = reloadData_arrive_table [OF nf ne, of chunk env rowsOld]
  from second show "table (snd (reloadData_arrive chunk env (Inr rowsOld) ?s1)) = Some rowsOld" by simp
  show "offset (snd (reloadData_arrive chunk env (Inr rowsOld) ?s1)) = length rowsOld"
    using reloadData_arrive_keeps [of chunk env rowsOld ?s1] by simp
next
  assume A: "hasFilters (filters st) \<and> columns st \<noteq> []"
  let ?s1 = "snd (reloadData_arrive chunk env (Inr rowsOld) st)"
  let ?s2 = "snd (reloadData_arrive chunk env (Inr rowsNew) ?s1)"
  let ?s3 = "reloadData_onCount chunk env rowsNew (Inr nNew) ?s2"
  have k1: "columns ?s1 = columns st"
    using reloadData_arrive_keeps [of chunk env rowsOld st] by simp
  have k2: "columns ?s2 = columns st" "offset ?s2 = length rowsNew"
    using reloadData_arrive_keeps [of chunk env rowsNew ?s1] k1 by simp_all
  from A k2 have ne2: "columns ?s2 \<noteq> []" by simp
  have k3: "columns ?s3 = columns st" "offset ?s3 = length rowsNew"
    using reloadData_onCount_written [OF ne2, of chunk env rowsNew nNew] k2 by simp_all
  from A k3 have ne3: "columns ?s3 \<noteq> []" by simp
  note last = reloadData_onCount_written [OF ne3, of chunk env rowsOld nOld]
  from last show "table (reloadData_onCount chunk env rowsOld (Inr nOld) ?s3) = Some rowsOld" by simp
  from last k3 show "offset (reloadData_onCount chunk env rowsOld (Inr nOld) ?s3) = length rowsNew" by simp
qed

theorem results_applied_in_arrival_order_witness:
  "table (snd (reloadData_arrive CHUNK quietEnv (Inr [1, 2, 3 :: nat])
            (snd (reloadData_arrive CHUNK quietEnv (Inr [3, 2, 1])
               ((openedSession ''data.parquet'' [(''A'', ''INTEGER''), (''B'', ''INTEGER'')] 3)
                  \<lparr>sortColumn := Some ''B'', sortDirection := Some ASC\<rparr>))))) = Some [1, 2, 3] \<and>
   table (snd (loadMore_arrive CHUNK quietEnv (Inr [4, 5 :: nat])
            ((openedSession ''data.parquet'' [(''A'', ''INTEGER''), (''B'', ''INTEGER'')] 5)
               \<lparr>offset := 3, table := Some [1, 2, 3]\<rparr>))) = Some [1, 2, 3, 4, 5] \<and>
   hasFilters [(''name'', Scalar ''a'')] \<and>
   table (snd (reloadData_arrive CHUNK quietEnv (Inr [1, 2, 3 :: nat])
            ((openedSession ''data.parquet'' [(''name'', ''VARCHAR'')] 5)
               \<lparr>filters := [(''name'', Scalar ''a'')]\<rparr>))) = Some [] \<and>
   table (reloadData_onCount CHUNK quietEnv [1, 2, 3 :: nat] (Inr 3)
            (reloadData_onCount CHUNK quietEnv [4, 5] (Inr 2)
               (snd (reloadData_arrive CHUNK quietEnv (Inr [4, 5])
                  (snd (reloadData_arrive CHUNK quietEnv (Inr [1, 2, 3])
                     ((openedSession ''data.parquet'' [(''name'', ''VARCHAR'')] 5)
                        \<lparr>filters := [(''name'', Scalar ''a'')]\<rparr>))))))) = Some [1, 2, 3] \<and>
   offset (reloadData_onCount CHUNK quietEnv [1, 2, 3 :: nat] (Inr 3)
            (reloadData_onCount CHUNK quietEnv [4, 5] (Inr 2)
               (snd (reloadData_arrive CHUNK quietEnv (Inr [4, 5])
                  (snd (reloadData_arrive CHUNK quietEnv (Inr [1, 2, 3])
                     ((openedSession ''data.parquet'' [(''name'', ''VARCHAR'')] 5)
                        \<lparr>filters := [(''name'', Scalar ''a'')]\<rparr>))))))) = 2"
proof -
  define stN :: "nat session" where
    "stN = (openedSession ''data.parquet'' [(''A'', ''INTEGER''), (''B'', ''INTEGER'')] 3)
             \<lparr>sortColumn := Some ''B'', sortDirection := Some ASC\<rparr>"
  define stM :: "nat session" where
    "stM = (openedSession ''data.parquet'' [(''A'', ''INTEGER''), (''B'', ''INTEGER'')] 5)
             \<lparr>offset := 3, table := Some [1, 2, 3]\<rparr>"
  define stF :: "nat session" where
    "stF = (openedSession ''data.parquet'' [(''name'', ''VARCHAR'')] 5)
             \<lparr>filters := [(''name'', Scalar ''a'')]\<rparr>"
  have act: "hasFilters [(''name'', Scalar ''a'')]"
    by (simp add: hasFilters_def eval_strings)
  have hN: "\<not> hasFilters (filters stN) \<and> columns stN \<noteq> []"
    by (simp add: stN_def openedSession_def initialSession_def hasFilters_def)
  have hM: "columns stM \<noteq> [] \<and> table stM = Some [1, 2, 3]"
    by (simp add: stM_def openedSession_def initialSession_def)
  have hF1: "hasFilters (filters stF)"
    using act by (simp add: stF_def openedSession_def initialSession_def)
  have hF: "hasFilters (filters stF) \<and> columns stF \<noteq> []"
    using act by (simp add: stF_def openedSession_def initialSession_def)
  have tF: "table stF = Some []"
    by (simp add: stF_def openedSession_def initialSession_def)
  note N = results_applied_in_arrival_order [where chunk = CHUNK and env = quietEnv and st = stN
      and rowsOld = "[1, 2, 3]" and rowsNew = "[3, 2, 1]",
      THEN conjunct2, THEN conjunct2, THEN conjunct2, THEN conjunct2, THEN conjunct2,
      THEN conjunct2, THEN conjunct2, THEN conjunct2, THEN conjunct1, THEN mp, OF hN]
  note M = results_applied_in_arrival_order [where chunk = CHUNK and env = quietEnv and st = stM
      and rows = "[4, 5]" and shown = "[1, 2, 3]",
      THEN conjunct2, THEN conjunct2, THEN conjunct2, THEN conjunct2, THEN conjunct2,
      THEN conjunct2, THEN conjunct2, THEN conjunct1, THEN mp, OF hM]
  note F1 = results_applied_in_arrival_order [where chunk = CHUNK and env = quietEnv and st = stF
      and rows = "[1, 2, 3]",
      THEN conjunct2, THEN conjunct2, THEN conjunct2, THEN conjunct2, THEN conjunct2,
      THEN conjunct1, THEN mp, OF hF1]
  note F = results_applied_in_arrival_order [where chunk = CHUNK and env = quietEnv and st = stF
      and rowsOld = "[1, 2, 3]" and rowsNew = "[4, 5]" and nOld = 3 and nNew = 2,
      THEN conjunct2, THEN conjunct2, THEN conjunct2, THEN conjunct2, THEN conjunct2,
      THEN conjunct2, THEN conjunct2, THEN conjunct2, THEN conjunct2, THEN mp, OF hF]
  from N have a: "table (snd (reloadData_arrive CHUNK quietEnv (Inr [1, 2, 3])
      (snd (reloadData_arrive CHUNK quietEnv (Inr [3, 2, 1]) stN)))) = Some [1, 2, 3]"
    by (rule conjunct1)
  from M have b: "table (snd (loadMore_arrive CHUNK quietEnv (Inr [4, 5]) stM)) = Some [1, 2, 3, 4, 5]"
    by simp
  from F1 tF have c: "table (snd (reloadData_arrive CHUNK quietEnv (Inr [1, 2, 3]) stF)) = Some []"
    by simp
  from F have d: "table (reloadData_onCount CHUNK quietEnv [1, 2, 3] (Inr 3)
      (reloadData_onCount CHUNK quietEnv [4, 5] (Inr 2)
         (snd (reloadData_arrive CHUNK quietEnv (Inr [4, 5])
            (snd (reloadData_arrive CHUNK quietEnv (Inr [1, 2, 3]) stF)))))) = Some [1, 2, 3]"
    by (rule conjunct1)
  from F have e: "offset (reloadData_onCount CHUNK quietEnv [1, 2, 3] (Inr 3)
      (reloadData_onCount CHUNK quietEnv [4, 5] (Inr 2)
         (snd (reloadData_arrive CHUNK quietEnv (Inr [4, 5])
            (snd (reloadData_arrive CHUNK quietEnv (Inr [1, 2, 3]) stF)))))) = 2"
    by simp
  show ?thesis
    using a b act c d e unfolding stN_def stM_def stF_def by (intro conjI) assumption+
qed

text \<open>
  As stated, C9 fails. Two sort clicks follow each other before any rows arrive. The rows
  asked for under the first click (sorted by \<open>A\<close>) arrive after the second click has set the
  sort column to \<open>B\<close> and issued its own query: they are written into the table and the
  offset all the same, and should the two results arrive in the other order, the session
  ends with them, though a query under its sort state gives the other rows.
\<close>

theorem stale_rows_counterexample:
  "reloadData_query CHUNK overlapEngine (reloadData_begin (setSort ''A'' overlapStart)) = Inr [1, 2, 3] \<and>
   overlapSecondClick = reloadData_begin (setSort ''B'' (reloadData_begin (setSort ''A'' overlapStart))) \<and>
   reloadData_query CHUNK overlapEngine overlapSecondClick = Inr [3, 2, 1] \<and>
   sortColumn (snd (reloadData_arrive CHUNK overlapEngine (Inr [1, 2, 3]) overlapSecondClick)) = Some ''B'' \<and>
   table (snd (reloadData_arrive CHUNK overlapEngine (Inr [1, 2, 3]) overlapSecondClick)) = Some [1, 2, 3] \<and>
   offset (snd (reloadData_arrive CHUNK overlapEngine (Inr [1, 2, 3]) overlapSecondClick)) = 3 \<and>
   sortColumn (snd (reloadData_arrive CHUNK overlapEngine (Inr [1, 2, 3])
                 (snd (reloadData_arrive CHUNK overlapEngine (Inr [3, 2, 1]) overlapSecondClick)))) = Some ''B'' \<and>
   table (snd (reloadData_arrive CHUNK overlapEngine (Inr [1, 2, 3])
            (snd (reloadData_arrive CHUNK overlapEngine (Inr [3, 2, 1]) overlapSecondClick)))) = Some [1, 2, 3] \<and>
   reloadData_query CHUNK overlapEngine
     (snd (reloadData_arrive CHUNK overlapEngine (Inr [1, 2, 3])
        (snd (reloadData_arrive CHUNK overlapEngine (Inr [3, 2, 1]) overlapSecondClick)))) = Inr [3, 2, 1]"
proof -
  define s1 where "s1 = reloadData_begin (setSort ''A'' overlapStart)"
  define s2 where "s2 = overlapSecondClick"
  have f1: "currentSource s1 = Some ''data.parquet''" "columns s1 = [(''A'', ''INTEGER''), (''B'', ''INTEGER'')]"
    "sortColumn s1 = Some ''A''" "sortDirection s1 = Some ASC" "filters s1 = []" "totalRows s1 = 3"
    by (simp_all add: s1_def overlapStart_def openedSession_def reloadData_begin_def setSort_def
        initialSession_def)
  have s2: "s2 = reloadData_begin (setSort ''B'' s1)"
    by (simp add: s2_def s1_def overlapSecondClick_def)
  have f2: "currentSource s2 = Some ''data.parquet''" "columns s2 = [(''A'', ''INTEGER''), (''B'', ''INTEGER'')]"
    "sortColumn s2 = Some ''B''" "sortDirection s2 = Some ASC" "filters s2 = []" "totalRows s2 = 3"
    by (simp_all add: s2 reloadData_begin_def setSort_def f1)
  have r1: "reloadData_query CHUNK overlapEngine s1 = Inr [1, 2, 3]"
    by (simp add: reloadData_query_def f1 eval_queries buildFilterClauses_Nil overlapEngine_def quietEnv_def
        escapeColumnName_def escapeSource_def replaceAll_def)
  have qB: "currentSource s = Some ''data.parquet'' \<Longrightarrow> columns s = [(''A'', ''INTEGER''), (''B'', ''INTEGER'')] \<Longrightarrow>
      sortColumn s = Some ''B'' \<Longrightarrow> sortDirection s = Some ASC \<Longrightarrow> filters s = [] \<Longrightarrow>
      reloadData_query CHUNK overlapEngine s = Inr [3, 2, 1]" for s :: "nat session"
    by (simp add: reloadData_query_def eval_queries buildFilterClauses_Nil overlapEngine_def quietEnv_def
        escapeColumnName_def escapeSource_def replaceAll_def CHUNK_def showNat_small showNat_big)
  have r2: "reloadData_query CHUNK overlapEngine s2 = Inr [3, 2, 1]"
    by (rule qB) (simp_all add: f2)
  have c2: "currentFilteredCount overlapEngine s2 = Inr 3"
    by (simp add: currentFilteredCount_def hasFilters_def f2)
  have ne: "columns s2 \<noteq> []" by (simp add: f2)
  note w3 = reloadData_onRows_written [OF f2(1) ne c2, of CHUNK "[1, 2, 3]"]
  note w2 = reloadData_onRows_written [OF f2(1) ne c2, of CHUNK "[3, 2, 1]"]
  from w2 have g: "currentSource (reloadData_onRows CHUNK overlapEngine (Inr [3, 2, 1]) s2) = Some ''data.parquet''"
      "columns (reloadData_onRows CHUNK overlapEngine (Inr [3, 2, 1]) s2) \<noteq> []"
      "currentFilteredCount overlapEngine (reloadData_onRows CHUNK overlapEngine (Inr [3, 2, 1]) s2) = Inr 3"
    using ne by simp_all
  note w4 = reloadData_onRows_written [OF g, of CHUNK "[1, 2, 3]"]
  have s3: "sortColumn (reloadData_onRows CHUNK overlapEngine (Inr [1, 2, 3]) s2) = Some ''B''"
      "table (reloadData_onRows CHUNK overlapEngine (Inr [1, 2, 3]) s2) = Some [1, 2, 3]"
      "offset (reloadData_onRows CHUNK overlapEngine (Inr [1, 2, 3]) s2) = 3"
    using w3 by (simp_all add: f2)
  have s4: "sortColumn (reloadData_onRows CHUNK overlapEngine (Inr [1, 2, 3]) (reloadData_onRows CHUNK overlapEngine (Inr [3, 2, 1]) s2)) = Some ''B''"
      "table (reloadData_onRows CHUNK overlapEngine (Inr [1, 2, 3]) (reloadData_onRows CHUNK overlapEngine (Inr [3, 2, 1]) s2)) = Some [1, 2, 3]"
    using w4 w2 by (simp_all add: f2)
  have q4: "reloadData_query CHUNK overlapEngine
      (reloadData_onRows CHUNK overlapEngine (Inr [1, 2, 3]) (reloadData_onRows CHUNK overlapEngine (Inr [3, 2, 1]) s2)) = Inr [3, 2, 1]"
  proof (rule qB)
    show "currentSource (reloadData_onRows CHUNK overlapEngine (Inr [1, 2, 3]) (reloadData_onRows CHUNK overlapEngine (Inr [3, 2, 1]) s2)) = Some ''data.parquet''"
      using w4 by simp
    show "columns (reloadData_onRows CHUNK overlapEngine (Inr [1, 2, 3]) (reloadData_onRows CHUNK overlapEngine (Inr [3, 2, 1]) s2)) = [(''A'', ''INTEGER''), (''B'', ''INTEGER'')]"
      using w4 w2 by (simp add: f2)
    show "sortColumn (reloadData_onRows CHUNK overlapEngine (Inr [1, 2, 3]) (reloadData_onRows CHUNK overlapEngine (Inr [3, 2, 1]) s2)) = Some ''B''"
      by (rule s4(1))
    show "sortDirection (reloadData_onRows CHUNK overlapEngine (Inr [1, 2, 3]) (reloadData_onRows CHUNK overlapEngine (Inr [3, 2, 1]) s2)) = Some ASC"
      using w4 w2 by (simp add: f2)
    show "filters (reloadData_onRows CHUNK overlapEngine (Inr [1, 2, 3]) (reloadData_onRows CHUNK overlapEngine (Inr [3, 2, 1]) s2)) = []"
      using w4 w2 by (simp add: f2)
  qed
  have d: "overlapSecondClick = reloadData_begin (setSort ''B'' (reloadData_begin (setSort ''A'' overlapStart)))"
    by (simp add: overlapSecondClick_def)
  have nf2: "\<not> hasFilters (filters s2)"
    by (simp add: f2 hasFilters_def)
  have nf3: "\<not> hasFilters (filters (reloadData_onRows CHUNK overlapEngine (Inr [3, 2, 1]) s2))"
    using w2 by (simp add: f2 hasFilters_def)
  have e2: "snd (reloadData_arrive CHUNK overlapEngine res s2) = reloadData_onRows CHUNK overlapEngine res s2" for res
    by (simp only: reloadData_arrive_unfiltered [OF nf2] snd_conv)
  have e3: "snd (reloadData_arrive CHUNK overlapEngine res (reloadData_onRows CHUNK overlapEngine (Inr [3, 2, 1]) s2)) =
      reloadData_onRows CHUNK overlapEngine res (reloadData_onRows CHUNK overlapEngine (Inr [3, 2, 1]) s2)" for res
    by (simp only: reloadData_arrive_unfiltered [OF nf3] snd_conv)
  show ?thesis
    using r1 r2 s3 s4 q4 d unfolding s2_def [symmetric] e2 e3 unfolding s2_def s1_def
    by (intro conjI) assumption+
qed

end
